theory Spec2Isabelle
  imports Complex_Main "HOL-Library.Word"
begin

unbundle bit_operations_syntax

section \<open>AstroEQ firmware: data model\<close>

text \<open>
  The firmware of \<^verbatim>\<open>AstroEQ.cpp\<close> keeps its state in global variables, in the
  \<^verbatim>\<open>cmd\<close> structure of the Synta protocol layer and in a few AVR registers that
  the helper macros rename (\<^verbatim>\<open>currentMotorSpeed\<close>, \<^verbatim>\<open>irqToNextStep\<close>, ...).
  All of it is one record here; every per-axis array is a function of the axis.
  \<^verbatim>\<open>byte\<close> is an 8-bit word, \<^verbatim>\<open>unsigned int\<close> a 16-bit word and
  \<^verbatim>\<open>unsigned long\<close> a 32-bit word, as on the AVR; arithmetic on them wraps.
  A pin is \<open>True\<close> when it is high. \<open>stopped\<close>, \<open>gotoEn\<close> and \<open>FVal\<close> are
  \<open>True\<close> for \<^verbatim>\<open>CMD_STOPPED\<close> and \<^verbatim>\<open>CMD_ENABLED\<close>. \<open>eepromID\<close> tells
  whether the EEPROM holds the identification string; nothing else of the EEPROM's
  content is part of the state.
\<close>

datatype axis = RA | DC

datatype direction = CMD_FORWARD | CMD_REVERSE

datatype speedState = SPEEDNORM | SPEEDFAST

record AccelTableStruct =
  speed :: "16 word"
  repeats :: "8 word"

record state =
  jVal :: "axis \<Rightarrow> 32 word"
  IVal :: "axis \<Rightarrow> 16 word"
  HVal :: "axis \<Rightarrow> 32 word"
  stopped :: "axis \<Rightarrow> bool"
  gotoEn :: "axis \<Rightarrow> bool"
  FVal :: "axis \<Rightarrow> bool"
  GVal :: "axis \<Rightarrow> 8 word"
  dir :: "axis \<Rightarrow> direction"
  stepDir :: "axis \<Rightarrow> 8 word"
  highSpeedMode :: "axis \<Rightarrow> bool"
  aVal :: "axis \<Rightarrow> 32 word"
  bVal :: "axis \<Rightarrow> 32 word"
  sVal :: "axis \<Rightarrow> 32 word"
  gVal :: "axis \<Rightarrow> 8 word"
  st4RAReverse :: direction
  st4RAIVal :: "nat \<Rightarrow> 16 word"
  st4DecIVal :: "16 word"
  siderealIVal :: "axis \<Rightarrow> 16 word"
  currentIVal :: "axis \<Rightarrow> 16 word"
  minSpeed :: "axis \<Rightarrow> 16 word"
  normalGotoSpeed :: "axis \<Rightarrow> 16 word"
  stopSpeed :: "axis \<Rightarrow> 16 word"
  accelTable :: "axis \<Rightarrow> AccelTableStruct list"
  readyToGo :: "axis \<Rightarrow> 8 word"
  gotoPosn :: "axis \<Rightarrow> 32 word"
  encodeDirection :: "axis \<Rightarrow> bool"
  progMode :: "8 word"
  microstepConf :: "8 word"
  driverVersion :: "8 word"
  timerOVF :: "axis \<Rightarrow> 16 word list"
  canJumpToHighspeed :: bool
  defaultSpeedState :: speedState
  disableGearChange :: bool
  allowAdvancedHCDetection :: bool
  gotoDecelerationLength :: "axis \<Rightarrow> 16 word"
  accelTableRepeatsLeft :: "axis \<Rightarrow> 8 word"
  accelTableIndex :: "axis \<Rightarrow> 8 word"
  modeState :: "speedState \<Rightarrow> 8 word"
  distributionSegment :: "axis \<Rightarrow> 8 word"
  currentMotorSpeed :: "axis \<Rightarrow> 16 word"
  irqToNextStep :: "axis \<Rightarrow> 16 word"
  interruptOVFCount :: "axis \<Rightarrow> 16 word"
  timerCountRegister :: "axis \<Rightarrow> 16 word"
  timerInterruptEnabled :: "axis \<Rightarrow> bool"
  timerClockEnabled :: "axis \<Rightarrow> bool"
  gotoRunning :: "axis \<Rightarrow> bool"
  gotoDecelerating :: "axis \<Rightarrow> bool"
  stepPin :: "axis \<Rightarrow> bool"
  dirPin :: "axis \<Rightarrow> bool"
  enablePin :: "axis \<Rightarrow> bool"
  modePins :: "axis \<Rightarrow> nat \<Rightarrow> bool"
  eepromID :: bool

text \<open>
  Modelled from the spec: \<^verbatim>\<open>AccelTableLength\<close>, a macro of a header that is not
  part of the sources at hand. The spec's configuration holds a 6-entry acceleration
  table per axis. \<^verbatim>\<open>cmd.accelTable[axis]\<close> is a list of that length.
\<close>

definition AccelTableLength :: nat where
  "AccelTableLength = 6"

text \<open>\<^verbatim>\<open>DecimalDistnWidth\<close> and \<^verbatim>\<open>timerCountRate\<close>, as the source defines them.\<close>

definition DecimalDistnWidth :: nat where
  "DecimalDistnWidth = 32"

definition timerCountRate :: nat where
  "timerCountRate = 8000000"

subsection \<open>Accessors of the protocol layer\<close>

text \<open>
  Modelled from the spec: the setters \<^verbatim>\<open>cmd_setHVal\<close>, \<^verbatim>\<open>cmd_setIVal\<close>,
  \<^verbatim>\<open>cmd_setGVal\<close>, \<^verbatim>\<open>cmd_setDir\<close>, \<^verbatim>\<open>cmd_setStopped\<close>,
  \<^verbatim>\<open>cmd_setGotoEn\<close>, \<^verbatim>\<open>cmd_setFVal\<close>, \<^verbatim>\<open>cmd_setjVal\<close> and
  \<^verbatim>\<open>cmd_updateStepDir\<close> live in the protocol layer, which is not part of the
  sources at hand. Each setter stores its argument in the field it names. The target
  period is read into \<^verbatim>\<open>unsigned int\<close> variables throughout the firmware, so
  \<^verbatim>\<open>cmd_setIVal\<close> keeps the low 16 bits of its argument. \<^verbatim>\<open>stepDir\<close> is the
  signed position delta of one step: the step size, negated for the reverse direction.
\<close>

definition cmd_setHVal :: "axis \<Rightarrow> 32 word \<Rightarrow> state \<Rightarrow> state" where
  "cmd_setHVal a v s = s\<lparr>HVal := (HVal s)(a := v)\<rparr>"

definition cmd_setIVal :: "axis \<Rightarrow> 32 word \<Rightarrow> state \<Rightarrow> state" where
  "cmd_setIVal a v s = s\<lparr>IVal := (IVal s)(a := ucast v)\<rparr>"

definition cmd_setGVal :: "axis \<Rightarrow> 8 word \<Rightarrow> state \<Rightarrow> state" where
  "cmd_setGVal a v s = s\<lparr>GVal := (GVal s)(a := v)\<rparr>"

definition cmd_setDir :: "axis \<Rightarrow> direction \<Rightarrow> state \<Rightarrow> state" where
  "cmd_setDir a d s = s\<lparr>dir := (dir s)(a := d)\<rparr>"

definition cmd_setStopped :: "axis \<Rightarrow> bool \<Rightarrow> state \<Rightarrow> state" where
  "cmd_setStopped a b s = s\<lparr>stopped := (stopped s)(a := b)\<rparr>"

definition cmd_setGotoEn :: "axis \<Rightarrow> bool \<Rightarrow> state \<Rightarrow> state" where
  "cmd_setGotoEn a b s = s\<lparr>gotoEn := (gotoEn s)(a := b)\<rparr>"

definition cmd_setFVal :: "axis \<Rightarrow> bool \<Rightarrow> state \<Rightarrow> state" where
  "cmd_setFVal a b s = s\<lparr>FVal := (FVal s)(a := b)\<rparr>"

definition cmd_setjVal :: "axis \<Rightarrow> 32 word \<Rightarrow> state \<Rightarrow> state" where
  "cmd_setjVal a v s = s\<lparr>jVal := (jVal s)(a := v)\<rparr>"

definition cmd_updateStepDir :: "axis \<Rightarrow> 8 word \<Rightarrow> state \<Rightarrow> state" where
  "cmd_updateStepDir a stepSize s =
     s\<lparr>stepDir := (stepDir s)(a := (if dir s a = CMD_REVERSE then - stepSize else stepSize))\<rparr>"

subsection \<open>Goto control register and timer control\<close>

definition setGotoRunning :: "axis \<Rightarrow> state \<Rightarrow> state" where
  "setGotoRunning a s = s\<lparr>gotoRunning := (gotoRunning s)(a := True)\<rparr>"

definition clearGotoRunning :: "axis \<Rightarrow> state \<Rightarrow> state" where
  "clearGotoRunning a s = s\<lparr>gotoRunning := (gotoRunning s)(a := False)\<rparr>"

definition setGotoDecelerating :: "axis \<Rightarrow> state \<Rightarrow> state" where
  "setGotoDecelerating a s = s\<lparr>gotoDecelerating := (gotoDecelerating s)(a := True)\<rparr>"

definition clearGotoDecelerating :: "axis \<Rightarrow> state \<Rightarrow> state" where
  "clearGotoDecelerating a s = s\<lparr>gotoDecelerating := (gotoDecelerating s)(a := False)\<rparr>"

text \<open>
  \<^verbatim>\<open>timerEnable\<close> selects the timer's clock; \<^verbatim>\<open>timerDisable\<close> masks the capture
  interrupt and removes the clock.
\<close>

definition timerEnable :: "axis \<Rightarrow> state \<Rightarrow> state" where
  "timerEnable a s = s\<lparr>timerClockEnabled := (timerClockEnabled s)(a := True)\<rparr>"

definition timerDisable :: "axis \<Rightarrow> state \<Rightarrow> state" where
  "timerDisable a s =
     s\<lparr>timerInterruptEnabled := (timerInterruptEnabled s)(a := False),
       timerClockEnabled := (timerClockEnabled s)(a := False)\<rparr>"

section \<open>Deceleration length\<close>

text \<open>
  \<^verbatim>\<open>calculateDecelerationLength\<close>: the loop walks the table from index 0 and stops
  at the first entry whose speed (a period) is not above the goto speed, adding
  \<^verbatim>\<open>repeats + 1\<close> for each entry it passes, in 16-bit arithmetic.
\<close>

function decelLoop :: "AccelTableStruct list \<Rightarrow> 16 word \<Rightarrow> nat \<Rightarrow> 16 word \<Rightarrow> 16 word" where
  "decelLoop tbl gotoSpeed lookupTableIndex numberOfSteps =
     (if lookupTableIndex < AccelTableLength then
        (if speed (tbl ! lookupTableIndex) \<le> gotoSpeed then numberOfSteps
         else decelLoop tbl gotoSpeed (lookupTableIndex + 1)
                (numberOfSteps + ucast (repeats (tbl ! lookupTableIndex)) + 1))
      else numberOfSteps)"
  by pat_completeness auto
termination
  by (relation "measure (\<lambda>(tbl, g, i, n). AccelTableLength - i)") auto

definition calculateDecelerationLength :: "axis \<Rightarrow> state \<Rightarrow> state" where
  "calculateDecelerationLength a s =
     s\<lparr>gotoDecelerationLength :=
         (gotoDecelerationLength s)(a := decelLoop (accelTable s a) (normalGotoSpeed s a) 0 0)\<rparr>"

section \<open>Rate table\<close>

text \<open>
  \<^verbatim>\<open>calculateRate\<close> computes in \<^verbatim>\<open>float\<close>, which is IEEE 754 binary32 on the AVR.
  A float is a rational number here, and \<open>float32\<close> rounds a non-negative rational to
  the nearest number with a 24-bit significand (or the nearest multiple of \<open>2^-149\<close>
  below the normal range), ties to the even significand: \<open>ulpAt e x\<close> is the distance
  between neighbouring such numbers at \<open>x\<close> when the smallest one is \<open>2^-e\<close>. The
  values of \<^verbatim>\<open>calculateRate\<close> stay far below the overflow threshold, which is not
  modelled.
\<close>

fun bitLength :: "nat \<Rightarrow> nat" where
  "bitLength n = (if n = 0 then 0 else Suc (bitLength (n div 2)))"

definition roundEven :: "rat \<Rightarrow> int" where
  "roundEven x =
     (let f = \<lfloor>x\<rfloor>; d = x - of_int f
      in if d < 1 / 2 then f else if 1 / 2 < d then f + 1
         else if even f then f else f + 1)"

definition ulpAt :: "nat \<Rightarrow> rat \<Rightarrow> rat" where
  "ulpAt e x = 2 ^ (bitLength (nat \<lfloor>x * 2 ^ e\<rfloor>) - 24) / 2 ^ e"

definition ulp32 :: "rat \<Rightarrow> rat" where
  "ulp32 x = ulpAt 149 x"

definition float32 :: "rat \<Rightarrow> rat" where
  "float32 x = of_int (roundEven (x / ulp32 x)) * ulp32 x"

text \<open>
  The float part of \<^verbatim>\<open>calculateRate\<close>: the remainder of the division as a
  fraction of the divisor, times the distribution width, rounded by adding one half and
  truncating to \<^verbatim>\<open>unsigned long\<close>.
\<close>

definition extraClocks :: "nat \<Rightarrow> nat \<Rightarrow> nat" where
  "extraClocks remainder divisor =
     (let floatRemainder = float32 (float32 (of_nat remainder) / float32 (of_nat divisor));
          floatRemainder = float32 (floatRemainder * float32 (of_nat DecimalDistnWidth))
      in nat \<lfloor>float32 (floatRemainder + float32 (1 / 2))\<rfloor> mod 2 ^ 32)"

text \<open>
  The loop that spreads the extra clocks. \<open>index\<close> is a byte. The source writes beyond
  the array when the index is out of range; such a write is not recorded here.
\<close>

function distribute :: "nat \<Rightarrow> nat \<Rightarrow> 16 word list \<Rightarrow> 16 word list" where
  "distribute remainder i tbl =
     (if i < remainder then
        (let distn = float32 (of_nat i);
             distn = float32 (distn * float32 (of_nat DecimalDistnWidth));
             distn = float32 (distn / float32 (of_nat remainder));
             index = nat \<lceil>distn\<rceil> mod 256
         in distribute remainder (i + 1) (tbl[index := tbl ! index + 1]))
      else tbl)"
  by pat_completeness auto
termination
  by (relation "measure (\<lambda>(remainder, i, tbl). remainder - i)") auto

text \<open>
  \<^verbatim>\<open>calculateRate\<close>. The division by a zero \<^verbatim>\<open>bVal\<close> has no defined result and is
  \<open>None\<close>. The source is built either for the ATmega162, where every period is one
  less, or for the ATmega1280 and 2560; \<open>atmega162\<close> tells which.
\<close>

definition calculateRate :: "bool \<Rightarrow> axis \<Rightarrow> state \<Rightarrow> state option" where
  "calculateRate atmega162 a s =
     (let divisor = unat (bVal s a)
      in if divisor = 0 then None
         else
           (let rate = timerCountRate div divisor;
                remainder = timerCountRate mod divisor;
                remainder = extraClocks remainder divisor;
                rate = (if rate div 2 ^ 16 mod 2 ^ 16 \<noteq> 0 then 65535
                        else if rate < 128 then 128 else rate);
                rate = (if atmega162 then rate - 1 else rate);
                tbl = replicate DecimalDistnWidth (of_nat rate)
            in Some (s\<lparr>timerOVF := (timerOVF s)(a := distribute remainder 0 tbl)\<rparr>)))"

section \<open>Motor controller\<close>

text \<open>
  \<^verbatim>\<open>motorStartRA\<close> and \<^verbatim>\<open>motorStartDC\<close> are the same text for the two axes;
  \<open>motorStart\<close> is that text with the axis as a parameter.
\<close>

definition motorStart :: "axis \<Rightarrow> state \<Rightarrow> state" where
  "motorStart a s =
     (let IVal' = IVal s a;
          currentIVal' = currentMotorSpeed s a;
          stoppingSpeed = (if IVal' > minSpeed s a then IVal' else minSpeed s a);
          startSpeed = (if stopped s a then stoppingSpeed
                        else if currentIVal' < minSpeed s a then currentIVal'
                        else stoppingSpeed);
          s1 = s\<lparr>currentIVal := (currentIVal s)(a := IVal s a),
                 currentMotorSpeed := (currentMotorSpeed s)(a := startSpeed),
                 stopSpeed := (stopSpeed s)(a := stoppingSpeed),
                 dirPin := (dirPin s)(a := (encodeDirection s a \<noteq> (dir s a = CMD_REVERSE)))\<rparr>;
          s2 = (if stopped s1 a then
                  cmd_setStopped a False
                    (timerEnable a
                      (s1\<lparr>irqToNextStep := (irqToNextStep s1)(a := 1),
                          accelTableRepeatsLeft :=
                            (accelTableRepeatsLeft s1)(a := repeats (accelTable s1 a ! 0)),
                          accelTableIndex := (accelTableIndex s1)(a := 0),
                          distributionSegment := (distributionSegment s1)(a := 0),
                          timerCountRegister := (timerCountRegister s1)(a := 0),
                          interruptOVFCount := (interruptOVFCount s1)(a := timerOVF s1 a ! 0)\<rparr>))
                else s1)
      in s2\<lparr>timerInterruptEnabled := (timerInterruptEnabled s2)(a := True)\<rparr>)"

definition slewMode :: "axis \<Rightarrow> state \<Rightarrow> state" where
  "slewMode a s = motorStart a s"

text \<open>
  \<^verbatim>\<open>gotoMode\<close>. \<open>dirMagnitude\<close> is \<^verbatim>\<open>abs(cmd.stepDir[axis])\<close> stored in a byte.
  \<open>gotoHVal\<close> is the distance after the raise to \<^verbatim>\<open>2*dirMagnitude\<close>,
  \<open>gotoDecel\<close> the local \<^verbatim>\<open>decelerationLength\<close> where the function ends.
\<close>

definition dirMagnitude :: "axis \<Rightarrow> state \<Rightarrow> 8 word" where
  "dirMagnitude a s = word_of_int \<bar>sint (stepDir s a)\<bar>"

definition gotoRaiseHVal :: "axis \<Rightarrow> state \<Rightarrow> state" where
  "gotoRaiseHVal a s =
     (if HVal s a < 2 * ucast (dirMagnitude a s)
      then cmd_setHVal a (2 * ucast (dirMagnitude a s)) s else s)"

definition gotoHValMasked :: "axis \<Rightarrow> state \<Rightarrow> 32 word" where
  "gotoHValMasked a s =
     (if dirMagnitude a s = 8 then HVal s a AND 0xFFFFFFF8 else HVal s a)"

definition gotoHalfHVal :: "axis \<Rightarrow> state \<Rightarrow> 32 word" where
  "gotoHalfHVal a s =
     (if dirMagnitude a s = 8 then drop_bit 1 (HVal s a) AND 0xFFFFFFF8
      else drop_bit 1 (HVal s a))"

definition gotoDecel :: "axis \<Rightarrow> state \<Rightarrow> 16 word" where
  "gotoDecel a s =
     (let decelerationLength = gotoDecelerationLength s a;
          decelerationLength = (if highSpeedMode s a then decelerationLength * 3
                                else decelerationLength);
          decelerationLength = decelerationLength * ucast (dirMagnitude a s)
      in if gotoHalfHVal a s < ucast decelerationLength
         then ucast (gotoHalfHVal a s) else decelerationLength)"

definition gotoMode :: "axis \<Rightarrow> state \<Rightarrow> state" where
  "gotoMode a s =
     (let s1 = gotoRaiseHVal a s;
          gotoSpeed = normalGotoSpeed s1 a;
          HVal' = gotoHValMasked a s1 - ucast (gotoDecel a s1);
          s2 = s1\<lparr>gotoPosn := (gotoPosn s1)(a :=
                  jVal s1 a + (if dir s1 a = CMD_REVERSE then - HVal' else HVal'))\<rparr>
      in motorStart a (setGotoRunning a (clearGotoDecelerating a
           (cmd_setIVal a (ucast gotoSpeed) s2))))"

text \<open>
  \<^verbatim>\<open>motorStopRA\<close> and \<^verbatim>\<open>motorStopDC\<close>, with the axis as a parameter. The
  emergency branch stops the timer at once and marks the axis stopped; the other branch
  only moves the target above the stop speed and leaves the halt to the step engine.
\<close>

definition motorStop :: "axis \<Rightarrow> bool \<Rightarrow> state \<Rightarrow> state" where
  "motorStop a emergency s =
     (if emergency then
        (let s1 = cmd_setGVal a 0 (cmd_setStopped a True (cmd_setGotoEn a False (timerDisable a s)))
         in clearGotoRunning a (s1\<lparr>readyToGo := (readyToGo s1)(a := 0)\<rparr>))
      else if \<not> stopped s a then
        (let s1 = cmd_setGVal a 0 (clearGotoRunning a (cmd_setGotoEn a False s));
             s2 = s1\<lparr>timerInterruptEnabled := (timerInterruptEnabled s1)(a := False)\<rparr>;
             s3 = (if currentIVal s2 a < minSpeed s2 a \<and> stopSpeed s2 a > minSpeed s2 a
                   then s2\<lparr>stopSpeed := (stopSpeed s2)(a := minSpeed s2 a)\<rparr> else s2);
             s4 = s3\<lparr>currentIVal := (currentIVal s3)(a := stopSpeed s3 a + 1)\<rparr>
         in s4\<lparr>timerInterruptEnabled := (timerInterruptEnabled s4)(a := True)\<rparr>)
      else s)"

text \<open>
  \<^verbatim>\<open>configureTimer\<close> masks the capture interrupt of both timers and rewrites both
  timer control registers to the CTC mode bits, which leaves no clock selected.
\<close>

definition configureTimer :: "state \<Rightarrow> state" where
  "configureTimer s =
     s\<lparr>timerInterruptEnabled := (\<lambda>_. False), timerClockEnabled := (\<lambda>_. False)\<rparr>"

definition motorEnable :: "axis \<Rightarrow> state \<Rightarrow> state" where
  "motorEnable a s =
     configureTimer (cmd_setFVal a True (s\<lparr>enablePin := (enablePin s)(a := False)\<rparr>))"

definition motorDisable :: "axis \<Rightarrow> state \<Rightarrow> state" where
  "motorDisable a s = cmd_setFVal a False (s\<lparr>enablePin := (enablePin s)(a := True)\<rparr>)"

section \<open>Step engine\<close>

text \<open>
  The two capture interrupt routines are the same text for the two axes. A tick first
  counts \<open>irqToNextStep\<close> down; when it reaches zero the routine reloads the timer top
  from the dithered table, reloads the countdown from the current speed and then either
  completes a pulse (step pin high) or starts one (step pin low).
  \<open>accelTable s a ! i\<close> reads the table; the source reads memory beyond the array when
  \<open>i\<close> is out of range, and so nothing is known of the value here either.
\<close>

definition reloadRepeats :: "axis \<Rightarrow> 8 word \<Rightarrow> state \<Rightarrow> 8 word" where
  "reloadRepeats a accelIndex s =
     (if highSpeedMode s a then repeats (accelTable s a ! unat accelIndex) * 3 + 2
      else repeats (accelTable s a ! unat accelIndex))"

definition pulseComplete :: "axis \<Rightarrow> 16 word \<Rightarrow> state \<Rightarrow> state" where
  "pulseComplete a currentSpeed s =
     (let s1 = s\<lparr>stepPin := (stepPin s)(a := False)\<rparr>;
          jVal' = jVal s1 a + scast (stepDir s1 a);
          s2 = s1\<lparr>jVal := (jVal s1)(a := jVal')\<rparr>;
          s3 = (if gotoRunning s2 a \<and> \<not> gotoDecelerating s2 a \<and> gotoPosn s2 a = jVal'
                then (setGotoDecelerating a s2)
                       \<lparr>currentIVal := (currentIVal s2)(a := stopSpeed s2 a + 1),
                        accelTableRepeatsLeft := (accelTableRepeatsLeft s2)(a := 0)\<rparr>
                else s2)
      in if currentSpeed > stopSpeed s3 a then
           timerDisable a (cmd_setStopped a True
             (if gotoRunning s3 a then clearGotoRunning a (cmd_setGotoEn a False s3) else s3))
         else s3)"

definition pulseStart :: "axis \<Rightarrow> 16 word \<Rightarrow> state \<Rightarrow> state" where
  "pulseStart a currentSpeed s =
     (let s1 = s\<lparr>stepPin := (stepPin s)(a := True)\<rparr>;
          repeatsReqd = accelTableRepeatsLeft s1 a
      in if repeatsReqd = 0 then
           (let targetSpeed = currentIVal s1 a in
            if currentSpeed > targetSpeed then
              (let accelIndex = accelTableIndex s1 a in
               if unat accelIndex \<ge> AccelTableLength - 1 then
                 s1\<lparr>currentMotorSpeed := (currentMotorSpeed s1)(a := targetSpeed)\<rparr>
               else
                 (let accelIndex = accelIndex + 1;
                      s2 = s1\<lparr>accelTableIndex := (accelTableIndex s1)(a := accelIndex)\<rparr>;
                      currentSpeed = speed (accelTable s2 a ! unat accelIndex)
                  in if currentSpeed \<le> targetSpeed then
                       s2\<lparr>currentMotorSpeed := (currentMotorSpeed s2)(a := targetSpeed)\<rparr>
                     else
                       s2\<lparr>accelTableRepeatsLeft :=
                            (accelTableRepeatsLeft s2)(a := reloadRepeats a accelIndex s2),
                          currentMotorSpeed := (currentMotorSpeed s2)(a := currentSpeed)\<rparr>))
            else if currentSpeed < targetSpeed then
              (let accelIndex = accelTableIndex s1 a in
               if accelIndex = 0 then
                 s1\<lparr>currentMotorSpeed := (currentMotorSpeed s1)(a := targetSpeed)\<rparr>
               else
                 (let accelIndex = accelIndex - 1;
                      s2 = s1\<lparr>accelTableIndex := (accelTableIndex s1)(a := accelIndex)\<rparr>;
                      currentSpeed = speed (accelTable s2 a ! unat accelIndex)
                  in if currentSpeed \<ge> targetSpeed then
                       s2\<lparr>currentMotorSpeed := (currentMotorSpeed s2)(a := targetSpeed)\<rparr>
                     else
                       s2\<lparr>accelTableRepeatsLeft :=
                            (accelTableRepeatsLeft s2)(a := reloadRepeats a accelIndex s2),
                          currentMotorSpeed := (currentMotorSpeed s2)(a := currentSpeed)\<rparr>))
            else s1\<lparr>currentMotorSpeed := (currentMotorSpeed s1)(a := currentSpeed)\<rparr>)
         else s1\<lparr>accelTableRepeatsLeft := (accelTableRepeatsLeft s1)(a := repeatsReqd - 1)\<rparr>)"

text \<open>
  \<open>reloadTimer\<close> is the start of a tick whose countdown has reached zero: the timer top
  is taken from the dithered table (\<open>index\<close> is a byte offset into an array of 16-bit
  entries), the segment counter moves on and the countdown restarts at the current speed.
\<close>

definition reloadTimer :: "axis \<Rightarrow> state \<Rightarrow> state" where
  "reloadTimer a s =
     (let timeSegment = distributionSegment s a;
          index = 0x3E AND timeSegment
      in s\<lparr>interruptOVFCount := (interruptOVFCount s)(a := timerOVF s a ! (unat index div 2)),
           distributionSegment := (distributionSegment s)(a := timeSegment + 1),
           irqToNextStep := (irqToNextStep s)(a := currentMotorSpeed s a)\<rparr>)"

definition timerISR :: "axis \<Rightarrow> state \<Rightarrow> state" where
  "timerISR a s =
     (let irqToNext = irqToNextStep s a - 1
      in if irqToNext = 0 then
           (let currentSpeed = currentMotorSpeed s a;
                s2 = reloadTimer a s
            in if stepPin s2 a then pulseComplete a currentSpeed s2
               else pulseStart a currentSpeed s2)
         else s\<lparr>irqToNextStep := (irqToNextStep s)(a := irqToNext)\<rparr>)"

section \<open>ST4 handler\<close>

text \<open>
  The pin-change interrupt routine. Its inputs are the levels of the four ST4 pins; a
  button is pressed when its pin is low. \<open>setRASpeed\<close> is the code at the label
  of that name, reached with the local \<^verbatim>\<open>dir\<close>, \<^verbatim>\<open>stepDir\<close>,
  \<^verbatim>\<open>newSpeed\<close> and \<^verbatim>\<open>stopped\<close>; the code at \<^verbatim>\<open>ignoreRAST4\<close> jumps to
  it with forward direction and the sidereal speed.
\<close>

record st4Pins =
  pinRAP :: bool
  pinRAN :: bool
  pinDCP :: bool
  pinDCN :: bool

definition setRASpeed :: "direction \<Rightarrow> 8 word \<Rightarrow> 16 word \<Rightarrow> bool \<Rightarrow> state \<Rightarrow> state" where
  "setRASpeed dir' stepDir' newSpeed stopped' s =
     (let s1 = s\<lparr>currentIVal := (currentIVal s)(RA := newSpeed)\<rparr>
      in if stopped' then
           motorStart RA
             (s1\<lparr>stepDir := (stepDir s1)(RA := stepDir'),
                 dir := (dir s1)(RA := dir'),
                 GVal := (GVal s1)(RA := 1)\<rparr>)
         else if stopSpeed s1 RA < currentIVal s1 RA then
           s1\<lparr>stopSpeed := (stopSpeed s1)(RA := currentIVal s1 RA)\<rparr>
         else s1)"

definition st4RA :: "st4Pins \<Rightarrow> state \<Rightarrow> state" where
  "st4RA pins s =
     (let stopped' = (stopped s RA \<or> st4RAReverse s = CMD_REVERSE)
      in if dir s RA = CMD_REVERSE \<and> \<not> stopped' then
           setRASpeed CMD_FORWARD 1 (siderealIVal s RA) stopped' s
         else if \<not> pinRAN pins then
           (if st4RAReverse s = CMD_REVERSE
            then setRASpeed CMD_REVERSE (- 1) (st4RAIVal s 1) stopped' s
            else setRASpeed CMD_FORWARD 1 (st4RAIVal s 1) stopped' s)
         else if \<not> pinRAP pins then
           setRASpeed CMD_FORWARD 1 (st4RAIVal s 0) stopped' s
         else setRASpeed CMD_FORWARD 1 (siderealIVal s RA) stopped' s)"

definition setDECSpeed :: "direction \<Rightarrow> 8 word \<Rightarrow> state \<Rightarrow> state" where
  "setDECSpeed dir' stepDir' s =
     motorStart DC
       (s\<lparr>stepDir := (stepDir s)(DC := stepDir'),
          dir := (dir s)(DC := dir'),
          currentIVal := (currentIVal s)(DC := st4DecIVal s),
          GVal := (GVal s)(DC := 1)\<rparr>)"

definition st4DC :: "st4Pins \<Rightarrow> state \<Rightarrow> state" where
  "st4DC pins s =
     (if \<not> pinDCN pins then setDECSpeed CMD_REVERSE (- 1) s
      else if \<not> pinDCP pins then setDECSpeed CMD_FORWARD 1 s
      else s\<lparr>currentIVal := (currentIVal s)(DC := stopSpeed s DC + 1)\<rparr>)"

definition st4ISR :: "st4Pins \<Rightarrow> state \<Rightarrow> state" where
  "st4ISR pins s =
     (if \<not> gotoEn s RA \<and> \<not> gotoEn s DC then st4DC pins (st4RA pins s) else s)"

section \<open>Main loop: starting a movement\<close>

text \<open>
  The part of the run loop that serves \<^verbatim>\<open>readyToGo\<close>, written once in the source
  for each axis. \<^verbatim>\<open>GVal\<close> is a signed char; \<^verbatim>\<open>GVal & 1\<close> reads its lowest bit.
\<close>

definition setModePins :: "axis \<Rightarrow> 8 word \<Rightarrow> state \<Rightarrow> state" where
  "setModePins a state' s =
     s\<lparr>modePins := (modePins s)(a :=
          (modePins s a)(0 := bit state' 0, 1 := bit state' 1, 2 := bit state' 2))\<rparr>"

text \<open>\<open>selectSpeedMode\<close> is the block that sets mode pins, step delta and speed mode.\<close>

definition selectSpeedMode :: "axis \<Rightarrow> state \<Rightarrow> state" where
  "selectSpeedMode a s =
     (let GVal' = GVal s a
      in if canJumpToHighspeed s then
           (if GVal' = 1 \<or> GVal' = 2 then
              setModePins a (modeState s SPEEDNORM)
                ((cmd_updateStepDir a 1 s)\<lparr>highSpeedMode := (highSpeedMode s)(a := False)\<rparr>)
            else
              setModePins a (modeState s SPEEDFAST)
                ((cmd_updateStepDir a (gVal s a) s)
                   \<lparr>highSpeedMode := (highSpeedMode s)(a := True)\<rparr>))
         else
           (cmd_updateStepDir a 1 s)\<lparr>highSpeedMode := (highSpeedMode s)(a := False)\<rparr>)"

definition mainLoopAxis :: "axis \<Rightarrow> state \<Rightarrow> state" where
  "mainLoopAxis a s =
     (if readyToGo s a = 1 then
        (if stopped s a then
           (let GVal' = GVal s a;
                s1 = selectSpeedMode a s
            in if bit GVal' 0 then
                 (let s2 = slewMode a s1 in s2\<lparr>readyToGo := (readyToGo s2)(a := 2)\<rparr>)
               else
                 (let s2 = gotoMode a s1 in s2\<lparr>readyToGo := (readyToGo s2)(a := 0)\<rparr>))
         else s)
      else s)"

section \<open>Command decoder\<close>

text \<open>
  \<^verbatim>\<open>checkEEPROM\<close>. Modelled from the spec: the driver families \<^verbatim>\<open>A498x\<close>,
  \<^verbatim>\<open>DRV882x\<close> and \<^verbatim>\<open>DRV8834\<close> are numbered in a header that is not part of the
  sources at hand; they are taken as 0, 1 and 2, the last being the largest as the
  range check of the source needs. \<^verbatim>\<open>MIN_IVAL\<close> comes from the same header and is
  a parameter.
\<close>

definition A498x :: "8 word" where "A498x = 0"
definition DRV882x :: "8 word" where "DRV882x = 1"
definition DRV8834 :: "8 word" where "DRV8834 = 2"

definition checkEEPROM :: "16 word \<Rightarrow> state \<Rightarrow> bool" where
  "checkEEPROM MIN_IVAL s =
     (if \<not> eepromID s then False
      else if driverVersion s > DRV8834 then False
      else if driverVersion s = A498x \<and> microstepConf s > 16 then False
      else if microstepConf s > 32 then False
      else if siderealIVal s RA > 1200 \<or> siderealIVal s RA < MIN_IVAL then False
      else if siderealIVal s DC > 1200 \<or> siderealIVal s DC < MIN_IVAL then False
      else if normalGotoSpeed s RA = 0 then False
      else if normalGotoSpeed s DC = 0 then False
      else True)"

definition buildEEPROM :: "state \<Rightarrow> state" where
  "buildEEPROM s = s\<lparr>eepromID := True\<rparr>"

text \<open>
  A decoded packet: the first two characters of the buffer and the values the hex
  parsers of the protocol layer (\<^verbatim>\<open>synta_hexToLong\<close>, \<^verbatim>\<open>synta_hexToByte\<close>, not
  part of the sources at hand) return for it.
\<close>

record packet =
  buffer0 :: "8 word"
  buffer1 :: "8 word"
  hexToLong :: "32 word"
  hexToByte :: "8 word"

text \<open>
  What \<^verbatim>\<open>decodeCommand\<close> leaves behind: the state, whether the response is an
  error packet (the source forces one by clearing \<^verbatim>\<open>command\<close> before the response
  is assembled) and the value it returns (false asks for a reset). The payload of a
  data response is not part of the model.
\<close>

record outcome =
  newState :: state
  errorResponse :: bool
  returned :: bool

definition wrapAccelTableIndex :: "axis \<Rightarrow> state \<Rightarrow> state" where
  "wrapAccelTableIndex a s =
     (let s1 = s\<lparr>accelTableIndex := (accelTableIndex s)(a := accelTableIndex s a + 1)\<rparr>
      in if unat (accelTableIndex s1 a) \<ge> AccelTableLength
         then s1\<lparr>accelTableIndex := (accelTableIndex s1)(a := 0)\<rparr> else s1)"

text \<open>
  The body of the \<^verbatim>\<open>switch\<close>: the state after the case of the command, and whether
  the case cleared \<^verbatim>\<open>command\<close>. The read-only commands change nothing;
  \<^verbatim>\<open>storeEEPROM\<close> writes only to the EEPROM. A table entry written with an index
  out of range lands outside the table and is not recorded.
\<close>

definition decodeSwitch :: "16 word \<Rightarrow> char \<Rightarrow> axis \<Rightarrow> packet \<Rightarrow> state \<Rightarrow> state \<times> bool" where
  "decodeSwitch MIN_IVAL command a buffer s =
     (if command = CHR ''K'' then
        (let s1 = motorStop a False s in (s1\<lparr>readyToGo := (readyToGo s1)(a := 0)\<rparr>, False))
      else if command = CHR ''L'' then (motorDisable a (motorStop a True s), False)
      else if command = CHR ''G'' then
        (let s1 = cmd_setDir a (if buffer1 buffer \<noteq> 0x30 then CMD_REVERSE else CMD_FORWARD)
                    (cmd_setGVal a (buffer0 buffer - 0x30) s)
         in (s1\<lparr>readyToGo := (readyToGo s1)(a := 0)\<rparr>, False))
      else if command = CHR ''H'' then
        (let s1 = cmd_setHVal a (hexToLong buffer) s
         in (s1\<lparr>readyToGo := (readyToGo s1)(a := 0)\<rparr>, False))
      else if command = CHR ''I'' then
        (let responseData = hexToLong buffer;
             responseData =
               (if responseData < ucast (speed (accelTable s a ! (AccelTableLength - 1)))
                then ucast (speed (accelTable s a ! (AccelTableLength - 1)))
                else responseData);
             s1 = cmd_setIVal a responseData s
         in if readyToGo s1 a = 2 then (motorStart a s1, False)
            else (s1\<lparr>readyToGo := (readyToGo s1)(a := 0)\<rparr>, False))
      else if command = CHR ''E'' then (cmd_setjVal a (hexToLong buffer) s, False)
      else if command = CHR ''F'' then
        (if progMode s = 0 then (motorEnable a s, False) else (s, True))
      else if command = CHR ''A'' then (s\<lparr>aVal := (aVal s)(a := hexToLong buffer)\<rparr>, False)
      else if command = CHR ''B'' then (s\<lparr>bVal := (bVal s)(a := hexToLong buffer)\<rparr>, False)
      else if command = CHR ''S'' then (s\<lparr>sVal := (sVal s)(a := hexToLong buffer)\<rparr>, False)
      else if command = CHR ''N'' then
        (s\<lparr>siderealIVal := (siderealIVal s)(a := ucast (hexToLong buffer))\<rparr>, False)
      else if command = CHR ''D'' then
        (if a = DC then
           (s\<lparr>microstepConf := hexToByte buffer, canJumpToHighspeed := (hexToByte buffer \<ge> 8)\<rparr>,
            False)
         else (s\<lparr>driverVersion := hexToByte buffer\<rparr>, False))
      else if command = CHR ''Z'' then
        (s\<lparr>normalGotoSpeed := (normalGotoSpeed s)(a := ucast (hexToByte buffer))\<rparr>, False)
      else if command = CHR ''C'' then
        (s\<lparr>encodeDirection := (encodeDirection s)(a := (buffer0 buffer - 0x30 \<noteq> 0))\<rparr>, False)
      else if command = CHR ''Q'' then
        (if a = DC then (s\<lparr>disableGearChange := (hexToByte buffer \<noteq> 0)\<rparr>, False)
         else (s\<lparr>allowAdvancedHCDetection := (hexToByte buffer \<noteq> 0)\<rparr>, False))
      else if command = CHR ''x'' then (wrapAccelTableIndex a s, False)
      else if command = CHR ''X'' then
        (let dataIn = hexToLong buffer;
             i = unat (accelTableIndex s a);
             s1 = s\<lparr>accelTable := (accelTable s)(a :=
                     (accelTable s a)[i := \<lparr>speed = ucast dataIn,
                                             repeats = ucast (drop_bit 16 dataIn)\<rparr>])\<rparr>
         in (wrapAccelTableIndex a s1, False))
      else if command = CHR ''Y'' then
        (let s1 = s\<lparr>accelTableIndex := (accelTableIndex s)(a := hexToByte buffer)\<rparr>
         in (s1, unat (accelTableIndex s1 a) \<ge> AccelTableLength))
      else if command = CHR ''O'' then
        (let s1 = s\<lparr>progMode := buffer0 buffer - 0x30\<rparr>
         in if progMode s1 \<noteq> 0 then
              (let s2 = motorDisable DC (motorStop DC True (motorDisable RA (motorStop RA True s1)))
               in (s2\<lparr>readyToGo := (\<lambda>_. 0)\<rparr>, False))
            else (s1, False))
      else if command = CHR ''T'' then
        (if bit (progMode s) 1 then
           (if bit (progMode s) 0 then (buildEEPROM s, False) else (s, False))
         else if bit (progMode s) 0 then (s, \<not> checkEEPROM MIN_IVAL s)
         else (s, False))
      else (s, False))"

definition decodeCommand :: "16 word \<Rightarrow> char \<Rightarrow> axis \<Rightarrow> packet \<Rightarrow> state \<Rightarrow> outcome" where
  "decodeCommand MIN_IVAL command a buffer s =
     (let (s1, cleared) = decodeSwitch MIN_IVAL command a buffer s
      in if \<not> cleared \<and> command = CHR ''R'' then
           \<lparr>newState = s1, errorResponse = cleared, returned = False\<rparr>
         else if \<not> cleared \<and> command = CHR ''J'' \<and> progMode s1 = 0 then
           (let s2 = s1\<lparr>readyToGo := (readyToGo s1)(a := 1)\<rparr>;
                s3 = (if \<not> bit (GVal s2 a) 0 then cmd_setGotoEn a True s2 else s2)
            in \<lparr>newState = s3, errorResponse = cleared, returned = True\<rparr>)
         else \<lparr>newState = s1, errorResponse = cleared, returned = True\<rparr>)"

section \<open>Transitions of the firmware\<close>

text \<open>
  Everything that changes the state after start-up: a capture interrupt of a timer
  (delivered only while the timer has a clock and its interrupt is enabled), a change
  of the ST4 pins, a decoded command, the run loop serving \<^verbatim>\<open>readyToGo\<close> for an
  axis, the run loop entering stand-alone mode, and the run loop switching the ST4
  speeds of the basic hand controller.
  Modelled from the spec: \<^verbatim>\<open>Commands_configureST4Speed\<close> belongs to the protocol
  layer, which is not part of the sources at hand; it sets the ST4 speeds, and the
  values it stores are carried by the event.
\<close>

record st4Speeds =
  newRAReverse :: direction
  newRAIVal :: "nat \<Rightarrow> 16 word"
  newDecIVal :: "16 word"

definition Commands_configureST4Speed :: "st4Speeds \<Rightarrow> state \<Rightarrow> state" where
  "Commands_configureST4Speed v s =
     s\<lparr>st4RAReverse := newRAReverse v, st4RAIVal := newRAIVal v, st4DecIVal := newDecIVal v\<rparr>"

text \<open>
  The run loop on finding a hand controller: both motors are stopped at once and the
  positions are set to mid-range; for a basic controller the mode pins take the default
  mode, the motors are enabled and the right ascension axis is made ready to track.
\<close>

definition enterStandalone :: "bool \<Rightarrow> st4Speeds \<Rightarrow> state \<Rightarrow> state" where
  "enterStandalone advanced v s =
     (let s1 = cmd_setjVal DC 0x800000 (cmd_setjVal RA 0x800000
                 (motorStop DC True (motorStop RA True s)))
      in if advanced then s1
         else
           (let state' = modeState s1 (defaultSpeedState s1);
                s2 = Commands_configureST4Speed v (setModePins DC state' (setModePins RA state' s1));
                s3 = motorEnable DC (motorEnable RA s2);
                s4 = cmd_setDir DC CMD_FORWARD (cmd_setDir RA CMD_FORWARD
                       (cmd_setGVal DC 1 (cmd_setGVal RA 1 s3)));
                s5 = cmd_setIVal RA (ucast (siderealIVal s4 RA)) s4
            in s5\<lparr>readyToGo := (readyToGo s5)(RA := 1)\<rparr>))"

datatype event =
    TimerCapture axis
  | ST4Change st4Pins
  | Command char axis packet
  | MainLoopAxis axis
  | EnterStandalone bool st4Speeds
  | ConfigureST4 st4Speeds

definition step :: "16 word \<Rightarrow> event \<Rightarrow> state \<Rightarrow> state" where
  "step MIN_IVAL ev s =
     (case ev of
        TimerCapture a \<Rightarrow>
          (if timerInterruptEnabled s a \<and> timerClockEnabled s a then timerISR a s else s)
      | ST4Change pins \<Rightarrow> st4ISR pins s
      | Command c a buffer \<Rightarrow> newState (decodeCommand MIN_IVAL c a buffer s)
      | MainLoopAxis a \<Rightarrow> mainLoopAxis a s
      | EnterStandalone advanced v \<Rightarrow> enterStandalone advanced v s
      | ConfigureST4 v \<Rightarrow> Commands_configureST4Speed v s)"

text \<open>A run of the firmware: the events of a list, one after the other.\<close>

definition run :: "16 word \<Rightarrow> event list \<Rightarrow> state \<Rightarrow> state" where
  "run MIN_IVAL evs s = foldl (\<lambda>s' ev. step MIN_IVAL ev s') s evs"

section \<open>Notions of the specification\<close>

text \<open>
  The magnitude \<open>|stepDir|\<close> of the signed step delta, and the number of steps the
  specification plans for a deceleration: \<open>repeats + 1\<close> summed over the leading table
  entries whose speed (a period) is above the goto speed.
\<close>

definition stepMagnitude :: "axis \<Rightarrow> state \<Rightarrow> nat" where
  "stepMagnitude a s = nat \<bar>sint (stepDir s a)\<bar>"

definition decelSteps :: "AccelTableStruct list \<Rightarrow> 16 word \<Rightarrow> nat" where
  "decelSteps tbl g =
     sum_list (map (\<lambda>e. unat (repeats e) + 1) (takeWhile (\<lambda>e. g < speed e) tbl))"

definition plannedDecel :: "axis \<Rightarrow> state \<Rightarrow> nat" where
  "plannedDecel a s =
     decelSteps (accelTable s a) (normalGotoSpeed s a)
       * (if highSpeedMode s a then 3 else 1) * stepMagnitude a s"

text \<open>
  The goto distance and its half as \<^verbatim>\<open>gotoMode\<close> uses them: with a step of 8 the
  low three bits of each are cleared.
\<close>

definition maskedDistance :: "nat \<Rightarrow> nat \<Rightarrow> nat" where
  "maskedDistance m h = (if m = 8 then 8 * (h div 8) else h)"

definition halfDistance :: "nat \<Rightarrow> nat \<Rightarrow> nat" where
  "halfDistance m h = (if m = 8 then 8 * ((h div 2) div 8) else h div 2)"

text \<open>
  The engine of an axis is disarmed when the axis is marked stopped and its timer has
  neither its capture interrupt enabled nor a clock. \<open>emergencyStopEvent\<close> tells
  whether an event calls \<open>motorStop\<close> for the axis with the emergency flag: the
  \<^verbatim>\<open>L\<close> command for the axis, the \<^verbatim>\<open>O\<close> command with a mode other than 0, and
  the entry into stand-alone mode.
\<close>

definition disarmed :: "axis \<Rightarrow> state \<Rightarrow> bool" where
  "disarmed a s = (stopped s a \<and> \<not> timerInterruptEnabled s a \<and> \<not> timerClockEnabled s a)"

definition emergencyStopEvent :: "axis \<Rightarrow> event \<Rightarrow> bool" where
  "emergencyStopEvent a ev =
     (case ev of
        Command c b buffer \<Rightarrow>
          (c = CHR ''L'' \<and> b = a) \<or> (c = CHR ''O'' \<and> buffer0 buffer - 0x30 \<noteq> 0)
      | EnterStandalone advanced v \<Rightarrow> True
      | _ \<Rightarrow> False)"

text \<open>
  The rate table of the specification: \<open>specRound\<close> rounds to the nearest integer,
  and \<open>spreadOffset r i\<close> is the slot of the \<open>i\<close>-th of \<open>r\<close> extra clocks, the
  ceiling of \<open>32 * i / r\<close>.
\<close>

definition specRound :: "rat \<Rightarrow> int" where
  "specRound x = \<lfloor>x + 1 / 2\<rfloor>"

definition spreadOffset :: "nat \<Rightarrow> nat \<Rightarrow> nat" where
  "spreadOffset r i = nat \<lceil>of_nat (DecimalDistnWidth * i) / of_nat r :: rat\<rceil>"

text \<open>
  The table of the specification: every slot holds the base period, and the slots at the
  offsets of the \<open>r\<close> extra clocks hold one more; \<open>idealSum b\<close> is the whole step of 32
  periods at the divisor \<open>b\<close>, rounded.
\<close>

definition extraSlots :: "nat \<Rightarrow> nat set" where
  "extraSlots r = spreadOffset r ` {..<r}"

definition spreadTable :: "nat \<Rightarrow> nat \<Rightarrow> nat list" where
  "spreadTable base r =
     map (\<lambda>k. base + (if k \<in> extraSlots r then 1 else 0)) [0..<DecimalDistnWidth]"

definition idealSum :: "nat \<Rightarrow> int" where
  "idealSum b = specRound (of_nat (DecimalDistnWidth * timerCountRate) / of_nat b)"

text \<open>The period limits of the specification: above 65535 gives 65535, below 128 gives 128.\<close>

definition clampPeriod :: "nat \<Rightarrow> nat" where
  "clampPeriod p = (if 65535 < p then 65535 else if p < 128 then 128 else p)"

text \<open>The table that \<^verbatim>\<open>calculateRate\<close> leaves for an axis.\<close>

definition rateTable :: "bool \<Rightarrow> axis \<Rightarrow> state \<Rightarrow> 16 word list" where
  "rateTable atmega162 a s =
     (case calculateRate atmega162 a s of None \<Rightarrow> [] | Some s' \<Rightarrow> timerOVF s' a)"

section \<open>Example configuration\<close>

text \<open>
  A mount at rest in the middle of its range, with a six-entry acceleration table, used
  to evaluate the operations on concrete inputs.
\<close>

definition exampleTable :: "AccelTableStruct list" where
  "exampleTable =
     [\<lparr>speed = 100, repeats = 4\<rparr>, \<lparr>speed = 50, repeats = 4\<rparr>, \<lparr>speed = 20, repeats = 3\<rparr>,
      \<lparr>speed = 10, repeats = 2\<rparr>, \<lparr>speed = 5, repeats = 1\<rparr>, \<lparr>speed = 2, repeats = 0\<rparr>]"

definition exampleState :: state where
  "exampleState =
     \<lparr>jVal = (\<lambda>_. 0x800000), IVal = (\<lambda>_. 1000), HVal = (\<lambda>_. 0), stopped = (\<lambda>_. True),
      gotoEn = (\<lambda>_. False), FVal = (\<lambda>_. True), GVal = (\<lambda>_. 1), dir = (\<lambda>_. CMD_FORWARD),
      stepDir = (\<lambda>_. 1), highSpeedMode = (\<lambda>_. False), aVal = (\<lambda>_. 9024000),
      bVal = (\<lambda>_. 40000), sVal = (\<lambda>_. 64000), gVal = (\<lambda>_. 8), st4RAReverse = CMD_FORWARD,
      st4RAIVal = (\<lambda>i. if i = 0 then 800 else 1333), st4DecIVal = 4000,
      siderealIVal = (\<lambda>_. 1000), currentIVal = (\<lambda>_. 1000), minSpeed = (\<lambda>_. 100),
      normalGotoSpeed = (\<lambda>_. 20), stopSpeed = (\<lambda>_. 1000), accelTable = (\<lambda>_. exampleTable),
      readyToGo = (\<lambda>_. 0), gotoPosn = (\<lambda>_. 0), encodeDirection = (\<lambda>_. False), progMode = 0,
      microstepConf = 16, driverVersion = 0, timerOVF = (\<lambda>_. replicate 32 200),
      canJumpToHighspeed = True, defaultSpeedState = SPEEDNORM, disableGearChange = False, allowAdvancedHCDetection = False,
      gotoDecelerationLength = (\<lambda>_. 10), accelTableRepeatsLeft = (\<lambda>_. 0),
      accelTableIndex = (\<lambda>_. 0), modeState = (\<lambda>m. if m = SPEEDNORM then 3 else 0),
      distributionSegment = (\<lambda>_. 0), currentMotorSpeed = (\<lambda>_. 1000), irqToNextStep = (\<lambda>_. 1),
      interruptOVFCount = (\<lambda>_. 200), timerCountRegister = (\<lambda>_. 0),
      timerInterruptEnabled = (\<lambda>_. False), timerClockEnabled = (\<lambda>_. False),
      gotoRunning = (\<lambda>_. False), gotoDecelerating = (\<lambda>_. False), stepPin = (\<lambda>_. False),
      dirPin = (\<lambda>_. False), enablePin = (\<lambda>_. False), modePins = (\<lambda>_ _. False),
      eepromID = True\<rparr>"

text \<open>A goto of one position unit requested in high-speed mode (step delta 8).\<close>

definition shortGotoState :: state where
  "shortGotoState =
     exampleState\<lparr>HVal := (\<lambda>_. 1), stepDir := (\<lambda>_. 8), highSpeedMode := (\<lambda>_. True)\<rparr>"

text \<open>A goto of 0x89 position units in high-speed mode (step delta 8).\<close>

definition highSpeedGotoState :: state where
  "highSpeedGotoState =
     exampleState\<lparr>HVal := (\<lambda>_. 0x89), stepDir := (\<lambda>_. 8), highSpeedMode := (\<lambda>_. True)\<rparr>"

text \<open>
  Packets and states for the command decoder: an \<^verbatim>\<open>I\<close> command for period 30, a
  \<^verbatim>\<open>Y\<close> command for table index 255, and a mount slewing on the right ascension axis
  in the mode that takes speed updates.
\<close>

definition period30Packet :: packet where
  "period30Packet = \<lparr>buffer0 = 0x31, buffer1 = 0x45, hexToLong = 30, hexToByte = 0x1E\<rparr>"

definition slewingState :: state where
  "slewingState = (motorStart RA exampleState)\<lparr>readyToGo := (\<lambda>_. 2)\<rparr>"

definition badIndexPacket :: packet where
  "badIndexPacket = \<lparr>buffer0 = 0x46, buffer1 = 0x46, hexToLong = 0xFF, hexToByte = 0xFF\<rparr>"

text \<open>
  A stopped mount after a \<^verbatim>\<open>J\<close> command: once with mode 0 (a goto of 0x100 units)
  and once with mode 1 (a slew).
\<close>

definition readyGotoState :: state where
  "readyGotoState = exampleState\<lparr>readyToGo := (\<lambda>_. 1), GVal := (\<lambda>_. 0), HVal := (\<lambda>_. 0x100)\<rparr>"

definition readySlewState :: state where
  "readySlewState = exampleState\<lparr>readyToGo := (\<lambda>_. 1), GVal := (\<lambda>_. 1)\<rparr>"

text \<open>
  ST4 pin levels with the RA+ button pressed and with no button pressed, and a state
  for the ST4 handler: a slew in the reverse direction.
\<close>

definition raPlusPressed :: st4Pins where
  "raPlusPressed = \<lparr>pinRAP = False, pinRAN = True, pinDCP = True, pinDCN = True\<rparr>"

definition noButtonPressed :: st4Pins where
  "noButtonPressed = \<lparr>pinRAP = True, pinRAN = True, pinDCP = True, pinDCN = True\<rparr>"

definition reverseSlewState :: state where
  "reverseSlewState =
     motorStart RA (exampleState\<lparr>dir := (\<lambda>_. CMD_REVERSE), stepDir := (\<lambda>_. - 1)\<rparr>)"

text \<open>A packet without payload, as the \<^verbatim>\<open>J\<close>, \<^verbatim>\<open>K\<close> and \<^verbatim>\<open>L\<close> commands carry.\<close>

definition emptyPacket :: packet where
  "emptyPacket = \<lparr>buffer0 = 0, buffer1 = 0, hexToLong = 0, hexToByte = 0\<rparr>"

text \<open>
  A slew at the moment the step engine finds the current speed above the stop speed,
  with a pulse to complete.
\<close>

definition stoppingState :: state where
  "stoppingState = slewingState\<lparr>stepPin := (\<lambda>_. True), currentMotorSpeed := (\<lambda>_. 1001)\<rparr>"

text \<open>
  An acceleration table whose second entry has 85 repeats, and an axis in high-speed
  mode at the speed of the first entry, about to start the pulse on which it moves to
  the second.
\<close>

definition overflowTable :: "AccelTableStruct list" where
  "overflowTable =
     [\<lparr>speed = 100, repeats = 4\<rparr>, \<lparr>speed = 50, repeats = 85\<rparr>, \<lparr>speed = 20, repeats = 3\<rparr>,
      \<lparr>speed = 10, repeats = 2\<rparr>, \<lparr>speed = 5, repeats = 1\<rparr>, \<lparr>speed = 2, repeats = 0\<rparr>]"

definition highSpeedRampState :: state where
  "highSpeedRampState =
     exampleState\<lparr>stopped := (\<lambda>_. False), highSpeedMode := (\<lambda>_. True), stepDir := (\<lambda>_. 8),
       accelTable := (\<lambda>_. overflowTable), currentIVal := (\<lambda>_. 20),
       currentMotorSpeed := (\<lambda>_. 100), stopSpeed := (\<lambda>_. 100),
       timerInterruptEnabled := (\<lambda>_. True), timerClockEnabled := (\<lambda>_. True)\<rparr>"

text \<open>
  Configurations for the rate table: a divisor of 1024, which leaves half a clock per
  period to distribute, a divisor of 100, whose ideal period of 80000 clocks is above
  the 16-bit limit, and a divisor of 120, whose ideal period is above the limit too and
  leaves two thirds of a clock per period to distribute.
\<close>

definition halfClockState :: state where
  "halfClockState = exampleState\<lparr>bVal := (\<lambda>_. 1024)\<rparr>"

definition lowDivisorState :: state where
  "lowDivisorState = exampleState\<lparr>bVal := (\<lambda>_. 100)\<rparr>"

definition wrapDivisorState :: state where
  "wrapDivisorState = exampleState\<lparr>bVal := (\<lambda>_. 120)\<rparr>"

text \<open>
  A goto that is armed twice. The mount gets a goto of two units in normal-speed mode
  (\<^verbatim>\<open>G\<close> with mode 2, \<^verbatim>\<open>H\<close> with distance 2, \<^verbatim>\<open>J\<close>), the run loop starts it, and
  \<^verbatim>\<open>J\<close> is sent once more while it runs. After 301 timer interrupts the goto is
  complete, and the run loop, finding \<open>readyToGo = 1\<close>, starts a goto again. The states
  name the stations of the run: after the second \<^verbatim>\<open>J\<close>, after the rising edge of the
  first pulse, after the first step (the deceleration marker), after the rising edge of
  the second pulse, and after the second step, which completes the goto.
\<close>

definition mode2Packet :: packet where
  "mode2Packet = \<lparr>buffer0 = 0x32, buffer1 = 0x30, hexToLong = 0x20, hexToByte = 0x20\<rparr>"

definition distance2Packet :: packet where
  "distance2Packet = \<lparr>buffer0 = 0x30, buffer1 = 0x32, hexToLong = 2, hexToByte = 2\<rparr>"

definition armTwice :: "event list" where
  "armTwice =
     [Command CHR ''G'' RA mode2Packet, Command CHR ''H'' RA distance2Packet,
      Command CHR ''J'' RA emptyPacket, MainLoopAxis RA, Command CHR ''J'' RA emptyPacket]"

definition stepPeriod :: "event list" where
  "stepPeriod = replicate 99 (TimerCapture RA) @ [TimerCapture RA]"

definition firstGoto :: "event list" where
  "firstGoto = [TimerCapture RA] @ stepPeriod @ stepPeriod @ stepPeriod"

definition doubleJTrace :: "event list" where
  "doubleJTrace = armTwice @ firstGoto @ [MainLoopAxis RA]"

definition armedTwiceState :: state where
  "armedTwiceState = exampleState
     \<lparr>GVal := (\<lambda>_. 1)(RA := 2), dir := (\<lambda>_. CMD_FORWARD)(RA := CMD_FORWARD),
        HVal := (\<lambda>_. 0)(RA := 2), stepDir := (\<lambda>_. 1)(RA := 1),
        highSpeedMode := (\<lambda>_. False)(RA := False),
        modePins := (\<lambda>_ _. False)(RA := (\<lambda>_. False)(0 := True, Suc 0 := True, 2 := False)),
        gotoPosn := (\<lambda>_. 0)(RA := 0x800001), IVal := (\<lambda>_. 1000)(RA := 20),
        gotoDecelerating := (\<lambda>_. False)(RA := False),
        gotoRunning := (\<lambda>_. False)(RA := True),
        currentIVal := (\<lambda>_. 1000)(RA := 20),
        currentMotorSpeed := (\<lambda>_. 1000)(RA := 100),
        stopSpeed := (\<lambda>_. 1000)(RA := 100),
        dirPin := (\<lambda>_. False)(RA := False),
        irqToNextStep := (\<lambda>_. 1)(RA := 1),
        accelTableRepeatsLeft := (\<lambda>_. 0)(RA := 4),
        accelTableIndex := (\<lambda>_. 0)(RA := 0),
        distributionSegment := (\<lambda>_. 0)(RA := 0),
        timerCountRegister := (\<lambda>_. 0)(RA := 0),
        interruptOVFCount := (\<lambda>_. 200)(RA := 200),
        timerClockEnabled := (\<lambda>_. False)(RA := True),
        stopped := (\<lambda>_. True)(RA := False),
        timerInterruptEnabled := (\<lambda>_. False)(RA := True),
        readyToGo := (\<lambda>_. 0)(RA := 1), gotoEn := (\<lambda>_. False)(RA := True)\<rparr>"

definition firstPulseState :: state where
  "firstPulseState = armedTwiceState
     \<lparr>interruptOVFCount := (\<lambda>_. 200)(RA := 200),
        distributionSegment := (\<lambda>_. 0)(RA := 1),
        irqToNextStep := (\<lambda>_. 1)(RA := 100),
        stepPin := (\<lambda>_. False)(RA := True),
        accelTableRepeatsLeft := (\<lambda>_. 0)(RA := 3)\<rparr>"

definition markerState :: state where
  "markerState = firstPulseState
     \<lparr>interruptOVFCount := (\<lambda>_. 200)(RA := 200),
        distributionSegment := (\<lambda>_. 0)(RA := 2),
        irqToNextStep := (\<lambda>_. 1)(RA := 100),
        stepPin := (\<lambda>_. False)(RA := False),
        jVal := (\<lambda>_. 0x800000)(RA := 0x800001),
        gotoDecelerating := (\<lambda>_. False)(RA := True),
        currentIVal := (\<lambda>_. 1000)(RA := 101),
        accelTableRepeatsLeft := (\<lambda>_. 0)(RA := 0)\<rparr>"

definition lastPulseState :: state where
  "lastPulseState = markerState
     \<lparr>interruptOVFCount := (\<lambda>_. 200)(RA := 200),
        distributionSegment := (\<lambda>_. 0)(RA := 3),
        irqToNextStep := (\<lambda>_. 1)(RA := 100),
        stepPin := (\<lambda>_. False)(RA := True),
        currentMotorSpeed := (\<lambda>_. 1000)(RA := 101)\<rparr>"

definition finishedState :: state where
  "finishedState = lastPulseState
     \<lparr>interruptOVFCount := (\<lambda>_. 200)(RA := 200),
        distributionSegment := (\<lambda>_. 0)(RA := 4),
        irqToNextStep := (\<lambda>_. 1)(RA := 101),
        stepPin := (\<lambda>_. False)(RA := False),
        jVal := (\<lambda>_. 0x800000)(RA := 0x800002),
        gotoEn := (\<lambda>_. False)(RA := False),
        gotoRunning := (\<lambda>_. False)(RA := False),
        stopped := (\<lambda>_. True)(RA := True),
        timerInterruptEnabled := (\<lambda>_. False)(RA := False),
        timerClockEnabled := (\<lambda>_. False)(RA := False)\<rparr>"

definition restartedState :: state where
  "restartedState = run 50 doubleJTrace exampleState"

section \<open>Properties\<close>

declare decelLoop.simps [simp del]

declare distribute.simps [simp del]

declare bitLength.simps [simp del]

subsection \<open>Words as numbers\<close>

lemma unat_ucast_8_16: "unat (ucast (r :: 8 word) :: 16 word) = unat r"
proof -
  have u: "uint (ucast r :: 16 word) = uint r" by (simp add: uint_up_ucast is_up)
  show ?thesis using arg_cong [OF u, of nat] by (simp only: nat_uint_eq)
qed

lemma unat_ucast_8_32: "unat (ucast (r :: 8 word) :: 32 word) = unat r"
proof -
  have u: "uint (ucast r :: 32 word) = uint r" by (simp add: uint_up_ucast is_up)
  show ?thesis using arg_cong [OF u, of nat] by (simp only: nat_uint_eq)
qed

lemma unat_ucast_16_32: "unat (ucast (r :: 16 word) :: 32 word) = unat r"
proof -
  have u: "uint (ucast r :: 32 word) = uint r" by (simp add: uint_up_ucast is_up)
  show ?thesis using arg_cong [OF u, of nat] by (simp only: nat_uint_eq)
qed

lemma and_F8_push_drop: "(x :: 32 word) AND 0xFFFFFFF8 = push_bit 3 (drop_bit 3 x)"
proof -
  have eq: "(0xFFFFFFF8 :: 32 word) = NOT (mask 3)"
    by (simp add: mask_eq_exp_minus_1)
  show ?thesis
    unfolding eq by (rule bit_word_eqI) (auto simp: bit_simps)
qed

lemma unat_and_F8: "unat ((x :: 32 word) AND 0xFFFFFFF8) = 8 * (unat x div 8)"
proof -
  have "unat x < 2 ^ 32" using unsigned_less [of x, where 'a = nat] by simp
  then have "8 * (unat x div 8) < 2 ^ 32" by simp
  then show ?thesis
    unfolding and_F8_push_drop
    by (simp add: unat_word_ariths push_bit_eq_mult unat_drop_bit_eq drop_bit_eq_div unat_div)
qed

lemma unat_half: "unat (drop_bit 1 (x :: 32 word)) = unat x div 2"
  by (simp add: unat_drop_bit_eq drop_bit_eq_div unat_div)

subsection \<open>The deceleration loop is a prefix sum\<close>

lemma decelSteps_Cons:
  "decelSteps (e # es) g = (if g < speed e then unat (repeats e) + 1 + decelSteps es g else 0)"
  by (simp add: decelSteps_def)

lemma decelSteps_Nil: "decelSteps [] g = 0"
  by (simp add: decelSteps_def)

lemma decelSteps_le: "decelSteps tbl g \<le> 256 * length tbl"
proof (induction tbl)
  case Nil
  show ?case by (simp add: decelSteps_Nil)
next
  case (Cons e es)
  have "unat (repeats e) < 256" using unsigned_less [of "repeats e", where 'a = nat] by simp
  with Cons show ?case by (simp add: decelSteps_Cons)
qed

lemma decelLoop_unat:
  "i \<le> AccelTableLength \<Longrightarrow> length tbl = AccelTableLength \<Longrightarrow>
   unat (decelLoop tbl g i n) = (unat n + decelSteps (drop i tbl) g) mod 65536"
proof (induction tbl g i n rule: decelLoop.induct)
  case (1 tbl g i n)
  have n_lt: "unat n < 65536" using unsigned_less [of n, where 'a = nat] by simp
  show ?case
  proof (cases "i < AccelTableLength")
    case False
    with 1(2,3) n_lt show ?thesis
      by (subst decelLoop.simps) (simp add: decelSteps_Nil)
  next
    case True
    with 1(3) have dr: "drop i tbl = tbl ! i # drop (Suc i) tbl"
      by (simp add: Cons_nth_drop_Suc)
    show ?thesis
    proof (cases "speed (tbl ! i) \<le> g")
      case True
      then have "\<not> g < speed (tbl ! i)" by (simp add: not_less)
      with True \<open>i < AccelTableLength\<close> n_lt show ?thesis
        by (subst decelLoop.simps) (simp add: dr decelSteps_Cons)
    next
      case False
      have "unat (decelLoop tbl g (i + 1) (n + ucast (repeats (tbl ! i)) + 1)) =
            (unat (n + ucast (repeats (tbl ! i)) + 1) + decelSteps (drop (i + 1) tbl) g) mod 65536"
        using "1.IH" [OF \<open>i < AccelTableLength\<close> False] \<open>i < AccelTableLength\<close> 1(3) by simp
      moreover have "unat (n + ucast (repeats (tbl ! i)) + 1 :: 16 word) =
            (unat n + unat (repeats (tbl ! i)) + 1) mod 65536"
        by (simp add: unat_word_ariths unat_ucast_8_16 mod_simps)
      moreover from False have "g < speed (tbl ! i)" by (simp add: not_le)
      ultimately show ?thesis
        using \<open>i < AccelTableLength\<close> False
        by (subst decelLoop.simps) (simp add: dr decelSteps_Cons mod_simps add_ac)
    qed
  qed
qed

lemma decelLoop_decelSteps:
  assumes "length tbl = AccelTableLength"
  shows "unat (decelLoop tbl g 0 0) = decelSteps tbl g"
proof -
  have "decelSteps tbl g \<le> 256 * 6"
    using decelSteps_le [of tbl g] assms by (simp add: AccelTableLength_def)
  then show ?thesis
    using decelLoop_unat [of 0 tbl g 0] assms by simp
qed

subsection \<open>Goto: the step magnitude and the raised distance\<close>

lemma unat_dirMagnitude: "unat (dirMagnitude a s) = stepMagnitude a s"
proof -
  have "sint (stepDir s a) < 128" "- 128 \<le> sint (stepDir s a)"
    using sint_lt [of "stepDir s a"] sint_ge [of "stepDir s a"] by simp_all
  then have "uint (dirMagnitude a s) = \<bar>sint (stepDir s a)\<bar>"
    unfolding dirMagnitude_def by (simp add: uint_word_of_int)
  then have "nat (uint (dirMagnitude a s)) = nat \<bar>sint (stepDir s a)\<bar>" by simp
  then show ?thesis by (simp only: nat_uint_eq stepMagnitude_def)
qed

lemma dirMagnitude_eq_8: "dirMagnitude a s = 8 \<longleftrightarrow> stepMagnitude a s = 8"
proof -
  have "dirMagnitude a s = 8 \<longleftrightarrow> unat (dirMagnitude a s) = unat (8 :: 8 word)"
    by (simp only: word_unat_eq_iff)
  then show ?thesis by (simp add: unat_dirMagnitude)
qed

lemma unat_twice_dirMagnitude:
  "unat (2 * ucast (dirMagnitude a s) :: 32 word) = 2 * stepMagnitude a s"
proof -
  have "unat (dirMagnitude a s) < 256"
    using unsigned_less [of "dirMagnitude a s", where 'a = nat] by simp
  then show ?thesis
    by (simp add: unat_word_ariths unat_ucast_8_32 unat_dirMagnitude)
qed

lemma dirMagnitude_gotoRaiseHVal [simp]:
  "dirMagnitude a (gotoRaiseHVal a s) = dirMagnitude a s"
  by (simp add: dirMagnitude_def gotoRaiseHVal_def cmd_setHVal_def)

lemma stepMagnitude_gotoRaiseHVal [simp]:
  "stepMagnitude a (gotoRaiseHVal a s) = stepMagnitude a s"
  by (simp add: stepMagnitude_def gotoRaiseHVal_def cmd_setHVal_def)

lemma unat_HVal_gotoRaiseHVal:
  "unat (HVal (gotoRaiseHVal a s) a) = max (unat (HVal s a)) (2 * stepMagnitude a s)"
  using unat_twice_dirMagnitude [of a s]
  by (auto simp: gotoRaiseHVal_def cmd_setHVal_def word_less_nat_alt max_def)

lemma HVal_gotoMode: "HVal (gotoMode a s) = HVal (gotoRaiseHVal a s)"
  by (simp add: gotoMode_def Let_def motorStart_def cmd_setStopped_def timerEnable_def
      setGotoRunning_def clearGotoDecelerating_def cmd_setIVal_def)

lemma gotoRaiseHVal_idem:
  "HVal s a < 2 * ucast (dirMagnitude a s) \<Longrightarrow>
   gotoRaiseHVal a (cmd_setHVal a (2 * ucast (dirMagnitude a s)) s) = gotoRaiseHVal a s"
  by (simp add: gotoRaiseHVal_def dirMagnitude_def cmd_setHVal_def)

subsection \<open>Goto: the deceleration plan\<close>

lemma unat_gotoHalfHVal:
  "unat (gotoHalfHVal a s) = halfDistance (stepMagnitude a s) (unat (HVal s a))"
  by (simp add: gotoHalfHVal_def halfDistance_def dirMagnitude_eq_8 unat_and_F8 unat_half
      del: One_nat_def)

lemma unat_gotoHValMasked:
  "unat (gotoHValMasked a s) = maskedDistance (stepMagnitude a s) (unat (HVal s a))"
  by (simp add: gotoHValMasked_def maskedDistance_def dirMagnitude_eq_8 unat_and_F8)

lemma halfDistance_le_masked: "halfDistance m h \<le> maskedDistance m h"
  by (simp add: halfDistance_def maskedDistance_def) arith

lemma unat_ucast_32_16: "unat (w :: 32 word) < 65536 \<Longrightarrow> unat (ucast w :: 16 word) = unat w"
  by (simp add: unsigned_ucast_eq take_bit_nat_eq_self)

lemma unat_scaled_decel:
  assumes "n * k * m < 65536" and "unat g = n" and "unat d = m" and "k = 1 \<or> k = 3"
  shows "unat ((if k = 3 then g * 3 else g) * ucast (d :: 8 word) :: 16 word) = n * k * m"
  using assms by (auto simp: unat_word_ariths unat_ucast_8_16 mod_simps)
lemma gotoRaiseHVal_fields [simp]:
  "gotoDecelerationLength (gotoRaiseHVal a s) = gotoDecelerationLength s"
  "highSpeedMode (gotoRaiseHVal a s) = highSpeedMode s"
  "normalGotoSpeed (gotoRaiseHVal a s) = normalGotoSpeed s"
  "jVal (gotoRaiseHVal a s) = jVal s"
  "dir (gotoRaiseHVal a s) = dir s"
  by (simp_all add: gotoRaiseHVal_def cmd_setHVal_def)

lemma unat_gotoDecelerationLength:
  assumes "length (accelTable s a) = AccelTableLength"
    and "gotoDecelerationLength (calculateDecelerationLength a s) a = gotoDecelerationLength s a"
  shows "unat (gotoDecelerationLength s a) = decelSteps (accelTable s a) (normalGotoSpeed s a)"
  using assms decelLoop_decelSteps [of "accelTable s a" "normalGotoSpeed s a"]
  by (simp add: calculateDecelerationLength_def)

lemma unat_gotoDecel:
  assumes len: "length (accelTable s a) = AccelTableLength"
    and cur: "gotoDecelerationLength (calculateDecelerationLength a s) a = gotoDecelerationLength s a"
    and nov: "plannedDecel a s < 65536"
  shows "unat (gotoDecel a (gotoRaiseHVal a s)) =
         min (plannedDecel a s)
           (halfDistance (stepMagnitude a s) (max (unat (HVal s a)) (2 * stepMagnitude a s)))"
proof -
  let ?k = "if highSpeedMode s a then 3 else 1 :: nat"
  let ?g = "gotoDecelerationLength s a"
  let ?s1 = "gotoRaiseHVal a s"
  let ?d = "(if highSpeedMode s a then ?g * 3 else ?g) * ucast (dirMagnitude a s) :: 16 word"
  have "unat ((if ?k = 3 then ?g * 3 else ?g) * ucast (dirMagnitude a s) :: 16 word) =
        decelSteps (accelTable s a) (normalGotoSpeed s a) * ?k * stepMagnitude a s"
    by (rule unat_scaled_decel)
       (use nov in \<open>simp_all add: plannedDecel_def unat_gotoDecelerationLength [OF len cur]
          unat_dirMagnitude\<close>)
  then have d: "unat ?d = plannedDecel a s"
    by (simp add: plannedDecel_def split: if_splits)
  have h: "unat (gotoHalfHVal a ?s1) =
      halfDistance (stepMagnitude a s) (max (unat (HVal s a)) (2 * stepMagnitude a s))"
    by (simp add: unat_gotoHalfHVal unat_HVal_gotoRaiseHVal)
  have lt: "gotoHalfHVal a ?s1 < ucast ?d \<longleftrightarrow> unat (gotoHalfHVal a ?s1) < unat ?d"
    by (simp add: word_less_nat_alt unat_ucast_16_32)
  have gd: "gotoDecel a ?s1 = (if gotoHalfHVal a ?s1 < ucast ?d then ucast (gotoHalfHVal a ?s1) else ?d)"
    by (simp add: gotoDecel_def Let_def)
  show ?thesis
  proof (cases "unat (gotoHalfHVal a ?s1) < unat ?d")
    case True
    with nov d have "unat (gotoHalfHVal a ?s1) < 65536" by simp
    then have "unat (ucast (gotoHalfHVal a ?s1) :: 16 word) = unat (gotoHalfHVal a ?s1)"
      by (rule unat_ucast_32_16)
    with True lt gd show ?thesis
      using d h by (simp add: min_def)
  next
    case False
    with lt gd show ?thesis
      using d h by (simp add: min_def)
  qed
qed
lemma ucast_16_32_16 [simp]: "(ucast (ucast (g :: 16 word) :: 32 word) :: 16 word) = g"
proof -
  have "unat g < 65536" using unsigned_less [of g, where 'a = nat] by simp
  then have "unat (ucast (ucast g :: 32 word) :: 16 word) = unat g"
    by (simp add: unat_ucast_32_16 unat_ucast_16_32)
  then show ?thesis by (simp only: word_unat_eq_iff)
qed

lemma word_diff_of_nat:
  "unat (y :: 32 word) \<le> unat x \<Longrightarrow> x - y = of_nat (unat x - unat y)"
  by (simp add: of_nat_diff)

lemma gotoPosn_gotoMode:
  "gotoPosn (gotoMode a s) a =
     jVal s a + (if dir s a = CMD_REVERSE
                 then - (gotoHValMasked a (gotoRaiseHVal a s) - ucast (gotoDecel a (gotoRaiseHVal a s)))
                 else gotoHValMasked a (gotoRaiseHVal a s) - ucast (gotoDecel a (gotoRaiseHVal a s)))"
  by (simp add: gotoMode_def Let_def motorStart_def cmd_setStopped_def timerEnable_def
      setGotoRunning_def clearGotoDecelerating_def cmd_setIVal_def)

lemma gotoMode_flags:
  "currentIVal (gotoMode a s) a = normalGotoSpeed s a"
  "\<not> gotoDecelerating (gotoMode a s) a"
  "gotoRunning (gotoMode a s) a"
  by (simp_all add: gotoMode_def Let_def motorStart_def cmd_setStopped_def timerEnable_def
      setGotoRunning_def clearGotoDecelerating_def cmd_setIVal_def)

lemma exampleTable_decelSteps: "decelSteps exampleTable 20 = 10"
  by (simp add: decelSteps_def exampleTable_def)

lemma exampleTable_length: "length exampleTable = AccelTableLength"
  by (simp add: exampleTable_def AccelTableLength_def)

lemma exampleTable_decelLoop: "decelLoop exampleTable 20 0 0 = 10"
proof -
  have "unat (decelLoop exampleTable 20 0 0) = unat (10 :: 16 word)"
    using decelLoop_decelSteps [OF exampleTable_length, of 20]
    by (simp add: exampleTable_decelSteps)
  then show ?thesis by (simp only: word_unat_eq_iff)
qed

lemma highSpeedGoto_facts:
  "stepMagnitude RA highSpeedGotoState = 8"
  "plannedDecel RA highSpeedGotoState = 240"
  "unat (HVal highSpeedGotoState RA) = 137"
  "jVal highSpeedGotoState RA = 0x800000"
  "dir highSpeedGotoState RA = CMD_FORWARD"
  "normalGotoSpeed highSpeedGotoState RA = 20"
  by (simp_all add: stepMagnitude_def plannedDecel_def highSpeedGotoState_def exampleState_def
      exampleTable_decelSteps)

lemma decelSteps_filter:
  "sorted_wrt (\<lambda>x y. speed y \<le> speed x) tbl \<Longrightarrow>
   decelSteps tbl g = sum_list (map (\<lambda>e. unat (repeats e) + 1) (filter (\<lambda>e. g < speed e) tbl))"
proof (induction tbl)
  case Nil
  show ?case by (simp add: decelSteps_Nil)
next
  case (Cons e es)
  show ?case
  proof (cases "g < speed e")
    case True
    with Cons show ?thesis by (simp add: decelSteps_Cons)
  next
    case False
    with Cons.prems have "\<forall>x\<in>set es. \<not> g < speed x" by auto
    then have "filter (\<lambda>e. g < speed e) es = []" by (simp add: filter_empty_conv)
    with False show ?thesis by (simp add: decelSteps_Cons)
  qed
qed

text \<open>
  Claim C1, as the code has it. With the cached deceleration length current (it is
  the one \<open>calculateDecelerationLength\<close> computes from the present table and goto
  speed) and the planned length \<open>plannedDecel\<close> within 16 bits, a goto ends with the
  local deceleration length equal to the planned length (the sum of \<open>repeats + 1\<close> over
  the leading table entries whose speed is above \<open>normalGotoSpeed\<close>, times 3 in
  high-speed mode, times \<open>|stepDir|\<close>) clamped to half of \<open>HVal\<close>, where the half
  has its low three bits cleared when \<open>|stepDir| = 8\<close>; the marker \<open>gotoPosn\<close> is
  \<open>jVal\<close> plus or minus (by \<open>dir\<close>) the distance \<open>HVal\<close>, low three bits cleared
  when \<open>|stepDir| = 8\<close>, less that length; the target speed is \<open>normalGotoSpeed\<close>,
  \<open>gotoDecelerating\<close> is clear and \<open>gotoRunning\<close> is set. \<open>HVal\<close> is the distance
  after the raise to \<open>2 * |stepDir|\<close>. For a table of decreasing speeds
  \<open>decelSteps_filter\<close> makes the leading entries all the entries above the goto speed.
\<close>

theorem gotoMode_plan:
  assumes len: "length (accelTable s a) = AccelTableLength"
    and cur: "gotoDecelerationLength (calculateDecelerationLength a s) a = gotoDecelerationLength s a"
    and nov: "plannedDecel a s < 65536"
  shows "let m = stepMagnitude a s;
             h = max (unat (HVal s a)) (2 * m);
             d = min (plannedDecel a s) (halfDistance m h)
         in unat (gotoDecel a (gotoRaiseHVal a s)) = d \<and> d \<le> maskedDistance m h \<and>
            gotoPosn (gotoMode a s) a =
              (if dir s a = CMD_REVERSE then jVal s a - of_nat (maskedDistance m h - d)
               else jVal s a + of_nat (maskedDistance m h - d)) \<and>
            currentIVal (gotoMode a s) a = normalGotoSpeed s a \<and>
            \<not> gotoDecelerating (gotoMode a s) a \<and> gotoRunning (gotoMode a s) a"
proof -
  let ?m = "stepMagnitude a s"
  let ?h = "max (unat (HVal s a)) (2 * ?m)"
  let ?d = "min (plannedDecel a s) (halfDistance ?m ?h)"
  let ?s1 = "gotoRaiseHVal a s"
  have d: "unat (gotoDecel a ?s1) = ?d"
    by (rule unat_gotoDecel [OF len cur nov])
  have le: "?d \<le> maskedDistance ?m ?h"
    using halfDistance_le_masked [of ?m ?h] by simp
  have md: "unat (gotoHValMasked a ?s1) = maskedDistance ?m ?h"
    by (simp add: unat_gotoHValMasked unat_HVal_gotoRaiseHVal)
  have "unat (ucast (gotoDecel a ?s1) :: 32 word) \<le> unat (gotoHValMasked a ?s1)"
    using le by (simp only: unat_ucast_16_32 d md)
  then have "gotoHValMasked a ?s1 - ucast (gotoDecel a ?s1) =
             of_nat (unat (gotoHValMasked a ?s1) - unat (ucast (gotoDecel a ?s1) :: 32 word))"
    by (rule word_diff_of_nat)
  then have diff: "gotoHValMasked a ?s1 - ucast (gotoDecel a ?s1) = of_nat (maskedDistance ?m ?h - ?d)"
    by (simp only: unat_ucast_16_32 d md)
  have posn: "gotoPosn (gotoMode a s) a =
      (if dir s a = CMD_REVERSE then jVal s a - of_nat (maskedDistance ?m ?h - ?d)
       else jVal s a + of_nat (maskedDistance ?m ?h - ?d))"
    unfolding gotoPosn_gotoMode diff by simp
  show ?thesis
    unfolding Let_def using d le posn gotoMode_flags [of a s] by blast
qed

theorem gotoMode_plan_witness:
  "length (accelTable highSpeedGotoState RA) = AccelTableLength \<and>
   gotoDecelerationLength (calculateDecelerationLength RA highSpeedGotoState) RA =
     gotoDecelerationLength highSpeedGotoState RA \<and>
   plannedDecel RA highSpeedGotoState < 65536 \<and>
   unat (gotoDecel RA (gotoRaiseHVal RA highSpeedGotoState)) = 64 \<and>
   gotoPosn (gotoMode RA highSpeedGotoState) RA = 0x800048 \<and>
   currentIVal (gotoMode RA highSpeedGotoState) RA = 20 \<and>
   \<not> gotoDecelerating (gotoMode RA highSpeedGotoState) RA \<and>
   gotoRunning (gotoMode RA highSpeedGotoState) RA"
proof -
  have len: "length (accelTable highSpeedGotoState RA) = AccelTableLength"
    by (simp add: highSpeedGotoState_def exampleState_def exampleTable_length)
  have cur: "gotoDecelerationLength (calculateDecelerationLength RA highSpeedGotoState) RA =
      gotoDecelerationLength highSpeedGotoState RA"
    by (simp add: calculateDecelerationLength_def highSpeedGotoState_def exampleState_def
        exampleTable_decelLoop)
  have nov: "plannedDecel RA highSpeedGotoState < 65536"
    by (simp add: highSpeedGoto_facts)
  show ?thesis
    using gotoMode_plan [OF len cur nov] len cur nov
    by (simp add: Let_def highSpeedGoto_facts halfDistance_def maskedDistance_def)
qed

text \<open>
  The claim's clamp is \<open>HVal / 2\<close>. In high-speed mode with \<open>HVal = 0x89\<close> and a
  planned length of 240 that is 68, and the marker would be \<open>jVal + 68\<close>; the code
  clamps to 64 and sets the marker to \<open>jVal + 72\<close>.
\<close>

theorem gotoMode_clamp_counterexample:
  "unat (gotoDecel RA (gotoRaiseHVal RA highSpeedGotoState)) \<noteq>
     min (plannedDecel RA highSpeedGotoState)
       (maskedDistance (stepMagnitude RA highSpeedGotoState)
          (unat (HVal highSpeedGotoState RA)) div 2) \<and>
   gotoPosn (gotoMode RA highSpeedGotoState) RA \<noteq>
     jVal highSpeedGotoState RA +
       of_nat (maskedDistance (stepMagnitude RA highSpeedGotoState)
                 (unat (HVal highSpeedGotoState RA)) -
               min (plannedDecel RA highSpeedGotoState)
                 (maskedDistance (stepMagnitude RA highSpeedGotoState)
                    (unat (HVal highSpeedGotoState RA)) div 2))"
proof -
  have d: "gotoDecel RA (gotoRaiseHVal RA highSpeedGotoState) = 64"
    by (simp add: gotoDecel_def gotoRaiseHVal_def gotoHalfHVal_def dirMagnitude_def
        highSpeedGotoState_def exampleState_def Let_def)
  have p: "gotoPosn (gotoMode RA highSpeedGotoState) RA = 0x800048"
    unfolding gotoPosn_gotoMode d
    by (simp add: gotoRaiseHVal_def gotoHValMasked_def dirMagnitude_def
        highSpeedGotoState_def exampleState_def)
  show ?thesis
    unfolding d p by (simp add: highSpeedGoto_facts maskedDistance_def)
qed

subsection \<open>Goto: a short distance is raised\<close>

lemma unat_gotoDecel_le: "unat (gotoDecel a s) \<le> unat (gotoHalfHVal a s)"
proof -
  let ?g = "gotoDecelerationLength s a"
  let ?d = "(if highSpeedMode s a then ?g * 3 else ?g) * ucast (dirMagnitude a s) :: 16 word"
  have gd: "gotoDecel a s = (if gotoHalfHVal a s < ucast ?d then ucast (gotoHalfHVal a s) else ?d)"
    by (simp add: gotoDecel_def Let_def)
  have lt: "gotoHalfHVal a s < ucast ?d \<longleftrightarrow> unat (gotoHalfHVal a s) < unat ?d"
    by (simp add: word_less_nat_alt unat_ucast_16_32)
  show ?thesis
  proof (cases "unat (gotoHalfHVal a s) < unat ?d")
    case True
    moreover have "unat ?d < 65536" using unsigned_less [of ?d, where 'a = nat] by simp
    ultimately have "unat (gotoHalfHVal a s) < 65536" by simp
    then have "unat (ucast (gotoHalfHVal a s) :: 16 word) = unat (gotoHalfHVal a s)"
      by (rule unat_ucast_32_16)
    with True lt gd show ?thesis by simp
  next
    case False
    with lt gd show ?thesis by simp
  qed
qed

lemma gotoMode_started: "\<not> stopped (gotoMode a s) a"
  by (simp add: gotoMode_def Let_def motorStart_def cmd_setStopped_def timerEnable_def
      setGotoRunning_def clearGotoDecelerating_def cmd_setIVal_def)

lemma maskedDistance_twice: "maskedDistance m (2 * m) = 2 * m"
  by (simp add: maskedDistance_def)

lemma halfDistance_twice: "halfDistance m (2 * m) = m"
  by (simp add: halfDistance_def)

lemma maskedDistance_raised: "2 * m \<le> maskedDistance m (max h (2 * m))"
  by (simp add: maskedDistance_def max_def) arith

text \<open>
  Claim C9. Every goto plans for the distance \<open>max HVal (2 * |stepDir|)\<close>: that is the
  \<open>HVal\<close> it leaves behind, the deceleration length is at most half of it, the marker
  \<open>gotoPosn\<close> is \<open>jVal\<close> plus or minus (by \<open>dir\<close>) that distance (low three bits cleared
  for a step of 8, still at least \<open>2 * |stepDir|\<close>) less the deceleration length, and the
  axis is started towards \<open>normalGotoSpeed\<close> with \<open>gotoRunning\<close> set. A goto whose
  \<open>HVal\<close> is below \<open>2 * |stepDir|\<close> therefore stores exactly \<open>2 * |stepDir|\<close>, plans a
  move of that many units with at most \<open>|stepDir|\<close> of them for the deceleration, and is the
  goto of a request for \<open>2 * |stepDir|\<close>.
\<close>

theorem gotoMode_raises_short_HVal:
  "let m = stepMagnitude a s;
       h = max (unat (HVal s a)) (2 * m);
       d = unat (gotoDecel a (gotoRaiseHVal a s))
   in unat (HVal (gotoMode a s) a) = h \<and> 2 * m \<le> maskedDistance m h \<and>
      d \<le> halfDistance m h \<and>
      gotoPosn (gotoMode a s) a =
        (if dir s a = CMD_REVERSE then jVal s a - of_nat (maskedDistance m h - d)
         else jVal s a + of_nat (maskedDistance m h - d)) \<and>
      currentIVal (gotoMode a s) a = normalGotoSpeed s a \<and>
      \<not> gotoDecelerating (gotoMode a s) a \<and> gotoRunning (gotoMode a s) a \<and>
      \<not> stopped (gotoMode a s) a \<and>
      (unat (HVal s a) < 2 * m \<longrightarrow>
         h = 2 * m \<and> maskedDistance m h = 2 * m \<and> halfDistance m h = m \<and>
         gotoMode a s = gotoMode a (cmd_setHVal a (2 * ucast (dirMagnitude a s)) s))"
proof -
  let ?m = "stepMagnitude a s"
  let ?h = "max (unat (HVal s a)) (2 * ?m)"
  let ?s1 = "gotoRaiseHVal a s"
  let ?d = "unat (gotoDecel a ?s1)"
  have hv: "unat (HVal (gotoMode a s) a) = ?h"
    by (simp add: HVal_gotoMode unat_HVal_gotoRaiseHVal)
  have ms: "2 * ?m \<le> maskedDistance ?m ?h" by (rule maskedDistance_raised)
  have hd: "unat (gotoHalfHVal a ?s1) = halfDistance ?m ?h"
    by (simp add: unat_gotoHalfHVal unat_HVal_gotoRaiseHVal)
  have d: "?d \<le> halfDistance ?m ?h"
    using unat_gotoDecel_le [of a ?s1] by (simp only: hd)
  have le: "?d \<le> maskedDistance ?m ?h"
    using d halfDistance_le_masked [of ?m ?h] by simp
  have md: "unat (gotoHValMasked a ?s1) = maskedDistance ?m ?h"
    by (simp add: unat_gotoHValMasked unat_HVal_gotoRaiseHVal)
  have "unat (ucast (gotoDecel a ?s1) :: 32 word) \<le> unat (gotoHValMasked a ?s1)"
    using le by (simp only: unat_ucast_16_32 md)
  then have "gotoHValMasked a ?s1 - ucast (gotoDecel a ?s1) =
             of_nat (unat (gotoHValMasked a ?s1) - unat (ucast (gotoDecel a ?s1) :: 32 word))"
    by (rule word_diff_of_nat)
  then have diff: "gotoHValMasked a ?s1 - ucast (gotoDecel a ?s1) = of_nat (maskedDistance ?m ?h - ?d)"
    by (simp only: unat_ucast_16_32 md)
  have posn: "gotoPosn (gotoMode a s) a =
      (if dir s a = CMD_REVERSE then jVal s a - of_nat (maskedDistance ?m ?h - ?d)
       else jVal s a + of_nat (maskedDistance ?m ?h - ?d))"
    unfolding gotoPosn_gotoMode diff by simp
  have short: "?h = 2 * ?m \<and> maskedDistance ?m ?h = 2 * ?m \<and> halfDistance ?m ?h = ?m \<and>
      gotoMode a s = gotoMode a (cmd_setHVal a (2 * ucast (dirMagnitude a s)) s)"
    if lt: "unat (HVal s a) < 2 * ?m"
  proof -
    from lt have h: "?h = 2 * ?m" by simp
    from lt have "HVal s a < 2 * ucast (dirMagnitude a s)"
      by (simp add: word_less_nat_alt unat_twice_dirMagnitude)
    then have "gotoMode a s = gotoMode a (cmd_setHVal a (2 * ucast (dirMagnitude a s)) s)"
      by (simp add: gotoMode_def gotoRaiseHVal_idem)
    then show ?thesis
      unfolding h by (simp only: maskedDistance_twice halfDistance_twice)
  qed
  show ?thesis
    unfolding Let_def
    using hv ms d posn gotoMode_flags [of a s] gotoMode_started [of a s] short by blast
qed

theorem gotoMode_raises_short_HVal_witness:
  "unat (HVal shortGotoState DC) < 2 * stepMagnitude DC shortGotoState \<and>
   unat (HVal (gotoMode DC shortGotoState) DC) = 16 \<and>
   unat (gotoDecel DC (gotoRaiseHVal DC shortGotoState)) = 8 \<and>
   gotoPosn (gotoMode DC shortGotoState) DC = 0x800008 \<and>
   currentIVal (gotoMode DC shortGotoState) DC = 20 \<and>
   \<not> gotoDecelerating (gotoMode DC shortGotoState) DC \<and>
   gotoRunning (gotoMode DC shortGotoState) DC \<and>
   \<not> stopped (gotoMode DC shortGotoState) DC \<and>
   gotoMode DC shortGotoState = gotoMode DC (cmd_setHVal DC 16 shortGotoState)"
proof -
  have m: "stepMagnitude DC shortGotoState = 8"
    by (simp add: stepMagnitude_def shortGotoState_def exampleState_def)
  have dm: "dirMagnitude DC shortGotoState = 8"
    by (simp add: dirMagnitude_eq_8 m)
  have hv: "unat (HVal shortGotoState DC) = 1"
    by (simp add: shortGotoState_def exampleState_def)
  have h: "unat (HVal shortGotoState DC) < 2 * stepMagnitude DC shortGotoState"
    by (simp add: m hv)
  have f: "dir shortGotoState DC = CMD_FORWARD" "jVal shortGotoState DC = 0x800000"
    "normalGotoSpeed shortGotoState DC = 20"
    by (simp_all add: shortGotoState_def exampleState_def)
  have d: "gotoDecel DC (gotoRaiseHVal DC shortGotoState) = 8"
    by (simp add: gotoDecel_def gotoRaiseHVal_def gotoHalfHVal_def dirMagnitude_def
        shortGotoState_def exampleState_def Let_def cmd_setHVal_def)
  have C: "(2 * ucast (8 :: 8 word) :: 32 word) = 16" by simp
  note t = gotoMode_raises_short_HVal [of DC shortGotoState, unfolded Let_def m dm hv d f C]
  have mh: "maskedDistance 8 16 = 16" by (simp add: maskedDistance_def)
  from t have A: "unat (HVal (gotoMode DC shortGotoState) DC) = max 1 (2 * 8)" by blast
  from t have B: "gotoPosn (gotoMode DC shortGotoState) DC =
      (if CMD_FORWARD = CMD_REVERSE then 0x800000 - of_nat (maskedDistance 8 (max 1 (2 * 8)) - unat (8 :: 16 word))
       else 0x800000 + of_nat (maskedDistance 8 (max 1 (2 * 8)) - unat (8 :: 16 word)))" by blast
  from t have F: "currentIVal (gotoMode DC shortGotoState) DC = 20"
    "\<not> gotoDecelerating (gotoMode DC shortGotoState) DC" "gotoRunning (gotoMode DC shortGotoState) DC"
    "\<not> stopped (gotoMode DC shortGotoState) DC" by blast+
  from t have "1 < 2 * (8 :: nat) \<longrightarrow>
      gotoMode DC shortGotoState = gotoMode DC (cmd_setHVal DC 16 shortGotoState)" by blast
  then have E: "gotoMode DC shortGotoState = gotoMode DC (cmd_setHVal DC 16 shortGotoState)" by simp
  show ?thesis
  proof (intro conjI)
    show "unat (HVal shortGotoState DC) < 2 * stepMagnitude DC shortGotoState" by (rule h)
    show "unat (HVal (gotoMode DC shortGotoState) DC) = 16" using A by simp
    show "unat (gotoDecel DC (gotoRaiseHVal DC shortGotoState)) = 8" by (simp add: d)
    show "gotoPosn (gotoMode DC shortGotoState) DC = 0x800008" using B by (simp add: mh)
    show "gotoMode DC shortGotoState = gotoMode DC (cmd_setHVal DC 16 shortGotoState)" by (rule E)
  qed (rule F)+
qed

subsection \<open>Command decoder: the target period\<close>

lemma decodeCommand_I:
  "decodeCommand m CHR ''I'' a p s =
     (let v = (if hexToLong p < ucast (speed (accelTable s a ! (AccelTableLength - 1)))
               then ucast (speed (accelTable s a ! (AccelTableLength - 1))) else hexToLong p);
          s1 = cmd_setIVal a v s
      in \<lparr>newState = (if readyToGo s a = 2 then motorStart a s1
                       else s1\<lparr>readyToGo := (readyToGo s)(a := 0)\<rparr>),
          errorResponse = False, returned = True\<rparr>)"
  by (simp add: decodeCommand_def decodeSwitch_def Let_def cmd_setIVal_def)

lemma max_word_unat: "unat (max (x :: 32 word) y) = max (unat x) (unat y)"
  by (simp add: max_def word_le_nat_alt)

lemma motorStart_frame:
  "IVal (motorStart a s) = IVal s"
  "stepDir (motorStart a s) = stepDir s"
  "dir (motorStart a s) = dir s"
  "highSpeedMode (motorStart a s) = highSpeedMode s"
  "modePins (motorStart a s) = modePins s"
  "readyToGo (motorStart a s) = readyToGo s"
  "GVal (motorStart a s) = GVal s"
  "HVal (motorStart a s) = HVal s"
  "jVal (motorStart a s) = jVal s"
  "gotoEn (motorStart a s) = gotoEn s"
  "gotoRunning (motorStart a s) = gotoRunning s"
  "gotoDecelerating (motorStart a s) = gotoDecelerating s"
  "gotoPosn (motorStart a s) = gotoPosn s"
  "accelTable (motorStart a s) = accelTable s"
  "currentIVal (motorStart a s) = (currentIVal s)(a := IVal s a)"
  "stopped (motorStart a s) = (stopped s)(a := False)"
  "timerInterruptEnabled (motorStart a s) = (timerInterruptEnabled s)(a := True)"
  by (auto simp: motorStart_def Let_def cmd_setStopped_def timerEnable_def fun_eq_iff)

text \<open>
  Claim C6, as the code has it. An \<^verbatim>\<open>I\<close> command stores as target period the
  decoded payload raised to the speed of the last table entry,
  \<open>accelTable[AccelTableLength - 1]\<close>, when it is below it (as a number, for a payload
  that fits the 16 bits of a period). With \<open>readyToGo = 2\<close> the result is that of
  \<open>motorStart\<close> on the new period: the step engine's target is the new period at once,
  \<open>readyToGo\<close> stays 2 and step delta, direction, speed mode and mode pins are
  untouched. Otherwise \<open>readyToGo\<close> becomes 0 and neither the engine's target nor its
  current speed changes.
\<close>

theorem decodeCommand_I_target:
  "(let s' = newState (decodeCommand m CHR ''I'' a p s);
        fastest = speed (accelTable s a ! (AccelTableLength - 1))
    in IVal s' a = ucast (max (hexToLong p) (ucast fastest)) \<and>
       (unat (hexToLong p) < 65536 \<longrightarrow>
          unat (IVal s' a) = max (unat (hexToLong p)) (unat fastest)) \<and>
       (readyToGo s a = 2 \<longrightarrow>
          s' = motorStart a (cmd_setIVal a (max (hexToLong p) (ucast fastest)) s) \<and>
          currentIVal s' a = IVal s' a \<and> readyToGo s' a = 2 \<and>
          stepDir s' = stepDir s \<and> dir s' = dir s \<and>
          highSpeedMode s' = highSpeedMode s \<and> modePins s' = modePins s) \<and>
       (readyToGo s a \<noteq> 2 \<longrightarrow>
          s' = (cmd_setIVal a (max (hexToLong p) (ucast fastest)) s)
                 \<lparr>readyToGo := (readyToGo s)(a := 0)\<rparr> \<and>
          readyToGo s' a = 0 \<and> currentIVal s' = currentIVal s \<and>
          currentMotorSpeed s' = currentMotorSpeed s))"
proof -
  let ?f = "speed (accelTable s a ! (AccelTableLength - 1))"
  let ?v = "max (hexToLong p) (ucast ?f)"
  have v: "(if hexToLong p < ucast ?f then ucast ?f else hexToLong p) = ?v"
    by (auto simp: max_def)
  have st: "newState (decodeCommand m CHR ''I'' a p s) =
      (if readyToGo s a = 2 then motorStart a (cmd_setIVal a ?v s)
       else (cmd_setIVal a ?v s)\<lparr>readyToGo := (readyToGo s)(a := 0)\<rparr>)"
    by (simp add: decodeCommand_I Let_def v)
  have f: "unat ?f < 65536" using unsigned_less [of ?f, where 'a = nat] by simp
  have n: "unat (hexToLong p) < 65536 \<Longrightarrow> unat (ucast ?v :: 16 word) = max (unat (hexToLong p)) (unat ?f)"
    using f by (simp add: unat_ucast_32_16 max_word_unat unat_ucast_16_32)
  show ?thesis
    unfolding Let_def st using n
    by (auto simp: motorStart_frame cmd_setIVal_def)
qed

lemma exampleTable_entries:
  "speed (exampleTable ! 0) = 100" "speed (exampleTable ! (AccelTableLength - 1)) = 2"
  "speed (exampleTable ! (AccelTableLength - Suc 0)) = 2"
  by (simp_all add: exampleTable_def AccelTableLength_def)

theorem decodeCommand_I_target_witness:
  "unat (hexToLong period30Packet) < 65536 \<and> readyToGo slewingState RA = 2 \<and>
   readyToGo exampleState RA \<noteq> 2 \<and>
   unat (IVal (newState (decodeCommand 50 CHR ''I'' RA period30Packet slewingState)) RA) = 30 \<and>
   currentIVal (newState (decodeCommand 50 CHR ''I'' RA period30Packet slewingState)) RA = 30 \<and>
   readyToGo (newState (decodeCommand 50 CHR ''I'' RA period30Packet slewingState)) RA = 2 \<and>
   unat (IVal (newState (decodeCommand 50 CHR ''I'' RA period30Packet exampleState)) RA) = 30 \<and>
   currentIVal (newState (decodeCommand 50 CHR ''I'' RA period30Packet exampleState)) RA = 1000 \<and>
   readyToGo (newState (decodeCommand 50 CHR ''I'' RA period30Packet exampleState)) RA = 0"
proof -
  have p: "unat (hexToLong period30Packet) < 65536" "unat (hexToLong period30Packet) = 30"
    by (simp_all add: period30Packet_def)
  have r2: "readyToGo slewingState RA = 2" by (simp add: slewingState_def)
  have r0: "readyToGo exampleState RA \<noteq> 2" by (simp add: exampleState_def)
  have t1: "accelTable slewingState RA = exampleTable"
    by (simp add: slewingState_def motorStart_frame exampleState_def)
  have t0: "accelTable exampleState RA = exampleTable" "currentIVal exampleState RA = 1000"
    by (simp_all add: exampleState_def)
  note A = decodeCommand_I_target [of 50 RA period30Packet slewingState, unfolded Let_def]
  note B = decodeCommand_I_target [of 50 RA period30Packet exampleState, unfolded Let_def]
  from A p(1) have
    "unat (IVal (newState (decodeCommand 50 CHR ''I'' RA period30Packet slewingState)) RA) =
     max (unat (hexToLong period30Packet))
       (unat (speed (accelTable slewingState RA ! (AccelTableLength - 1))))"
    by blast
  then have A1:
    "unat (IVal (newState (decodeCommand 50 CHR ''I'' RA period30Packet slewingState)) RA) = 30"
    by (simp add: t1 exampleTable_entries p(2))
  from A r2 have A2:
    "currentIVal (newState (decodeCommand 50 CHR ''I'' RA period30Packet slewingState)) RA =
     IVal (newState (decodeCommand 50 CHR ''I'' RA period30Packet slewingState)) RA"
    "readyToGo (newState (decodeCommand 50 CHR ''I'' RA period30Packet slewingState)) RA = 2"
    by blast+
  from A1 have A3:
    "IVal (newState (decodeCommand 50 CHR ''I'' RA period30Packet slewingState)) RA = 30"
    by (simp add: word_unat_eq_iff)
  from B p(1) have
    "unat (IVal (newState (decodeCommand 50 CHR ''I'' RA period30Packet exampleState)) RA) =
     max (unat (hexToLong period30Packet))
       (unat (speed (accelTable exampleState RA ! (AccelTableLength - 1))))"
    by blast
  then have B1:
    "unat (IVal (newState (decodeCommand 50 CHR ''I'' RA period30Packet exampleState)) RA) = 30"
    by (simp add: t0 exampleTable_entries p(2))
  from B r0 have B2:
    "currentIVal (newState (decodeCommand 50 CHR ''I'' RA period30Packet exampleState)) =
     currentIVal exampleState"
    "readyToGo (newState (decodeCommand 50 CHR ''I'' RA period30Packet exampleState)) RA = 0"
    by blast+
  show ?thesis
    using p(1) r2 r0 A1 A2(2) B1 B2(2) by (simp add: A2(1) A3 B2(1) t0)
qed

text \<open>
  The claim clamps at the slowest table entry. Entry 0 is the slowest of the example
  table (period 100), and the period stored for a payload of 30 is below it.
\<close>

theorem decodeCommand_I_slowest_counterexample:
  "IVal (newState (decodeCommand 50 CHR ''I'' RA period30Packet exampleState)) RA
     < speed (accelTable exampleState RA ! 0)"
  by (simp add: decodeCommand_I Let_def cmd_setIVal_def period30Packet_def exampleState_def
      exampleTable_def AccelTableLength_def)

subsection \<open>Command decoder: the table index\<close>

lemma decodeCommand_Y:
  "newState (decodeCommand m CHR ''Y'' a p s) =
     s\<lparr>accelTableIndex := (accelTableIndex s)(a := hexToByte p)\<rparr> \<and>
   errorResponse (decodeCommand m CHR ''Y'' a p s) = (unat (hexToByte p) \<ge> AccelTableLength)"
  by (simp add: decodeCommand_def decodeSwitch_def Let_def)

text \<open>
  Claim C8 at a \<^verbatim>\<open>Y\<close> command for index 255: the response is an error packet, and
  the index of the axis, 0 before the command, is 255 after it.
\<close>

theorem decodeCommand_Y_out_of_range:
  "accelTableIndex exampleState RA = 0 \<and>
   unat (hexToByte badIndexPacket) \<ge> AccelTableLength \<and>
   errorResponse (decodeCommand m CHR ''Y'' RA badIndexPacket exampleState) \<and>
   accelTableIndex (newState (decodeCommand m CHR ''Y'' RA badIndexPacket exampleState)) RA = 0xFF"
  by (simp add: decodeCommand_def decodeSwitch_def badIndexPacket_def exampleState_def
      AccelTableLength_def Let_def)

subsection \<open>Main loop: starting a movement\<close>

lemma gotoMode_frame:
  "stepDir (gotoMode a s) = stepDir s"
  "highSpeedMode (gotoMode a s) = highSpeedMode s"
  "readyToGo (gotoMode a s) = readyToGo s"
  "stopped (gotoMode a s) = (stopped s)(a := False)"
  by (simp_all add: gotoMode_def Let_def motorStart_frame setGotoRunning_def
      clearGotoDecelerating_def cmd_setIVal_def gotoRaiseHVal_def cmd_setHVal_def)

lemma stepMagnitude_cong: "stepDir s' a = stepDir s a \<Longrightarrow> stepMagnitude a s' = stepMagnitude a s"
  by (simp add: stepMagnitude_def)

lemma selectSpeedMode_normal:
  "GVal s a = 1 \<or> GVal s a = 2 \<or> \<not> canJumpToHighspeed s \<Longrightarrow>
   stepMagnitude a (selectSpeedMode a s) = 1 \<and> \<not> highSpeedMode (selectSpeedMode a s) a"
  by (auto simp: selectSpeedMode_def Let_def setModePins_def cmd_updateStepDir_def
      stepMagnitude_def)

lemma selectSpeedMode_fast:
  "GVal s a \<noteq> 1 \<Longrightarrow> GVal s a \<noteq> 2 \<Longrightarrow> canJumpToHighspeed s \<Longrightarrow>
   stepDir (selectSpeedMode a s) a = (if dir s a = CMD_REVERSE then - gVal s a else gVal s a) \<and>
   highSpeedMode (selectSpeedMode a s) a"
  by (auto simp: selectSpeedMode_def Let_def setModePins_def cmd_updateStepDir_def)

text \<open>
  Claim C4, as the code has it. When \<open>readyToGo = 1\<close> and the axis is stopped, the run
  loop selects the speed mode and then, for an odd \<open>GVal\<close>, starts a slew and sets
  \<open>readyToGo\<close> to 2, and for an even \<open>GVal\<close> starts a goto and sets \<open>readyToGo\<close>
  to 0; the axis is running afterwards. \<open>GVal = 1\<close> and \<open>GVal = 2\<close> select normal-speed
  mode (step magnitude 1, \<open>highSpeedMode\<close> false), and so does every value when the
  configuration does not allow high speed; every other value, 0 included, selects
  high-speed mode with a step of \<open>gVal\<close> when the configuration allows it. When
  \<open>readyToGo\<close> is not 1 or the axis is not stopped, nothing changes.
\<close>

theorem mainLoopAxis_dispatch:
  "(readyToGo s a = 1 \<and> stopped s a \<longrightarrow>
      (bit (GVal s a) 0 \<longrightarrow>
         mainLoopAxis a s =
           (slewMode a (selectSpeedMode a s))\<lparr>readyToGo := (readyToGo s)(a := 2)\<rparr> \<and>
         readyToGo (mainLoopAxis a s) a = 2) \<and>
      (\<not> bit (GVal s a) 0 \<longrightarrow>
         mainLoopAxis a s =
           (gotoMode a (selectSpeedMode a s))\<lparr>readyToGo := (readyToGo s)(a := 0)\<rparr> \<and>
         readyToGo (mainLoopAxis a s) a = 0) \<and>
      \<not> stopped (mainLoopAxis a s) a \<and>
      (GVal s a = 1 \<or> GVal s a = 2 \<or> \<not> canJumpToHighspeed s \<longrightarrow>
         stepMagnitude a (mainLoopAxis a s) = 1 \<and> \<not> highSpeedMode (mainLoopAxis a s) a) \<and>
      (GVal s a \<noteq> 1 \<and> GVal s a \<noteq> 2 \<and> canJumpToHighspeed s \<longrightarrow>
         stepDir (mainLoopAxis a s) a =
           (if dir s a = CMD_REVERSE then - gVal s a else gVal s a) \<and>
         highSpeedMode (mainLoopAxis a s) a)) \<and>
   (readyToGo s a \<noteq> 1 \<or> \<not> stopped s a \<longrightarrow> mainLoopAxis a s = s)"
proof -
  have rs: "readyToGo (selectSpeedMode a s) = readyToGo s"
    by (simp add: selectSpeedMode_def Let_def setModePins_def cmd_updateStepDir_def)
  have slew: "readyToGo s a = 1 \<Longrightarrow> stopped s a \<Longrightarrow> bit (GVal s a) 0 \<Longrightarrow>
      mainLoopAxis a s = (slewMode a (selectSpeedMode a s))\<lparr>readyToGo := (readyToGo s)(a := 2)\<rparr>"
    by (simp add: mainLoopAxis_def Let_def slewMode_def motorStart_frame rs)
  have goto: "readyToGo s a = 1 \<Longrightarrow> stopped s a \<Longrightarrow> \<not> bit (GVal s a) 0 \<Longrightarrow>
      mainLoopAxis a s = (gotoMode a (selectSpeedMode a s))\<lparr>readyToGo := (readyToGo s)(a := 0)\<rparr>"
    by (simp add: mainLoopAxis_def Let_def gotoMode_frame rs)
  have fr: "readyToGo s a = 1 \<Longrightarrow> stopped s a \<Longrightarrow>
      stepDir (mainLoopAxis a s) = stepDir (selectSpeedMode a s) \<and>
      highSpeedMode (mainLoopAxis a s) = highSpeedMode (selectSpeedMode a s) \<and>
      \<not> stopped (mainLoopAxis a s) a"
    by (cases "bit (GVal s a) 0")
       (simp_all add: slew goto slewMode_def motorStart_frame gotoMode_frame)
  have idle: "readyToGo s a \<noteq> 1 \<or> \<not> stopped s a \<Longrightarrow> mainLoopAxis a s = s"
    by (auto simp: mainLoopAxis_def)
  show ?thesis
    using slew goto fr idle selectSpeedMode_normal [of s a] selectSpeedMode_fast [of s a]
      stepMagnitude_cong [of "mainLoopAxis a s" a "selectSpeedMode a s"]
    by (auto simp: slewMode_def)
qed

lemma readySlew_facts:
  "readyToGo readySlewState RA = 1" "stopped readySlewState RA" "bit (GVal readySlewState RA) 0"
  "GVal readySlewState RA = 1"
  by (simp_all add: readySlewState_def exampleState_def)

lemma readyGoto_facts:
  "readyToGo readyGotoState RA = 1" "stopped readyGotoState RA"
  "\<not> bit (GVal readyGotoState RA) 0" "GVal readyGotoState RA \<noteq> 1" "GVal readyGotoState RA \<noteq> 2"
  "canJumpToHighspeed readyGotoState" "dir readyGotoState RA = CMD_FORWARD"
  "gVal readyGotoState RA = 8" "sint (GVal readyGotoState RA) \<le> 2"
  by (simp_all add: readyGotoState_def exampleState_def)

theorem mainLoopAxis_dispatch_witness:
  "(readyToGo readySlewState RA = 1 \<and> stopped readySlewState RA \<and>
    bit (GVal readySlewState RA) 0 \<and> GVal readySlewState RA = 1 \<and>
    readyToGo (mainLoopAxis RA readySlewState) RA = 2 \<and>
    \<not> stopped (mainLoopAxis RA readySlewState) RA \<and>
    stepMagnitude RA (mainLoopAxis RA readySlewState) = 1 \<and>
    \<not> highSpeedMode (mainLoopAxis RA readySlewState) RA) \<and>
   (readyToGo readyGotoState RA = 1 \<and> stopped readyGotoState RA \<and>
    \<not> bit (GVal readyGotoState RA) 0 \<and> GVal readyGotoState RA \<noteq> 1 \<and>
    GVal readyGotoState RA \<noteq> 2 \<and> canJumpToHighspeed readyGotoState \<and>
    readyToGo (mainLoopAxis RA readyGotoState) RA = 0 \<and>
    stepDir (mainLoopAxis RA readyGotoState) RA = 8 \<and>
    highSpeedMode (mainLoopAxis RA readyGotoState) RA) \<and>
   (readyToGo exampleState RA \<noteq> 1 \<and> mainLoopAxis RA exampleState = exampleState)"
proof -
  have e: "readyToGo exampleState RA \<noteq> 1" by (simp add: exampleState_def)
  note A = mainLoopAxis_dispatch [of readySlewState RA]
  note B = mainLoopAxis_dispatch [of readyGotoState RA]
  note C = mainLoopAxis_dispatch [of exampleState RA]
  from A readySlew_facts have A':
    "readyToGo (mainLoopAxis RA readySlewState) RA = 2"
    "\<not> stopped (mainLoopAxis RA readySlewState) RA"
    "stepMagnitude RA (mainLoopAxis RA readySlewState) = 1"
    "\<not> highSpeedMode (mainLoopAxis RA readySlewState) RA"
    by blast+
  from B readyGoto_facts(1-6) have B':
    "readyToGo (mainLoopAxis RA readyGotoState) RA = 0"
    "stepDir (mainLoopAxis RA readyGotoState) RA =
       (if dir readyGotoState RA = CMD_REVERSE then - gVal readyGotoState RA
        else gVal readyGotoState RA)"
    "highSpeedMode (mainLoopAxis RA readyGotoState) RA"
    by blast+
  from C e have C': "mainLoopAxis RA exampleState = exampleState" by blast
  show ?thesis
    using readySlew_facts readyGoto_facts(1-6) e A' B'(1,3) C'
    by (simp add: B'(2) readyGoto_facts(7,8))
qed

text \<open>
  The claim has every \<open>GVal \<le> 2\<close> select normal-speed mode. \<open>GVal = 0\<close> (the mode
  that \<open>motorStop\<close> leaves behind, and mode 0 of the \<^verbatim>\<open>G\<close> command) selects
  high-speed mode where the configuration allows it.
\<close>

theorem mainLoopAxis_GVal_0_counterexample:
  "readyToGo readyGotoState RA = 1 \<and> stopped readyGotoState RA \<and>
   sint (GVal readyGotoState RA) \<le> 2 \<and>
   highSpeedMode (mainLoopAxis RA readyGotoState) RA \<and>
   stepMagnitude RA (mainLoopAxis RA readyGotoState) = 8"
proof -
  have sel: "highSpeedMode (selectSpeedMode RA readyGotoState) RA"
    "stepDir (selectSpeedMode RA readyGotoState) RA = 8"
    using selectSpeedMode_fast [of readyGotoState RA] readyGoto_facts by simp_all
  have m: "mainLoopAxis RA readyGotoState =
      (gotoMode RA (selectSpeedMode RA readyGotoState))
        \<lparr>readyToGo := (readyToGo (gotoMode RA (selectSpeedMode RA readyGotoState)))(RA := 0)\<rparr>"
    using readyGoto_facts by (simp add: mainLoopAxis_def Let_def)
  show ?thesis
    using readyGoto_facts sel by (simp add: m gotoMode_frame stepMagnitude_def)
qed

subsection \<open>ST4 handler\<close>

lemma motorStart_speeds:
  "stopSpeed (motorStart a s) =
     (stopSpeed s)(a := if IVal s a > minSpeed s a then IVal s a else minSpeed s a)"
  "st4RAReverse (motorStart a s) = st4RAReverse s"
  "st4RAIVal (motorStart a s) = st4RAIVal s"
  "st4DecIVal (motorStart a s) = st4DecIVal s"
  "siderealIVal (motorStart a s) = siderealIVal s"
  "minSpeed (motorStart a s) = minSpeed s"
  by (simp_all add: motorStart_def Let_def cmd_setStopped_def timerEnable_def)

lemma gotoMode_frame2:
  "gotoEn (gotoMode a s) = gotoEn s"
  "dir (gotoMode a s) = dir s"
  "st4RAReverse (gotoMode a s) = st4RAReverse s"
  "st4RAIVal (gotoMode a s) = st4RAIVal s"
  "stopSpeed (gotoMode a s) a =
     (if normalGotoSpeed s a > minSpeed s a then normalGotoSpeed s a else minSpeed s a)"
  by (simp_all add: gotoMode_def Let_def motorStart_frame motorStart_speeds setGotoRunning_def
      clearGotoDecelerating_def cmd_setIVal_def gotoRaiseHVal_def cmd_setHVal_def)

lemma st4DC_RA:
  "currentIVal (st4DC pins s) RA = currentIVal s RA"
  "stopSpeed (st4DC pins s) RA = stopSpeed s RA"
  "dir (st4DC pins s) RA = dir s RA"
  "stepDir (st4DC pins s) RA = stepDir s RA"
  "GVal (st4DC pins s) RA = GVal s RA"
  "stopped (st4DC pins s) RA = stopped s RA"
  by (simp_all add: st4DC_def setDECSpeed_def motorStart_frame motorStart_speeds)

lemma st4RA_DC:
  "stopSpeed (st4RA pins s) DC = stopSpeed s DC"
  "gotoEn (st4RA pins s) = gotoEn s"
  by (simp_all add: st4RA_def setRASpeed_def Let_def motorStart_frame motorStart_speeds)

lemma st4RA_running:
  assumes "\<not> stopped s RA" "st4RAReverse s \<noteq> CMD_REVERSE"
    and "pinRAN pins \<and> pinRAP pins \<or> dir s RA = CMD_REVERSE"
  shows "st4RA pins s =
     s\<lparr>currentIVal := (currentIVal s)(RA := siderealIVal s RA),
        stopSpeed := (stopSpeed s)(RA := max (stopSpeed s RA) (siderealIVal s RA))\<rparr>"
  using assms by (auto simp: st4RA_def setRASpeed_def Let_def max_def not_less)

lemma st4RA_released_stopped:
  assumes "stopped s RA \<or> st4RAReverse s = CMD_REVERSE" and "pinRAN pins" "pinRAP pins"
  shows "st4RA pins s =
     motorStart RA (s\<lparr>currentIVal := (currentIVal s)(RA := siderealIVal s RA),
                       stepDir := (stepDir s)(RA := 1), dir := (dir s)(RA := CMD_FORWARD),
                       GVal := (GVal s)(RA := 1)\<rparr>)"
  using assms by (auto simp: st4RA_def setRASpeed_def Let_def)

lemma st4RA_started_target:
  "stopped s RA \<or> st4RAReverse s = CMD_REVERSE \<Longrightarrow> currentIVal (st4RA pins s) RA = IVal s RA"
  by (auto simp: st4RA_def setRASpeed_def Let_def motorStart_frame)

text \<open>
  The handler looks at \<open>gotoEn\<close>, the flag that the \<^verbatim>\<open>J\<close> command sets for a goto,
  and at nothing else: while it is set for either axis, an ST4 pin change leaves the
  whole state unchanged.
\<close>

lemma st4ISR_gate: "gotoEn s RA \<or> gotoEn s DC \<Longrightarrow> st4ISR pins s = s"
  by (auto simp: st4ISR_def)

text \<open>
  The run of the goto that is armed twice, station by station.
\<close>

lemma run_Nil [simp]: "run m [] s = s"
  by (simp add: run_def)

lemma run_Cons [simp]: "run m (ev # evs) s = run m evs (step m ev s)"
  by (simp add: run_def)

lemma run_append: "run m (xs @ ys) s = run m ys (run m xs s)"
  by (simp add: run_def)

lemma timerISR_countdown:
  "irqToNextStep s a \<noteq> 1 \<Longrightarrow>
   timerISR a s = s\<lparr>irqToNextStep := (irqToNextStep s)(a := irqToNextStep s a - 1)\<rparr>"
  by (simp add: timerISR_def Let_def)

lemma run_countdown:
  "timerInterruptEnabled s a \<Longrightarrow> timerClockEnabled s a \<Longrightarrow>
   unat (irqToNextStep s a) = n \<Longrightarrow> k < n \<Longrightarrow>
   run m (replicate k (TimerCapture a)) s =
     s\<lparr>irqToNextStep := (irqToNextStep s)(a := of_nat (n - k))\<rparr>"
proof (induction k arbitrary: s n)
  case 0
  then have "(of_nat n :: 16 word) = irqToNextStep s a" by auto
  then show ?case by simp
next
  case (Suc k)
  from Suc.prems have ne: "irqToNextStep s a \<noteq> 1"
    by (auto simp: word_unat_eq_iff)
  let ?s = "s\<lparr>irqToNextStep := (irqToNextStep s)(a := irqToNextStep s a - 1)\<rparr>"
  have st: "step m (TimerCapture a) s = ?s"
    using Suc.prems(1,2) ne by (simp add: step_def timerISR_countdown)
  have n1: "unat (irqToNextStep ?s a) = n - 1"
    using Suc.prems(3,4) by (simp add: unat_minus_one word_unat_eq_iff [symmetric] unat_gt_0 [symmetric])
  have ih: "run m (replicate k (TimerCapture a)) ?s =
        ?s\<lparr>irqToNextStep := (irqToNextStep ?s)(a := of_nat (n - 1 - k))\<rparr>"
    by (rule Suc.IH) (use Suc.prems n1 in simp_all)
  have "run m (replicate (Suc k) (TimerCapture a)) s = run m (replicate k (TimerCapture a)) ?s"
    by (simp add: st)
  also note ih
  also have "?s\<lparr>irqToNextStep := (irqToNextStep ?s)(a := of_nat (n - 1 - k))\<rparr> =
      s\<lparr>irqToNextStep := (irqToNextStep s)(a := of_nat (n - Suc k))\<rparr>"
    by simp
  finally show ?case .
qed


lemma run_countdown':
  "timerInterruptEnabled s a \<Longrightarrow> timerClockEnabled s a \<Longrightarrow> k < unat (irqToNextStep s a) \<Longrightarrow>
   run m (replicate k (TimerCapture a)) s =
     s\<lparr>irqToNextStep := (irqToNextStep s)(a := irqToNextStep s a - of_nat k)\<rparr>"
proof -
  assume a: "timerInterruptEnabled s a" "timerClockEnabled s a" "k < unat (irqToNextStep s a)"
  have "(of_nat (unat (irqToNextStep s a) - k) :: 16 word) = irqToNextStep s a - of_nat k"
    using a(3) by (simp add: of_nat_diff)
  then show ?thesis
    using run_countdown [OF a(1,2) refl a(3), of m] by simp
qed

lemma exampleState_fields:
  "jVal exampleState = (\<lambda>_. 0x800000)"
  "IVal exampleState = (\<lambda>_. 1000)"
  "HVal exampleState = (\<lambda>_. 0)"
  "stopped exampleState = (\<lambda>_. True)"
  "gotoEn exampleState = (\<lambda>_. False)"
  "FVal exampleState = (\<lambda>_. True)"
  "GVal exampleState = (\<lambda>_. 1)"
  "dir exampleState = (\<lambda>_. CMD_FORWARD)"
  "stepDir exampleState = (\<lambda>_. 1)"
  "highSpeedMode exampleState = (\<lambda>_. False)"
  "aVal exampleState = (\<lambda>_. 9024000)"
  "bVal exampleState = (\<lambda>_. 40000)"
  "sVal exampleState = (\<lambda>_. 64000)"
  "gVal exampleState = (\<lambda>_. 8)"
  "st4RAReverse exampleState = CMD_FORWARD"
  "st4RAIVal exampleState = (\<lambda>i. if i = 0 then 800 else 1333)"
  "st4DecIVal exampleState = 4000"
  "siderealIVal exampleState = (\<lambda>_. 1000)"
  "currentIVal exampleState = (\<lambda>_. 1000)"
  "minSpeed exampleState = (\<lambda>_. 100)"
  "normalGotoSpeed exampleState = (\<lambda>_. 20)"
  "stopSpeed exampleState = (\<lambda>_. 1000)"
  "accelTable exampleState = (\<lambda>_. exampleTable)"
  "readyToGo exampleState = (\<lambda>_. 0)"
  "gotoPosn exampleState = (\<lambda>_. 0)"
  "encodeDirection exampleState = (\<lambda>_. False)"
  "progMode exampleState = 0"
  "microstepConf exampleState = 16"
  "driverVersion exampleState = 0"
  "timerOVF exampleState = (\<lambda>_. replicate 32 200)"
  "canJumpToHighspeed exampleState = True"
  "defaultSpeedState exampleState = SPEEDNORM"
  "disableGearChange exampleState = False"
  "allowAdvancedHCDetection exampleState = False"
  "gotoDecelerationLength exampleState = (\<lambda>_. 10)"
  "accelTableRepeatsLeft exampleState = (\<lambda>_. 0)"
  "accelTableIndex exampleState = (\<lambda>_. 0)"
  "modeState exampleState = (\<lambda>m. if m = SPEEDNORM then 3 else 0)"
  "distributionSegment exampleState = (\<lambda>_. 0)"
  "currentMotorSpeed exampleState = (\<lambda>_. 1000)"
  "irqToNextStep exampleState = (\<lambda>_. 1)"
  "interruptOVFCount exampleState = (\<lambda>_. 200)"
  "timerCountRegister exampleState = (\<lambda>_. 0)"
  "timerInterruptEnabled exampleState = (\<lambda>_. False)"
  "timerClockEnabled exampleState = (\<lambda>_. False)"
  "gotoRunning exampleState = (\<lambda>_. False)"
  "gotoDecelerating exampleState = (\<lambda>_. False)"
  "stepPin exampleState = (\<lambda>_. False)"
  "dirPin exampleState = (\<lambda>_. False)"
  "enablePin exampleState = (\<lambda>_. False)"
  "modePins exampleState = (\<lambda>_ _. False)"
  "eepromID exampleState = True"
  by (simp_all add: exampleState_def)

lemmas model_defs =
  step_def decodeCommand_def decodeSwitch_def mainLoopAxis_def selectSpeedMode_def
  setModePins_def cmd_updateStepDir_def slewMode_def gotoMode_def gotoRaiseHVal_def
  gotoHValMasked_def gotoHalfHVal_def gotoDecel_def dirMagnitude_def motorStart_def
  motorStop_def timerEnable_def timerDisable_def cmd_setStopped_def cmd_setGotoEn_def
  cmd_setGVal_def cmd_setDir_def cmd_setHVal_def cmd_setIVal_def cmd_setjVal_def
  setGotoRunning_def clearGotoRunning_def setGotoDecelerating_def clearGotoDecelerating_def
  timerISR_def pulseStart_def pulseComplete_def reloadRepeats_def AccelTableLength_def
  reloadTimer_def

lemmas trace_defs =
  armedTwiceState_def firstPulseState_def markerState_def lastPulseState_def finishedState_def

lemma run_armTwice: "run 50 armTwice exampleState = armedTwiceState"
  by (simp add: armTwice_def model_defs Let_def exampleState_fields exampleTable_def
      mode2Packet_def distance2Packet_def emptyPacket_def armedTwiceState_def)

lemma run_firstPulse: "run 50 [TimerCapture RA] armedTwiceState = firstPulseState"
  by (simp add: model_defs Let_def exampleState_fields exampleTable_def trace_defs)

lemma run_marker: "run 50 stepPeriod firstPulseState = markerState"
  by (simp add: stepPeriod_def run_append run_countdown' model_defs Let_def
      exampleState_fields exampleTable_def trace_defs)

lemma run_lastPulse: "run 50 stepPeriod markerState = lastPulseState"
  by (simp add: stepPeriod_def run_append run_countdown' model_defs Let_def
      exampleState_fields exampleTable_def trace_defs)

lemma run_finished: "run 50 stepPeriod lastPulseState = finishedState"
  by (simp add: stepPeriod_def run_append run_countdown' model_defs Let_def
      exampleState_fields exampleTable_def trace_defs)

lemma finished_facts:
  "readyToGo finishedState RA = 1" "stopped finishedState RA" "GVal finishedState RA = 2"
  "\<not> gotoEn finishedState RA" "\<not> gotoEn finishedState DC"
  "normalGotoSpeed finishedState RA = 20" "minSpeed finishedState RA = 100"
  "st4RAReverse finishedState = CMD_FORWARD" "dir finishedState RA = CMD_FORWARD"
  "st4RAIVal finishedState 0 = 800" "canJumpToHighspeed finishedState"
  "jVal finishedState RA = 0x800002"
  by (simp_all add: trace_defs exampleState_fields)

lemma run_firstGoto: "run 50 (armTwice @ firstGoto) exampleState = finishedState"
  unfolding firstGoto_def run_append
  by (simp only: run_armTwice run_firstPulse run_marker run_lastPulse run_finished)

lemma armedTwice_facts:
  "gotoEn armedTwiceState RA" "gotoRunning armedTwiceState RA"
  "readyToGo armedTwiceState RA = 1"
  by (simp_all add: armedTwiceState_def)

lemma restartedState_eq:
  "restartedState =
     (gotoMode RA (selectSpeedMode RA finishedState))\<lparr>readyToGo :=
        (readyToGo (gotoMode RA (selectSpeedMode RA finishedState)))(RA := 0)\<rparr>"
proof -
  have "restartedState = run 50 [MainLoopAxis RA] (run 50 (armTwice @ firstGoto) exampleState)"
    unfolding restartedState_def doubleJTrace_def by (simp only: run_append)
  then have "restartedState = run 50 [MainLoopAxis RA] finishedState"
    by (simp only: run_firstGoto)
  also have "\<dots> = mainLoopAxis RA finishedState" by (simp add: step_def)
  also have "\<dots> = (gotoMode RA (selectSpeedMode RA finishedState))\<lparr>readyToGo :=
        (readyToGo (gotoMode RA (selectSpeedMode RA finishedState)))(RA := 0)\<rparr>"
    by (simp add: mainLoopAxis_def Let_def finished_facts)
  finally show ?thesis .
qed

lemma selectSpeedMode_frame:
  "gotoEn (selectSpeedMode a s) = gotoEn s"
  "normalGotoSpeed (selectSpeedMode a s) = normalGotoSpeed s"
  "minSpeed (selectSpeedMode a s) = minSpeed s"
  "st4RAReverse (selectSpeedMode a s) = st4RAReverse s"
  "st4RAIVal (selectSpeedMode a s) = st4RAIVal s"
  "dir (selectSpeedMode a s) = dir s"
  "stopped (selectSpeedMode a s) = stopped s"
  by (simp_all add: selectSpeedMode_def Let_def setModePins_def cmd_updateStepDir_def)

lemma restarted_facts:
  "gotoRunning restartedState RA" "\<not> gotoEn restartedState RA"
  "\<not> gotoEn restartedState DC" "\<not> stopped restartedState RA"
  "currentIVal restartedState RA = 20" "stopSpeed restartedState RA = 100"
  "st4RAReverse restartedState = CMD_FORWARD" "dir restartedState RA = CMD_FORWARD"
  "st4RAIVal restartedState 0 = 800"
  unfolding restartedState_eq
  by (simp_all add: gotoMode_flags gotoMode_frame gotoMode_frame2 selectSpeedMode_frame
      finished_facts)

text \<open>
  Claim C7 does not hold of the code. In the run of \<open>doubleJTrace\<close> the second \<^verbatim>\<open>J\<close>
  leaves the running goto with \<open>gotoEn\<close> set and \<open>readyToGo = 1\<close>; the step engine,
  completing the first goto, clears \<open>gotoEn\<close> although a goto is ready, and the run loop
  then starts that goto without setting the flag. So at the end of the run a goto is
  running on the right ascension axis with \<open>gotoEn\<close> clear on both axes, the handler does
  not hold back, and pressing RA+ moves the target speed of the axis from 20 to 800 and
  its stop speed from 100 to 800.
\<close>

theorem st4ISR_acts_on_restarted_goto:
  "gotoEn (run 50 armTwice exampleState) RA \<and>
   gotoRunning (run 50 armTwice exampleState) RA \<and>
   readyToGo (run 50 armTwice exampleState) RA = 1 \<and>
   \<not> gotoEn (run 50 (armTwice @ firstGoto) exampleState) RA \<and>
   readyToGo (run 50 (armTwice @ firstGoto) exampleState) RA = 1 \<and>
   restartedState = run 50 (armTwice @ firstGoto @ [MainLoopAxis RA]) exampleState \<and>
   gotoRunning restartedState RA \<and>
   \<not> gotoEn restartedState RA \<and> \<not> gotoEn restartedState DC \<and>
   currentIVal restartedState RA = 20 \<and>
   currentIVal (st4ISR raPlusPressed restartedState) RA = 800 \<and>
   stopSpeed restartedState RA = 100 \<and>
   stopSpeed (st4ISR raPlusPressed restartedState) RA = 800"
proof -
  have a: "gotoEn (run 50 armTwice exampleState) RA"
    "gotoRunning (run 50 armTwice exampleState) RA"
    "readyToGo (run 50 armTwice exampleState) RA = 1"
    unfolding run_armTwice by (rule armedTwice_facts)+
  have f: "\<not> gotoEn (run 50 (armTwice @ firstGoto) exampleState) RA"
    "readyToGo (run 50 (armTwice @ firstGoto) exampleState) RA = 1"
    unfolding run_firstGoto by (rule finished_facts)+
  have e: "restartedState = run 50 (armTwice @ firstGoto @ [MainLoopAxis RA]) exampleState"
    by (simp only: restartedState_def doubleJTrace_def)
  have s: "currentIVal (st4ISR raPlusPressed restartedState) RA = 800"
    "stopSpeed (st4ISR raPlusPressed restartedState) RA = 800"
    using restarted_facts
    by (simp_all add: st4ISR_def st4DC_RA st4RA_def setRASpeed_def Let_def raPlusPressed_def)
  show ?thesis
    using a f e s restarted_facts(1,2,3,5,6) by blast
qed

text \<open>
  Claim C10, as the code has it, for a pin change with \<open>gotoEn\<close> clear on both axes.
  Right ascension running with \<open>st4RAReverse\<close> off, and no RA button pressed or the
  axis moving in reverse: the target speed becomes the sidereal speed, the stop speed is
  raised to it where lower, and direction and step delta stay as they are. Right
  ascension stopped (or \<open>st4RAReverse\<close> on) and no RA button pressed: the direction is
  forward, the step delta 1, the mode a slew, and the axis is started. No declination
  button pressed: the target speed of the declination axis is its stop speed plus one.
\<close>

theorem st4ISR_buttons_released:
  assumes "\<not> gotoEn s RA" and "\<not> gotoEn s DC"
  shows "(\<not> stopped s RA \<and> st4RAReverse s \<noteq> CMD_REVERSE \<and>
          (pinRAN pins \<and> pinRAP pins \<or> dir s RA = CMD_REVERSE) \<longrightarrow>
            currentIVal (st4ISR pins s) RA = siderealIVal s RA \<and>
            stopSpeed (st4ISR pins s) RA = max (stopSpeed s RA) (siderealIVal s RA) \<and>
            dir (st4ISR pins s) RA = dir s RA \<and> stepDir (st4ISR pins s) RA = stepDir s RA \<and>
            \<not> stopped (st4ISR pins s) RA) \<and>
         ((stopped s RA \<or> st4RAReverse s = CMD_REVERSE) \<and> pinRAN pins \<and> pinRAP pins \<longrightarrow>
            dir (st4ISR pins s) RA = CMD_FORWARD \<and> stepDir (st4ISR pins s) RA = 1 \<and>
            GVal (st4ISR pins s) RA = 1 \<and> \<not> stopped (st4ISR pins s) RA) \<and>
         (pinDCN pins \<and> pinDCP pins \<longrightarrow>
            currentIVal (st4ISR pins s) DC = stopSpeed s DC + 1)"
proof -
  have isr: "st4ISR pins s = st4DC pins (st4RA pins s)"
    using assms by (simp add: st4ISR_def)
  have run: "\<not> stopped s RA \<Longrightarrow> st4RAReverse s \<noteq> CMD_REVERSE \<Longrightarrow>
      pinRAN pins \<and> pinRAP pins \<or> dir s RA = CMD_REVERSE \<Longrightarrow>
      currentIVal (st4ISR pins s) RA = siderealIVal s RA \<and>
      stopSpeed (st4ISR pins s) RA = max (stopSpeed s RA) (siderealIVal s RA) \<and>
      dir (st4ISR pins s) RA = dir s RA \<and> stepDir (st4ISR pins s) RA = stepDir s RA \<and>
      \<not> stopped (st4ISR pins s) RA"
    by (simp add: isr st4DC_RA st4RA_running)
  have stp: "stopped s RA \<or> st4RAReverse s = CMD_REVERSE \<Longrightarrow> pinRAN pins \<Longrightarrow> pinRAP pins \<Longrightarrow>
      dir (st4ISR pins s) RA = CMD_FORWARD \<and> stepDir (st4ISR pins s) RA = 1 \<and>
      GVal (st4ISR pins s) RA = 1 \<and> \<not> stopped (st4ISR pins s) RA"
    by (simp add: isr st4DC_RA st4RA_released_stopped motorStart_frame)
  have dc: "pinDCN pins \<Longrightarrow> pinDCP pins \<Longrightarrow>
      currentIVal (st4ISR pins s) DC = stopSpeed s DC + 1"
    by (simp add: isr st4DC_def st4RA_DC)
  from run stp dc show ?thesis by blast
qed

lemma slewing_facts:
  "\<not> gotoEn slewingState RA" "\<not> gotoEn slewingState DC" "\<not> stopped slewingState RA"
  "st4RAReverse slewingState \<noteq> CMD_REVERSE" "siderealIVal slewingState RA = 1000"
  "stopSpeed slewingState DC = 1000" "dir slewingState RA = CMD_FORWARD"
  unfolding slewingState_def
  by (simp_all add: motorStart_frame motorStart_speeds) (simp_all add: exampleState_def)

lemma example_st4_facts:
  "\<not> gotoEn exampleState RA" "\<not> gotoEn exampleState DC" "stopped exampleState RA"
  by (simp_all add: exampleState_def)

lemma noButton_facts:
  "pinRAN noButtonPressed" "pinRAP noButtonPressed" "pinDCN noButtonPressed"
  "pinDCP noButtonPressed"
  by (simp_all add: noButtonPressed_def)

theorem st4ISR_buttons_released_witness:
  "(\<not> gotoEn slewingState RA \<and> \<not> gotoEn slewingState DC \<and> \<not> stopped slewingState RA \<and>
    st4RAReverse slewingState \<noteq> CMD_REVERSE \<and>
    pinRAN noButtonPressed \<and> pinRAP noButtonPressed \<and>
    pinDCN noButtonPressed \<and> pinDCP noButtonPressed \<and>
    currentIVal (st4ISR noButtonPressed slewingState) RA = 1000 \<and>
    dir (st4ISR noButtonPressed slewingState) RA = CMD_FORWARD \<and>
    currentIVal (st4ISR noButtonPressed slewingState) DC = 1001) \<and>
   (\<not> gotoEn exampleState RA \<and> \<not> gotoEn exampleState DC \<and> stopped exampleState RA \<and>
    dir (st4ISR noButtonPressed exampleState) RA = CMD_FORWARD \<and>
    stepDir (st4ISR noButtonPressed exampleState) RA = 1 \<and>
    \<not> stopped (st4ISR noButtonPressed exampleState) RA)"
proof -
  note A = st4ISR_buttons_released [OF slewing_facts(1,2), of noButtonPressed]
  note B = st4ISR_buttons_released [OF example_st4_facts(1,2), of noButtonPressed]
  from A slewing_facts(3,4) noButton_facts have A':
    "currentIVal (st4ISR noButtonPressed slewingState) RA = siderealIVal slewingState RA"
    "dir (st4ISR noButtonPressed slewingState) RA = dir slewingState RA"
    "currentIVal (st4ISR noButtonPressed slewingState) DC = stopSpeed slewingState DC + 1"
    by blast+
  from B example_st4_facts(3) noButton_facts have B':
    "dir (st4ISR noButtonPressed exampleState) RA = CMD_FORWARD"
    "stepDir (st4ISR noButtonPressed exampleState) RA = 1"
    "\<not> stopped (st4ISR noButtonPressed exampleState) RA"
    by blast+
  show ?thesis
    using slewing_facts(1-4) example_st4_facts noButton_facts B'
    by (simp add: A' slewing_facts(5-7))
qed

text \<open>
  The claim has the handler set the forward direction also when right ascension is
  moving in reverse without \<open>st4RAReverse\<close>. There the target speed becomes the
  sidereal speed and the direction stays reverse.
\<close>

lemma reverseSlew_facts:
  "\<not> gotoEn reverseSlewState RA" "\<not> gotoEn reverseSlewState DC" "\<not> stopped reverseSlewState RA"
  "st4RAReverse reverseSlewState \<noteq> CMD_REVERSE" "dir reverseSlewState RA = CMD_REVERSE"
  "siderealIVal reverseSlewState RA = 1000"
  unfolding reverseSlewState_def
  by (simp_all add: motorStart_frame motorStart_speeds) (simp_all add: exampleState_def)

theorem st4ISR_reverse_counterexample:
  "\<not> gotoEn reverseSlewState RA \<and> \<not> gotoEn reverseSlewState DC \<and>
   \<not> stopped reverseSlewState RA \<and> dir reverseSlewState RA = CMD_REVERSE \<and>
   st4RAReverse reverseSlewState \<noteq> CMD_REVERSE \<and>
   currentIVal (st4ISR noButtonPressed reverseSlewState) RA = siderealIVal reverseSlewState RA \<and>
   dir (st4ISR noButtonPressed reverseSlewState) RA \<noteq> CMD_FORWARD"
  using reverseSlew_facts
  by (simp add: st4ISR_def st4DC_RA st4RA_running)

subsection \<open>Disarming the step engine\<close>

lemma motorStop_stopped:
  "stopped (motorStop b e s) = (if e then (stopped s)(b := True) else stopped s)"
  by (simp add: motorStop_def Let_def cmd_setGVal_def cmd_setStopped_def cmd_setGotoEn_def
      timerDisable_def clearGotoRunning_def)

lemma motorStop_emergency_timer:
  "timerInterruptEnabled (motorStop b True s) = (timerInterruptEnabled s)(b := False)"
  "timerClockEnabled (motorStop b True s) = (timerClockEnabled s)(b := False)"
  by (simp_all add: motorStop_def Let_def cmd_setGVal_def cmd_setStopped_def cmd_setGotoEn_def
      timerDisable_def clearGotoRunning_def)

lemma motorDisable_frame:
  "stopped (motorDisable b s) = stopped s"
  "timerInterruptEnabled (motorDisable b s) = timerInterruptEnabled s"
  "timerClockEnabled (motorDisable b s) = timerClockEnabled s"
  by (simp_all add: motorDisable_def cmd_setFVal_def)

lemma motorEnable_frame:
  "stopped (motorEnable b s) = stopped s"
  "timerInterruptEnabled (motorEnable b s) = (\<lambda>_. False)"
  "timerClockEnabled (motorEnable b s) = (\<lambda>_. False)"
  by (simp_all add: motorEnable_def configureTimer_def cmd_setFVal_def)

lemma wrapAccelTableIndex_stopped: "stopped (wrapAccelTableIndex b s) = stopped s"
  by (simp add: wrapAccelTableIndex_def Let_def)

lemma st4ISR_stopped: "stopped (st4ISR pins s) a \<Longrightarrow> stopped s a"
  by (auto simp: st4ISR_def st4DC_def st4RA_def setDECSpeed_def setRASpeed_def Let_def
      motorStart_frame split: if_splits)

lemma selectSpeedMode_stopped: "stopped (selectSpeedMode b s) = stopped s"
  by (simp add: selectSpeedMode_def Let_def setModePins_def cmd_updateStepDir_def)

lemma mainLoopAxis_stopped: "stopped (mainLoopAxis b s) a \<Longrightarrow> stopped s a"
  by (auto simp: mainLoopAxis_def Let_def slewMode_def motorStart_frame gotoMode_frame
      selectSpeedMode_stopped split: if_splits)

lemma decodeSwitch_stopped:
  "stopped (fst (decodeSwitch m c b p s)) a \<Longrightarrow>
   stopped s a \<or> (c = CHR ''L'' \<and> b = a) \<or> (c = CHR ''O'' \<and> buffer0 p - 0x30 \<noteq> 0)"
  by (auto simp: decodeSwitch_def Let_def motorStop_stopped motorDisable_frame
      motorEnable_frame motorStart_frame wrapAccelTableIndex_stopped cmd_setIVal_def
      cmd_setHVal_def cmd_setGVal_def cmd_setDir_def cmd_setjVal_def buildEEPROM_def
      split: if_splits)


lemma decodeCommand_stopped:
  "stopped (newState (decodeCommand m c b p s)) a \<Longrightarrow>
   stopped s a \<or> (c = CHR ''L'' \<and> b = a) \<or> (c = CHR ''O'' \<and> buffer0 p - 0x30 \<noteq> 0)"
  using decodeSwitch_stopped [of m c b p s a]
  by (auto simp: decodeCommand_def Let_def cmd_setGotoEn_def split: prod.splits if_splits)

lemma decodeCommand_L:
  "newState (decodeCommand m CHR ''L'' a p s) = motorDisable a (motorStop a True s)"
  by (simp add: decodeCommand_def decodeSwitch_def)

lemma decodeCommand_O:
  "buffer0 p - 0x30 \<noteq> 0 \<Longrightarrow>
   newState (decodeCommand m CHR ''O'' b p s) =
     (motorDisable DC (motorStop DC True (motorDisable RA (motorStop RA True
        (s\<lparr>progMode := buffer0 p - 0x30\<rparr>)))))\<lparr>readyToGo := (\<lambda>_. 0)\<rparr>"
  by (simp add: decodeCommand_def decodeSwitch_def Let_def)

lemma pulseStart_stopped: "stopped (pulseStart b v s) = stopped s"
  by (simp add: pulseStart_def Let_def)

lemma pulseComplete_stopped:
  "stopped (pulseComplete b v s) a \<Longrightarrow> \<not> stopped s a \<Longrightarrow>
   b = a \<and> v > stopSpeed s a \<and> disarmed a (pulseComplete b v s)"
  by (auto simp: pulseComplete_def Let_def disarmed_def timerDisable_def cmd_setStopped_def
      cmd_setGotoEn_def clearGotoRunning_def setGotoDecelerating_def split: if_splits)

lemma reloadTimer_frame:
  "stopped (reloadTimer b s) = stopped s"
  "stepPin (reloadTimer b s) = stepPin s"
  "stopSpeed (reloadTimer b s) = stopSpeed s"
  "currentMotorSpeed (reloadTimer b s) = currentMotorSpeed s"
  "currentIVal (reloadTimer b s) = currentIVal s"
  "accelTable (reloadTimer b s) = accelTable s"
  "accelTableIndex (reloadTimer b s) = accelTableIndex s"
  "accelTableRepeatsLeft (reloadTimer b s) = accelTableRepeatsLeft s"
  "highSpeedMode (reloadTimer b s) = highSpeedMode s"
  "irqToNextStep (reloadTimer b s) = (irqToNextStep s)(b := currentMotorSpeed s b)"
  by (simp_all add: reloadTimer_def Let_def)

lemma timerISR_edge:
  "irqToNextStep s b = 1 \<Longrightarrow>
   timerISR b s = (if stepPin s b then pulseComplete b (currentMotorSpeed s b) (reloadTimer b s)
                   else pulseStart b (currentMotorSpeed s b) (reloadTimer b s))"
  by (simp add: timerISR_def Let_def reloadTimer_frame)

lemma timerISR_stopped:
  assumes "stopped (timerISR b s) a" and "\<not> stopped s a"
  shows "b = a \<and> irqToNextStep s a = 1 \<and> stepPin s a \<and>
         currentMotorSpeed s a > stopSpeed s a \<and> disarmed a (timerISR b s)"
proof (cases "irqToNextStep s b - 1 = 0")
  case False
  with assms show ?thesis by (simp add: timerISR_def Let_def)
next
  case True
  then have one: "irqToNextStep s b = 1" by simp
  note isr = timerISR_edge [OF one]
  show ?thesis
  proof (cases "stepPin s b")
    case False
    with assms isr show ?thesis by (simp add: pulseStart_stopped reloadTimer_frame)
  next
    case True
    with assms isr have
      "stopped (pulseComplete b (currentMotorSpeed s b) (reloadTimer b s)) a"
      "\<not> stopped (reloadTimer b s) a"
      by (simp_all add: reloadTimer_frame)
    from pulseComplete_stopped [OF this]
    have ba: "b = a" and gt: "currentMotorSpeed s b > stopSpeed (reloadTimer b s) a"
      and dis: "disarmed a (pulseComplete b (currentMotorSpeed s b) (reloadTimer b s))"
      by blast+
    from isr True have "timerISR b s = pulseComplete b (currentMotorSpeed s b) (reloadTimer b s)"
      by simp
    with dis have "disarmed a (timerISR b s)" by simp
    with gt True one show ?thesis unfolding ba by (simp add: reloadTimer_frame)
  qed
qed

lemma timerISR_stops:
  assumes "irqToNextStep s a = 1" and "stepPin s a" and "currentMotorSpeed s a > stopSpeed s a"
  shows "stopped (timerISR a s) a"
  using assms
  by (simp add: timerISR_edge pulseComplete_def Let_def reloadTimer_frame timerDisable_def
      cmd_setStopped_def setGotoDecelerating_def)

text \<open>
  Claim C5, as the code has it. Whenever a transition of the firmware marks a running
  axis stopped, the axis is disarmed after it (stopped, capture interrupt masked, timer
  without clock), and the transition is either a tick of the axis's step engine that
  completes a pulse (countdown at one, step pin high) with the current speed above the
  stop speed, or an emergency stop: \<open>motorStop\<close> with the emergency flag, called by
  the \<^verbatim>\<open>L\<close> command, by the \<^verbatim>\<open>O\<close> command with a mode other than 0 and on
  entering stand-alone mode.
\<close>

theorem disarm_only_by_stop_tick_or_emergency:
  "\<not> stopped s a \<and> stopped (step m ev s) a \<longrightarrow>
     disarmed a (step m ev s) \<and>
     ((ev = TimerCapture a \<and> irqToNextStep s a = 1 \<and> stepPin s a \<and>
       currentMotorSpeed s a > stopSpeed s a) \<or>
      emergencyStopEvent a ev)"
proof (intro impI, elim conjE)
  assume run: "\<not> stopped s a" and stp: "stopped (step m ev s) a"
  show "disarmed a (step m ev s) \<and>
     ((ev = TimerCapture a \<and> irqToNextStep s a = 1 \<and> stepPin s a \<and>
       currentMotorSpeed s a > stopSpeed s a) \<or>
      emergencyStopEvent a ev)"
  proof (cases ev)
    case (TimerCapture b)
    with run stp have en: "timerInterruptEnabled s b \<and> timerClockEnabled s b"
      by (auto simp: step_def split: if_splits)
    with TimerCapture stp have "stopped (timerISR b s) a" by (simp add: step_def)
    from timerISR_stopped [OF this run]
    have ba: "b = a" and c: "irqToNextStep s a = 1" "stepPin s a"
      "currentMotorSpeed s a > stopSpeed s a" and dis: "disarmed a (timerISR b s)"
      by blast+
    from en TimerCapture have "step m ev s = timerISR b s" by (simp add: step_def)
    with dis c TimerCapture show ?thesis unfolding ba by simp
  next
    case (ST4Change pins)
    with run stp st4ISR_stopped [of pins s a] show ?thesis by (simp add: step_def)
  next
    case (Command c b p)
    with stp have st: "stopped (newState (decodeCommand m c b p s)) a" by (simp add: step_def)
    from decodeCommand_stopped [OF st] run
    have cause: "(c = CHR ''L'' \<and> b = a) \<or> (c = CHR ''O'' \<and> buffer0 p - 0x30 \<noteq> 0)" by simp
    have "disarmed a (newState (decodeCommand m c b p s))"
    proof (cases "c = CHR ''L''")
      case True
      with cause have "b = a" by simp
      with True show ?thesis
        by (simp add: disarmed_def decodeCommand_L motorDisable_frame motorStop_stopped
            motorStop_emergency_timer)
    next
      case False
      with cause have "c = CHR ''O''" "buffer0 p - 0x30 \<noteq> 0" by simp_all
      then show ?thesis
        by (cases a)
           (simp_all add: disarmed_def decodeCommand_O motorDisable_frame motorStop_stopped
             motorStop_emergency_timer)
    qed
    with cause Command show ?thesis by (simp add: step_def emergencyStopEvent_def)
  next
    case (MainLoopAxis b)
    with run stp mainLoopAxis_stopped [of b s a] show ?thesis by (simp add: step_def)
  next
    case (EnterStandalone advanced v)
    have "disarmed a (enterStandalone advanced v s)"
      by (cases a)
         (simp_all add: disarmed_def enterStandalone_def Let_def cmd_setjVal_def
           cmd_setIVal_def cmd_setGVal_def cmd_setDir_def motorEnable_frame
           Commands_configureST4Speed_def setModePins_def motorStop_stopped
           motorStop_emergency_timer)
    with EnterStandalone show ?thesis by (simp add: step_def emergencyStopEvent_def)
  next
    case (ConfigureST4 v)
    with run stp show ?thesis by (simp add: step_def Commands_configureST4Speed_def)
  qed
qed

lemma slewing_running:
  "\<not> stopped slewingState RA" "timerInterruptEnabled slewingState RA"
  "timerClockEnabled slewingState RA" "irqToNextStep slewingState RA = 1"
  "stopSpeed slewingState RA = 1000"
  unfolding slewingState_def
  by (simp_all add: motorStart_frame motorStart_speeds)
     (simp_all add: motorStart_def Let_def cmd_setStopped_def timerEnable_def exampleState_def)

theorem disarm_only_by_stop_tick_or_emergency_witness:
  "(\<not> stopped stoppingState RA \<and> stopped (step 50 (TimerCapture RA) stoppingState) RA \<and>
    disarmed RA (step 50 (TimerCapture RA) stoppingState) \<and>
    stepPin stoppingState RA \<and> currentMotorSpeed stoppingState RA > stopSpeed stoppingState RA) \<and>
   (\<not> stopped slewingState RA \<and>
    stopped (step 50 (Command CHR ''L'' RA emptyPacket) slewingState) RA \<and>
    disarmed RA (step 50 (Command CHR ''L'' RA emptyPacket) slewingState) \<and>
    emergencyStopEvent RA (Command CHR ''L'' RA emptyPacket))"
proof -
  have f: "\<not> stopped stoppingState RA" "irqToNextStep stoppingState RA = 1"
    "stepPin stoppingState RA" "currentMotorSpeed stoppingState RA > stopSpeed stoppingState RA"
    "timerInterruptEnabled stoppingState RA \<and> timerClockEnabled stoppingState RA"
    using slewing_running by (simp_all add: stoppingState_def)
  have st: "stopped (step 50 (TimerCapture RA) stoppingState) RA"
    using timerISR_stops [OF f(2,3,4)] f(5) by (simp add: step_def)
  have l: "stopped (step 50 (Command CHR ''L'' RA emptyPacket) slewingState) RA"
    by (simp add: step_def decodeCommand_L motorDisable_frame motorStop_stopped)
  have e: "emergencyStopEvent RA (Command CHR ''L'' RA emptyPacket)"
    by (simp add: emergencyStopEvent_def)
  from disarm_only_by_stop_tick_or_emergency [of stoppingState RA 50 "TimerCapture RA"] f(1) st
  have A: "disarmed RA (step 50 (TimerCapture RA) stoppingState)" by blast
  from disarm_only_by_stop_tick_or_emergency
         [of slewingState RA 50 "Command CHR ''L'' RA emptyPacket"] slewing_running(1) l
  have B: "disarmed RA (step 50 (Command CHR ''L'' RA emptyPacket) slewingState)" by blast
  from f st l e A B slewing_running(1) show ?thesis by blast
qed

text \<open>
  The claim allows no transition but the step engine's to disarm. The \<^verbatim>\<open>L\<close>
  command disarms a slewing axis at once.
\<close>

theorem disarm_by_emergency_stop_counterexample:
  "\<not> stopped slewingState RA \<and>
   disarmed RA (step 50 (Command CHR ''L'' RA emptyPacket) slewingState) \<and>
   Command CHR ''L'' RA emptyPacket \<noteq> TimerCapture RA"
  using slewing_running(1)
  by (simp add: step_def decodeCommand_L disarmed_def motorDisable_frame motorStop_stopped
      motorStop_emergency_timer)

subsection \<open>Step engine: walking the acceleration table\<close>

text \<open>
  A tick that starts a pulse, case by case: with repeats left it counts one off and
  keeps speed and index; with none left and the axis too slow it moves one entry up the
  table, adopts that entry's speed and reloads its repeats, or takes the target speed
  itself at the top of the table or where the next entry is not slower than the target;
  too fast, it does the same one entry down. After a reload of \<open>r\<close> the speed is kept
  for \<open>r\<close> pulse starts and left on the next, \<open>r + 1\<close> pulses in all.
\<close>

lemma unat_reloadRepeats:
  "unat (reloadRepeats a i s) =
     (if highSpeedMode s a then (3 * unat (repeats (accelTable s a ! unat i)) + 2) mod 256
      else unat (repeats (accelTable s a ! unat i)))"
  by (simp add: reloadRepeats_def unat_word_ariths mod_simps mult.commute)

lemma pulseStart_hold:
  assumes "accelTableRepeatsLeft s a \<noteq> 0"
  shows "pulseStart a v s =
     s\<lparr>stepPin := (stepPin s)(a := True),
       accelTableRepeatsLeft := (accelTableRepeatsLeft s)(a := accelTableRepeatsLeft s a - 1)\<rparr>"
  using assms by (simp add: pulseStart_def Let_def)

lemma pulseStart_accelerate:
  assumes "accelTableRepeatsLeft s a = 0" and "currentIVal s a < v"
    and "unat (accelTableIndex s a) < AccelTableLength - 1"
    and "currentIVal s a < speed (accelTable s a ! unat (accelTableIndex s a + 1))"
  shows "pulseStart a v s =
     s\<lparr>stepPin := (stepPin s)(a := True),
       accelTableIndex := (accelTableIndex s)(a := accelTableIndex s a + 1),
       accelTableRepeatsLeft :=
         (accelTableRepeatsLeft s)(a := reloadRepeats a (accelTableIndex s a + 1) s),
       currentMotorSpeed :=
         (currentMotorSpeed s)(a := speed (accelTable s a ! unat (accelTableIndex s a + 1)))\<rparr>"
  using assms by (simp add: pulseStart_def Let_def reloadRepeats_def not_le)

lemma pulseStart_accelerate_snap:
  assumes "accelTableRepeatsLeft s a = 0" and "currentIVal s a < v"
  shows "AccelTableLength - 1 \<le> unat (accelTableIndex s a) \<Longrightarrow>
           pulseStart a v s =
             s\<lparr>stepPin := (stepPin s)(a := True),
               currentMotorSpeed := (currentMotorSpeed s)(a := currentIVal s a)\<rparr>"
    and "unat (accelTableIndex s a) < AccelTableLength - 1 \<Longrightarrow>
         speed (accelTable s a ! unat (accelTableIndex s a + 1)) \<le> currentIVal s a \<Longrightarrow>
           pulseStart a v s =
             s\<lparr>stepPin := (stepPin s)(a := True),
               accelTableIndex := (accelTableIndex s)(a := accelTableIndex s a + 1),
               currentMotorSpeed := (currentMotorSpeed s)(a := currentIVal s a)\<rparr>"
  using assms by (simp_all add: pulseStart_def Let_def not_le)

lemma pulseStart_decelerate:
  assumes "accelTableRepeatsLeft s a = 0" and "v < currentIVal s a"
    and "accelTableIndex s a \<noteq> 0"
    and "speed (accelTable s a ! unat (accelTableIndex s a - 1)) < currentIVal s a"
  shows "pulseStart a v s =
     s\<lparr>stepPin := (stepPin s)(a := True),
       accelTableIndex := (accelTableIndex s)(a := accelTableIndex s a - 1),
       accelTableRepeatsLeft :=
         (accelTableRepeatsLeft s)(a := reloadRepeats a (accelTableIndex s a - 1) s),
       currentMotorSpeed :=
         (currentMotorSpeed s)(a := speed (accelTable s a ! unat (accelTableIndex s a - 1)))\<rparr>"
  using assms by (simp add: pulseStart_def Let_def reloadRepeats_def not_le not_less)

lemma pulseStart_decelerate_snap:
  assumes "accelTableRepeatsLeft s a = 0" and "v < currentIVal s a"
  shows "accelTableIndex s a = 0 \<Longrightarrow>
           pulseStart a v s =
             s\<lparr>stepPin := (stepPin s)(a := True),
               currentMotorSpeed := (currentMotorSpeed s)(a := currentIVal s a)\<rparr>"
    and "accelTableIndex s a \<noteq> 0 \<Longrightarrow>
         currentIVal s a \<le> speed (accelTable s a ! unat (accelTableIndex s a - 1)) \<Longrightarrow>
           pulseStart a v s =
             s\<lparr>stepPin := (stepPin s)(a := True),
               accelTableIndex := (accelTableIndex s)(a := accelTableIndex s a - 1),
               currentMotorSpeed := (currentMotorSpeed s)(a := currentIVal s a)\<rparr>"
  using assms by (simp_all add: pulseStart_def Let_def not_le not_less)


lemma pulseStart_hold_count:
  "n \<le> unat (accelTableRepeatsLeft s a) \<Longrightarrow>
   ((\<lambda>s'. pulseStart a (currentMotorSpeed s' a) s') ^^ n) s =
     (if n = 0 then s
      else s\<lparr>stepPin := (stepPin s)(a := True),
             accelTableRepeatsLeft :=
               (accelTableRepeatsLeft s)(a := accelTableRepeatsLeft s a - of_nat n)\<rparr>)"
proof (induction n)
  case 0
  show ?case by simp
next
  case (Suc n)
  let ?r = "accelTableRepeatsLeft s a"
  let ?s = "(if n = 0 then s
            else s\<lparr>stepPin := (stepPin s)(a := True),
                   accelTableRepeatsLeft := (accelTableRepeatsLeft s)(a := ?r - of_nat n)\<rparr>)"
  from Suc have ih: "((\<lambda>s'. pulseStart a (currentMotorSpeed s' a) s') ^^ n) s = ?s" by simp
  have "unat (of_nat n :: 8 word) = n"
    using Suc.prems unsigned_less [of ?r, where 'a = nat] by (simp add: unsigned_of_nat take_bit_nat_eq_self)
  with Suc.prems have "unat (?r - of_nat n) = unat ?r - n"
    by (simp add: unat_sub word_le_nat_alt)
  with Suc.prems have "unat (?r - of_nat n) \<noteq> 0" by simp
  then have ne: "?r - of_nat n \<noteq> 0" by (auto simp: unat_eq_zero)
  then have ne': "accelTableRepeatsLeft ?s a \<noteq> 0" by auto
  have "pulseStart a (currentMotorSpeed ?s a) ?s =
     s\<lparr>stepPin := (stepPin s)(a := True),
       accelTableRepeatsLeft := (accelTableRepeatsLeft s)(a := ?r - of_nat (Suc n))\<rparr>"
    unfolding pulseStart_hold [OF ne'] by (simp add: algebra_simps)
  then show ?case by (simp add: ih)
qed

lemma reloadRepeats_stepPin [simp]:
  "reloadRepeats a i (s\<lparr>stepPin := p\<rparr>) = reloadRepeats a i s"
  "reloadRepeats a i (s\<lparr>accelTableRepeatsLeft := r\<rparr>) = reloadRepeats a i s"
  by (simp_all add: reloadRepeats_def)

lemma accelerate_after_hold:
  assumes r: "unat (accelTableRepeatsLeft s a) = r"
    and slow: "currentIVal s a < currentMotorSpeed s a"
    and idx: "unat (accelTableIndex s a) < AccelTableLength - 1"
    and nxt: "currentIVal s a < speed (accelTable s a ! unat (accelTableIndex s a + 1))"
  shows "currentMotorSpeed (((\<lambda>s'. pulseStart a (currentMotorSpeed s' a) s') ^^ r) s) a =
           currentMotorSpeed s a \<and>
         accelTableIndex (((\<lambda>s'. pulseStart a (currentMotorSpeed s' a) s') ^^ r) s) a =
           accelTableIndex s a \<and>
         currentMotorSpeed (((\<lambda>s'. pulseStart a (currentMotorSpeed s' a) s') ^^ Suc r) s) a =
           speed (accelTable s a ! unat (accelTableIndex s a + 1)) \<and>
         accelTableIndex (((\<lambda>s'. pulseStart a (currentMotorSpeed s' a) s') ^^ Suc r) s) a =
           accelTableIndex s a + 1 \<and>
         accelTableRepeatsLeft (((\<lambda>s'. pulseStart a (currentMotorSpeed s' a) s') ^^ Suc r) s) a =
           reloadRepeats a (accelTableIndex s a + 1) s"
proof -
  let ?P = "\<lambda>s'. pulseStart a (currentMotorSpeed s' a) s'"
  let ?s = "(?P ^^ r) s"
  have hold: "?s = (if r = 0 then s
      else s\<lparr>stepPin := (stepPin s)(a := True),
             accelTableRepeatsLeft :=
               (accelTableRepeatsLeft s)(a := accelTableRepeatsLeft s a - of_nat r)\<rparr>)"
    by (rule pulseStart_hold_count) (simp add: r)
  have z: "accelTableRepeatsLeft s a - of_nat r = 0"
    using r by auto
  have f: "accelTableRepeatsLeft ?s a = 0" "currentIVal ?s = currentIVal s"
    "currentMotorSpeed ?s = currentMotorSpeed s" "accelTableIndex ?s = accelTableIndex s"
    "accelTable ?s = accelTable s" "reloadRepeats a i ?s = reloadRepeats a i s" for i
    using r z by (auto simp: hold unat_eq_zero)
  have step: "(?P ^^ Suc r) s = pulseStart a (currentMotorSpeed ?s a) ?s" by simp
  have acc: "pulseStart a (currentMotorSpeed ?s a) ?s =
     ?s\<lparr>stepPin := (stepPin ?s)(a := True),
       accelTableIndex := (accelTableIndex ?s)(a := accelTableIndex ?s a + 1),
       accelTableRepeatsLeft :=
         (accelTableRepeatsLeft ?s)(a := reloadRepeats a (accelTableIndex ?s a + 1) ?s),
       currentMotorSpeed :=
         (currentMotorSpeed ?s)(a := speed (accelTable ?s a ! unat (accelTableIndex ?s a + 1)))\<rparr>"
    by (rule pulseStart_accelerate) (use f slow idx nxt in simp_all)
  show ?thesis
    unfolding step acc by (simp add: f)
qed

text \<open>
  Claim C3 at a table entry with 85 repeats in high-speed mode. The tick moves the axis
  to that entry, adopts its speed 50 and reloads the repeats counter, a byte, with 1:
  \<open>85 * 3 + 2 = 257\<close> does not fit it.
\<close>

lemma highSpeedRamp_facts:
  "irqToNextStep highSpeedRampState RA = 1" "\<not> stepPin highSpeedRampState RA"
  "currentMotorSpeed highSpeedRampState RA = 100" "currentIVal highSpeedRampState RA = 20"
  "accelTableRepeatsLeft highSpeedRampState RA = 0" "accelTableIndex highSpeedRampState RA = 0"
  "accelTable highSpeedRampState RA = overflowTable" "highSpeedMode highSpeedRampState RA"
  by (simp_all add: highSpeedRampState_def exampleState_def)

lemma overflowTable_entry:
  "overflowTable ! 1 = \<lparr>speed = 50, repeats = 85\<rparr>"
  "overflowTable ! Suc 0 = \<lparr>speed = 50, repeats = 85\<rparr>"
  by (simp_all add: overflowTable_def)

theorem highSpeed_reload_overflow:
  "highSpeedMode highSpeedRampState RA \<and>
   unat (repeats (accelTable highSpeedRampState RA ! 1)) = 85 \<and>
   accelTableIndex (timerISR RA highSpeedRampState) RA = 1 \<and>
   currentMotorSpeed (timerISR RA highSpeedRampState) RA = 50 \<and>
   unat (accelTableRepeatsLeft (timerISR RA highSpeedRampState) RA) = 1"
proof -
  let ?s = "reloadTimer RA highSpeedRampState"
  have isr: "timerISR RA highSpeedRampState = pulseStart RA 100 ?s"
    using highSpeedRamp_facts by (simp add: timerISR_edge)
  have f: "accelTableRepeatsLeft ?s RA = 0" "currentIVal ?s RA = 20"
    "accelTableIndex ?s RA = 0" "accelTable ?s RA = overflowTable" "highSpeedMode ?s RA"
    using highSpeedRamp_facts by (simp_all add: reloadTimer_frame)
  have acc: "pulseStart RA 100 ?s =
     ?s\<lparr>stepPin := (stepPin ?s)(RA := True),
       accelTableIndex := (accelTableIndex ?s)(RA := accelTableIndex ?s RA + 1),
       accelTableRepeatsLeft :=
         (accelTableRepeatsLeft ?s)(RA := reloadRepeats RA (accelTableIndex ?s RA + 1) ?s),
       currentMotorSpeed :=
         (currentMotorSpeed ?s)(RA := speed (accelTable ?s RA ! unat (accelTableIndex ?s RA + 1)))\<rparr>"
    by (rule pulseStart_accelerate)
       (simp_all add: f overflowTable_entry AccelTableLength_def)
  show ?thesis
    unfolding isr acc
    using highSpeedRamp_facts(7,8)
    by (simp add: f reloadRepeats_def overflowTable_entry)
qed

subsection \<open>Rounding to binary32\<close>

lemma bitLength_0 [simp]: "bitLength 0 = 0"
  by (simp add: bitLength.simps)

lemma bitLength_pos: "0 < n \<Longrightarrow> bitLength n = Suc (bitLength (n div 2))"
  by (subst bitLength.simps) simp

lemma bitLength_bounds: "0 < n \<Longrightarrow> 2 ^ (bitLength n - 1) \<le> n \<and> n < 2 ^ bitLength n"
proof (induction n rule: bitLength.induct)
  case (1 n)
  show ?case
  proof (cases "n div 2 = 0")
    case True
    with 1(2) have "n = 1" by (cases n) auto
    then show ?thesis by (simp add: bitLength_pos)
  next
    case False
    with 1 have ih: "2 ^ (bitLength (n div 2) - 1) \<le> n div 2" "n div 2 < 2 ^ bitLength (n div 2)"
      by simp_all
    from False have "0 < bitLength (n div 2)" by (simp add: bitLength_pos)
    then have e: "2 ^ bitLength (n div 2) = (2 :: nat) * 2 ^ (bitLength (n div 2) - 1)"
      by (cases "bitLength (n div 2)") simp_all
    from ih have "2 * 2 ^ (bitLength (n div 2) - 1) \<le> n" "n < 2 * 2 ^ bitLength (n div 2)"
      by linarith+
    with 1(2) show ?thesis by (simp add: bitLength_pos e)
  qed
qed

lemma bitLength_le: "n < 2 ^ k \<Longrightarrow> bitLength n \<le> k"
proof (cases "n = 0")
  case True
  then show ?thesis by simp
next
  case False
  assume lt: "n < 2 ^ k"
  from False bitLength_bounds [of n] have "(2 :: nat) ^ (bitLength n - 1) \<le> n" by simp
  from this lt have "(2 :: nat) ^ (bitLength n - 1) < 2 ^ k" by (rule le_less_trans)
  then have "bitLength n - 1 < k" by simp
  then show ?thesis by simp
qed

lemma roundEven_error: "\<bar>of_int (roundEven x) - x\<bar> \<le> 1 / 2"
proof -
  define d where "d = x - of_int \<lfloor>x\<rfloor>"
  have d: "0 \<le> d" "d < 1" unfolding d_def by linarith+
  have x: "x = of_int \<lfloor>x\<rfloor> + d" by (simp add: d_def)
  consider "d < 1 / 2" | "1 / 2 < d" | "d = 1 / 2" by linarith
  then show ?thesis
  proof cases
    case 1
    then have "roundEven x = \<lfloor>x\<rfloor>" by (simp add: roundEven_def Let_def d_def)
    then have "of_int (roundEven x) - x = - d" by (simp add: d_def)
    with d 1 show ?thesis by simp
  next
    case 2
    then have "roundEven x = \<lfloor>x\<rfloor> + 1" by (simp add: roundEven_def Let_def d_def)
    then have "of_int (roundEven x) - x = 1 - d" by (simp add: d_def)
    with d 2 show ?thesis by simp
  next
    case 3
    then have "roundEven x = \<lfloor>x\<rfloor> \<or> roundEven x = \<lfloor>x\<rfloor> + 1"
      by (simp add: roundEven_def Let_def d_def)
    then have "of_int (roundEven x) - x = - d \<or> of_int (roundEven x) - x = 1 - d"
      by (auto simp: d_def)
    with 3 show ?thesis by auto
  qed
qed

lemma roundEven_of_int [simp]: "roundEven (of_int k) = k"
  by (simp add: roundEven_def)

lemma ulpAt_pos: "0 < ulpAt e x"
  by (simp add: ulpAt_def)

lemma ulp32_pos: "0 < ulp32 x"
  by (simp add: ulp32_def ulpAt_pos)

lemma float32_error: "\<bar>float32 x - x\<bar> \<le> ulp32 x / 2"
proof -
  let ?r = "of_int (roundEven (x / ulp32 x)) :: rat"
  have u: "0 < ulp32 x" by (rule ulp32_pos)
  then have "float32 x - x = (?r - x / ulp32 x) * ulp32 x"
    by (simp add: float32_def field_simps)
  then have "\<bar>float32 x - x\<bar> = \<bar>?r - x / ulp32 x\<bar> * ulp32 x"
    using u by (simp add: abs_mult)
  also have "\<dots> \<le> 1 / 2 * ulp32 x"
    using roundEven_error [of "x / ulp32 x"] u
    by (intro mult_right_mono) simp_all
  finally show ?thesis by simp
qed


lemma ulpAt_exponent:
  assumes "0 \<le> x" and "x < 2 ^ k" and "24 \<le> e"
  shows "bitLength (nat \<lfloor>x * 2 ^ e\<rfloor>) - 24 \<le> k + e - 24"
proof -
  have "x * 2 ^ e < 2 ^ k * 2 ^ e" using assms(2) by simp
  then have "x * 2 ^ e < 2 ^ (k + e)" by (simp add: power_add)
  then have "\<lfloor>x * 2 ^ e\<rfloor> < 2 ^ (k + e)" by (simp add: floor_less_iff)
  moreover have "0 \<le> \<lfloor>x * 2 ^ e\<rfloor>" using assms(1) by simp
  ultimately have "nat \<lfloor>x * 2 ^ e\<rfloor> < 2 ^ (k + e)"
    by (simp add: nat_less_iff)
  then have "bitLength (nat \<lfloor>x * 2 ^ e\<rfloor>) \<le> k + e" by (rule bitLength_le)
  then show ?thesis by simp
qed

lemma ulpAt_le:
  assumes "0 \<le> x" and "x < 2 ^ k" and "24 \<le> e"
  shows "ulpAt e x \<le> 2 ^ k / 2 ^ 24"
proof -
  let ?j = "bitLength (nat \<lfloor>x * 2 ^ e\<rfloor>) - 24"
  have "(2 :: rat) ^ ?j \<le> 2 ^ (k + e - 24)"
    using ulpAt_exponent [OF assms] by (intro power_increasing) simp_all
  then have "ulpAt e x \<le> 2 ^ (k + e - 24) / 2 ^ e"
    by (simp add: ulpAt_def divide_right_mono)
  also have "(2 :: rat) ^ (k + e - 24) * 2 ^ 24 = 2 ^ k * 2 ^ e"
    using assms(3) by (simp only: power_add [symmetric]) simp
  then have "(2 :: rat) ^ (k + e - 24) / 2 ^ e = 2 ^ k / 2 ^ 24"
    by (simp add: field_simps)
  finally show ?thesis .
qed

lemma ulp32_le: "0 \<le> x \<Longrightarrow> x < 2 ^ k \<Longrightarrow> ulp32 x \<le> 2 ^ k / 2 ^ 24"
  unfolding ulp32_def by (rule ulpAt_le) simp_all

lemma ulpAt_divides:
  assumes "0 \<le> x" and "x < 2 ^ k" and "k \<le> 24" and "24 \<le> e"
    and "x * 2 ^ (24 - k) \<in> \<int>"
  shows "x / ulpAt e x \<in> \<int>"
proof -
  let ?j = "bitLength (nat \<lfloor>x * 2 ^ e\<rfloor>) - 24"
  have j: "?j \<le> k + e - 24" by (rule ulpAt_exponent [OF assms(1,2,4)])
  obtain z :: int where z: "x * 2 ^ (24 - k) = of_int z"
    using assms(5) by (auto elim: Ints_cases)
  have "24 - k + (k + e - 24 - ?j) + ?j = e" using j assms(3,4) by simp
  then have pw: "(2 :: rat) ^ e = 2 ^ (24 - k) * 2 ^ (k + e - 24 - ?j) * 2 ^ ?j"
    by (simp only: power_add [symmetric])
  define A B C :: rat where "A = 2 ^ (24 - k)" and "B = 2 ^ (k + e - 24 - ?j)" and "C = 2 ^ ?j"
  have C: "0 < C" by (simp add: C_def)
  have eq: "(2 :: rat) ^ e = A * B * C" using pw by (simp only: A_def B_def C_def)
  have "x / ulpAt e x = x * 2 ^ e / C" by (simp add: ulpAt_def C_def)
  also have "\<dots> = x * (A * B * C) / C" by (simp only: eq)
  also have "\<dots> = x * A * B" using C by simp
  finally have "x / ulpAt e x = x * 2 ^ (24 - k) * 2 ^ (k + e - 24 - ?j)"
    by (simp only: A_def B_def)
  also have "\<dots> = of_int (z * 2 ^ (k + e - 24 - ?j))" by (simp add: z)
  finally show ?thesis by simp
qed

lemma float32_exact:
  assumes "0 \<le> x" and "x < 2 ^ k" and "k \<le> 24" and "x * 2 ^ (24 - k) \<in> \<int>"
  shows "float32 x = x"
proof -
  have "x / ulp32 x \<in> \<int>"
    unfolding ulp32_def by (rule ulpAt_divides [OF assms(1,2,3) _ assms(4)]) simp
  then obtain z :: int where "x / ulp32 x = of_int z" by (auto elim: Ints_cases)
  then have "of_int (roundEven (x / ulp32 x)) = x / ulp32 x"
    by (simp only: roundEven_of_int)
  then show ?thesis
    using ulp32_pos [of x] by (simp add: float32_def)
qed

lemma float32_of_nat: "n < 2 ^ 24 \<Longrightarrow> float32 (of_nat n) = of_nat n"
proof -
  assume "n < 2 ^ 24"
  then have "(of_nat n :: rat) < of_nat (2 ^ 24)" by (simp only: of_nat_less_iff)
  then have "(of_nat n :: rat) < 2 ^ 24" by simp
  then show ?thesis
    by (intro float32_exact [where k = 24]) simp_all
qed

lemma float32_half: "float32 (1 / 2) = 1 / 2"
  by (rule float32_exact [where k = 0]) simp_all

lemma roundEven_nonneg: "0 \<le> x \<Longrightarrow> 0 \<le> roundEven x"
  by (auto simp: roundEven_def Let_def)

lemma float32_nonneg: "0 \<le> x \<Longrightarrow> 0 \<le> float32 x"
  using ulp32_pos [of x] by (simp add: float32_def roundEven_nonneg)

lemma float32_near:
  assumes "0 \<le> x" and "x < 2 ^ k"
  shows "\<bar>float32 x - x\<bar> \<le> 2 ^ k / 2 ^ 25"
proof -
  have "\<bar>float32 x - x\<bar> \<le> ulp32 x / 2" by (rule float32_error)
  also have "\<dots> \<le> (2 ^ k / 2 ^ 24) / 2"
    using ulp32_le [OF assms] by simp
  finally show ?thesis by simp
qed

text \<open>The value that \<open>extraClocks\<close> truncates is close to \<open>32 * r / d + 1 / 2\<close>.\<close>

lemma extraClocks_approx:
  assumes d: "0 < d" "d < 2 ^ 24" and r: "r < d"
  defines "v \<equiv> float32 (float32 (float32 (float32 (of_nat r) / float32 (of_nat d))
                      * float32 (of_nat DecimalDistnWidth)) + float32 (1 / 2))"
  shows "\<bar>v - (32 * (of_nat r / of_nat d) + 1 / 2)\<bar> < 1 / 131072" and "0 \<le> v"
proof -
  let ?x = "of_nat r / of_nat d :: rat"
  let ?q = "float32 ?x"
  let ?m = "float32 (?q * 32)"
  let ?a = "?m + 1 / 2"
  have rd: "float32 (of_nat r) = of_nat r" "float32 (of_nat d) = of_nat d"
    using d r by (simp_all add: float32_of_nat)
  have w: "float32 (of_nat DecimalDistnWidth) = 32"
    using float32_of_nat [of 32] by (simp add: DecimalDistnWidth_def)
  have v: "v = float32 ?a" by (simp add: v_def rd w float32_half)
  have q0: "0 \<le> ?x" "?x < 1" using d r by simp_all
  have q: "0 \<le> ?q" "\<bar>?q - ?x\<bar> \<le> 1 / 33554432"
    using float32_nonneg [OF q0(1)] float32_near [OF q0(1), of 0] q0(2) by simp_all
  from q q0 have q2: "?q * 32 < 64" by linarith
  then have q2': "?q * 32 < 2 ^ 6" by simp
  have m0: "0 \<le> ?q * 32" using q(1) by simp
  have m: "0 \<le> ?m" "\<bar>?m - ?q * 32\<bar> \<le> 1 / 524288"
    using float32_nonneg [OF m0] float32_near [OF m0 q2'] by simp_all
  from m q2 have a: "0 \<le> ?a" "?a < 128" by linarith+
  from a(2) have a': "?a < 2 ^ 7" by simp
  have va: "0 \<le> float32 ?a" "\<bar>float32 ?a - ?a\<bar> \<le> 1 / 262144"
    using float32_nonneg [OF a(1)] float32_near [OF a(1) a'] by simp_all
  show "0 \<le> v" using va(1) v by simp
  from va(2) m(2) q(2) have "\<bar>float32 ?a - (32 * ?x + 1 / 2)\<bar> < 1 / 131072"
    by linarith
  then show "\<bar>v - (32 * (of_nat r / of_nat d) + 1 / 2)\<bar> < 1 / 131072"
    unfolding v .
qed


lemma extraClocks_bounds:
  assumes d: "0 < d" "d < 2 ^ 24" and r: "r < d"
  shows "extraClocks r d \<le> 32"
    and "\<bar>int (extraClocks r d) - \<lfloor>32 * (of_nat r / of_nat d) + 1 / 2 :: rat\<rfloor>\<bar> \<le> 1"
proof -
  let ?v = "float32 (float32 (float32 (float32 (of_nat r) / float32 (of_nat d))
                      * float32 (of_nat DecimalDistnWidth)) + float32 (1 / 2))"
  let ?E = "32 * (of_nat r / of_nat d) + 1 / 2 :: rat"
  note c = extraClocks_approx [OF d r]
  have "of_nat r / of_nat d < (1 :: rat)" using d r by simp
  then have E: "?E < 65 / 2" by linarith
  from c(1) have near: "?v < ?E + 1" "?E < ?v + 1" by linarith+
  from c(1) E have "?v < 33" by linarith
  then have fl0: "\<lfloor>?v\<rfloor> \<le> 32" "0 \<le> \<lfloor>?v\<rfloor>"
    using c(2) by (simp_all add: floor_le_iff)
  define w where "w = \<lfloor>?v\<rfloor>"
  have fl: "w \<le> 32" "0 \<le> w" using fl0 by (simp_all only: w_def)
  have "extraClocks r d = nat w mod 2 ^ 32"
    by (simp only: extraClocks_def Let_def w_def)
  also have "\<dots> = nat w" using fl by simp
  finally have ec: "extraClocks r d = nat w" .
  show "extraClocks r d \<le> 32" using fl by (simp add: ec)
  have fe: "\<lfloor>?E + 1\<rfloor> = \<lfloor>?E\<rfloor> + 1" "\<lfloor>?v + 1\<rfloor> = \<lfloor>?v\<rfloor> + 1" by linarith+
  from near(1) have "\<lfloor>?v\<rfloor> \<le> \<lfloor>?E + 1\<rfloor>" by (intro floor_mono) simp
  then have 1: "w \<le> \<lfloor>?E\<rfloor> + 1" by (simp only: w_def fe)
  from near(2) have "\<lfloor>?E\<rfloor> \<le> \<lfloor>?v + 1\<rfloor>" by (intro floor_mono) simp
  then have 2: "\<lfloor>?E\<rfloor> \<le> w + 1" by (simp only: w_def fe)
  from 1 2 fl show "\<bar>int (extraClocks r d) - \<lfloor>?E\<rfloor>\<bar> \<le> 1"
    by (simp add: ec)
qed
lemma ceiling_float32_quotient:
  assumes r: "0 < r" "r \<le> 32" and n: "n < 1024 * r"
  shows "\<lceil>float32 (of_nat n / of_nat r)\<rceil> = \<lceil>of_nat n / of_nat r :: rat\<rceil>"
proof -
  define R N y :: rat where "R = of_nat r" and "N = of_nat n" and "y = N / R"
  define c where "c = \<lceil>y\<rceil>"
  have R: "0 < R" "R \<le> 32" using r by (simp_all add: R_def)
  have Ri: "R = of_int (int r)" and Ni: "N = of_int (int n)" by (simp_all add: R_def N_def)
  have y0: "0 \<le> y" using R by (simp add: y_def N_def)
  have ry: "y * R = N" using R(1) by (simp add: y_def)
  have "N < 1024 * R" using n unfolding R_def N_def
    by (metis of_nat_less_iff of_nat_mult of_nat_numeral)
  then have y1: "y < 1024" using R(1) by (simp add: y_def field_simps)
  then have y1': "y < 2 ^ 10" by simp
  have inv: "1 / 32 \<le> 1 / R" using R by (simp add: field_simps)
  have "\<lceil>float32 y\<rceil> = c"
  proof (cases "y \<in> \<int>")
    case True
    have "y < 2 ^ 24" using y1 by simp
    then have "float32 y = y"
      using True by (intro float32_exact [OF y0, where k = 24]) simp_all
    then show ?thesis by (simp add: c_def)
  next
    case False
    have near: "\<bar>float32 y - y\<bar> \<le> 1 / 32768"
      using float32_near [OF y0 y1'] by simp
    have "y \<le> of_int c" unfolding c_def by linarith
    moreover have "y \<noteq> of_int c" using False by (metis Ints_of_int)
    ultimately have up: "y < of_int c" by simp
    have "y * R < of_int c * R" by (rule mult_strict_right_mono [OF up R(1)])
    then have "N < of_int c * R" by (simp only: ry)
    then have "(of_int (int n) :: rat) < of_int (c * int r)"
      by (simp only: Ni Ri of_int_mult)
    then have "int n + 1 \<le> c * int r" by (simp only: of_int_less_iff)
    then have "(of_int (int n + 1) :: rat) \<le> of_int (c * int r)" by (simp only: of_int_le_iff)
    then have "N + 1 \<le> of_int c * R" by (simp add: Ni Ri)
    then have "y * R + 1 \<le> of_int c * R" by (simp only: ry)
    then have "y + 1 / R \<le> of_int c" using R(1) by (simp add: field_simps)
    with inv have hi: "y + 1 / 32 \<le> of_int c" by linarith
    have dn: "of_int c - 1 < y" unfolding c_def by linarith
    have "(of_int c - 1) * R < y * R" by (rule mult_strict_right_mono [OF dn R(1)])
    then have "(of_int c - 1) * R < N" by (simp only: ry)
    then have "(of_int ((c - 1) * int r) :: rat) < of_int (int n)"
      by (simp only: Ni Ri of_int_mult of_int_diff of_int_1)
    then have "(c - 1) * int r + 1 \<le> int n" by (simp only: of_int_less_iff)
    then have "(of_int ((c - 1) * int r + 1) :: rat) \<le> of_int (int n)"
      by (simp only: of_int_le_iff)
    then have "(of_int c - 1) * R + 1 \<le> N" by (simp add: Ni Ri)
    then have "(of_int c - 1) * R + 1 \<le> y * R" by (simp only: ry)
    then have "of_int c - 1 + 1 / R \<le> y" using R(1) by (simp add: field_simps)
    with inv have lo: "of_int c - 1 + 1 / 32 \<le> y" by linarith
    from near hi lo have "of_int c - 1 < float32 y" "float32 y \<le> of_int c" by linarith+
    then show ?thesis by (intro ceiling_unique) simp_all
  qed
  then show ?thesis by (simp only: c_def y_def R_def N_def)
qed


subsection \<open>The rate table\<close>

lemma spreadOffset_bound:
  assumes "i < r" and "r \<le> 32"
  shows "spreadOffset r i < 32"
proof -
  define y :: rat where "y = of_nat (32 * i) / of_nat r"
  have "32 * i + r \<le> 32 * r" using assms by simp
  then have "32 * i \<le> 31 * r" by simp
  then have "(of_nat (32 * i) :: rat) \<le> of_nat (31 * r)" by (simp only: of_nat_le_iff)
  then have "(of_nat (32 * i) :: rat) \<le> 31 * of_nat r" by simp
  then have "y \<le> 31" using assms(1) unfolding y_def by (simp only: pos_divide_le_eq of_nat_0_less_iff)
  then have "\<lceil>y\<rceil> \<le> 31" by (simp add: ceiling_le_iff)
  then have "nat \<lceil>y\<rceil> < 32" by linarith
  then show ?thesis by (simp only: spreadOffset_def DecimalDistnWidth_def y_def)
qed

lemma spreadOffset_less:
  assumes "i < j" and "j < r" and "r \<le> 32"
  shows "spreadOffset r i < spreadOffset r j"
proof -
  define R A B :: rat where "R = of_nat r" and "A = of_nat (32 * i)" and "B = of_nat (32 * j)"
  define yi yj :: rat where "yi = A / R" and "yj = B / R"
  have R: "0 < R" "R \<le> 32" using assms by (simp_all add: R_def)
  have "32 * i + 32 \<le> 32 * j" using assms by simp
  then have "(of_nat (32 * i + 32) :: rat) \<le> of_nat (32 * j)" by (simp only: of_nat_le_iff)
  then have "A + 32 \<le> B" by (simp add: A_def B_def)
  with R(2) have "A + R \<le> B" by linarith
  then have "(A + R) / R \<le> B / R" using R(1) by (simp only: divide_right_mono less_imp_le)
  moreover have "(A + R) / R = A / R + 1" using R(1) by (simp add: add_divide_distrib)
  ultimately have step: "yi + 1 \<le> yj" by (simp only: yi_def yj_def)
  have "of_int \<lceil>yi\<rceil> < yi + 1" by linarith
  also note step
  also have "yj \<le> of_int \<lceil>yj\<rceil>" by linarith
  finally have lt: "\<lceil>yi\<rceil> < \<lceil>yj\<rceil>" by simp
  have "0 \<le> yi" using R(1) by (simp add: yi_def A_def)
  then have "0 \<le> \<lceil>yi\<rceil>" by linarith
  with lt have "nat \<lceil>yi\<rceil> < nat \<lceil>yj\<rceil>" by linarith
  then show ?thesis
    by (simp only: spreadOffset_def DecimalDistnWidth_def yi_def yj_def A_def B_def R_def)
qed

lemma distribute_index:
  assumes "i < r" and "r \<le> 32"
  shows "nat \<lceil>float32 (float32 (float32 (of_nat i) * float32 (of_nat DecimalDistnWidth))
                     / float32 (of_nat r))\<rceil> mod 256 = spreadOffset r i"
proof -
  have i: "float32 (of_nat i) = of_nat i" using assms by (intro float32_of_nat) simp
  have r: "float32 (of_nat r) = of_nat r" using assms by (intro float32_of_nat) simp
  have w: "float32 (of_nat DecimalDistnWidth) = of_nat 32"
    unfolding DecimalDistnWidth_def by (intro float32_of_nat) simp
  have "float32 (of_nat (i * 32)) = of_nat (i * 32)" using assms by (intro float32_of_nat) simp
  then have p: "float32 (of_nat i * of_nat 32) = of_nat (32 * i)"
    by (simp only: of_nat_mult mult.commute)
  have "32 * i < 1024 * r" using assms by simp
  then have c: "\<lceil>float32 (of_nat (32 * i) / of_nat r)\<rceil> = \<lceil>of_nat (32 * i) / of_nat r :: rat\<rceil>"
    using assms by (intro ceiling_float32_quotient) simp_all
  have "spreadOffset r i < 32" using assms by (rule spreadOffset_bound)
  then have "spreadOffset r i mod 256 = spreadOffset r i" by simp
  then show ?thesis
    unfolding i r w p c by (simp only: spreadOffset_def DecimalDistnWidth_def)
qed

lemma distribute_step:
  assumes "i < r" and "r \<le> 32"
  shows "distribute r i tbl =
    distribute r (Suc i) (tbl[spreadOffset r i := tbl ! spreadOffset r i + 1])"
  using assms distribute_index [OF assms]
  by (subst distribute.simps) (simp add: Let_def)

lemma distribute_done: "distribute r r tbl = tbl"
  by (subst distribute.simps) simp

lemma distribute_entries:
  assumes "r \<le> 32"
  shows "i \<le> r \<Longrightarrow> length tbl = 32 \<Longrightarrow> distribute r i tbl =
    map (\<lambda>k. tbl ! k + (if k \<in> spreadOffset r ` {i..<r} then 1 else 0)) [0..<32]"
proof (induction "r - i" arbitrary: i tbl rule: less_induct)
  case less
  show ?case
  proof (cases "i = r")
    case True
    have "map ((!) tbl) [0..<length tbl] = tbl" by (rule map_nth)
    then show ?thesis using less.prems True by (simp add: distribute_done)
  next
    case False
    then have ir: "i < r" using less.prems by simp
    define p where "p = spreadOffset r i"
    define tbl' where "tbl' = tbl[p := tbl ! p + 1]"
    have p: "p < 32" unfolding p_def using ir assms by (rule spreadOffset_bound)
    have notin: "p \<notin> spreadOffset r ` {Suc i..<r}"
    proof
      assume "p \<in> spreadOffset r ` {Suc i..<r}"
      then obtain j where j: "j \<in> {Suc i..<r}" "p = spreadOffset r j" by (rule imageE)
      from j(1) have "i < j" "j < r" by simp_all
      from spreadOffset_less [OF this assms] j(2) show False by (simp add: p_def)
    qed
    have split: "{i..<r} = insert i {Suc i..<r}" using ir by auto
    have ih: "distribute r (Suc i) tbl' =
      map (\<lambda>k. tbl' ! k + (if k \<in> spreadOffset r ` {Suc i..<r} then 1 else 0)) [0..<32]"
      using ir less.prems by (intro less.hyps) (simp_all add: tbl'_def)
    have "distribute r i tbl = distribute r (Suc i) tbl'"
      unfolding tbl'_def p_def using ir assms by (rule distribute_step)
    also note ih
    also have "map (\<lambda>k. tbl' ! k + (if k \<in> spreadOffset r ` {Suc i..<r} then 1 else 0)) [0..<32]
      = map (\<lambda>k. tbl ! k + (if k \<in> spreadOffset r ` {i..<r} then 1 else 0)) [0..<32]"
    proof (rule map_cong [OF refl])
      fix k assume "k \<in> set [0..<32]"
      then have k: "k < length tbl" using less.prems by simp
      show "tbl' ! k + (if k \<in> spreadOffset r ` {Suc i..<r} then 1 else 0)
          = tbl ! k + (if k \<in> spreadOffset r ` {i..<r} then 1 else 0)"
      proof (cases "k = p")
        case True
        then show ?thesis using k notin unfolding split tbl'_def by (simp add: p_def)
      next
        case False
        then show ?thesis using k unfolding split tbl'_def by (auto simp: p_def)
      qed
    qed
    finally show ?thesis .
  qed
qed

lemma extraSlots_bound:
  assumes "r \<le> 32" and "k \<in> extraSlots r"
  shows "k < 32"
proof -
  from assms(2) obtain i where "i \<in> {..<r}" "k = spreadOffset r i"
    unfolding extraSlots_def by (rule imageE)
  then show ?thesis using spreadOffset_bound [of i r] assms(1) by simp
qed

lemma card_extraSlots:
  assumes "r \<le> 32"
  shows "card (extraSlots r) = r"
proof -
  have "inj_on (spreadOffset r) {..<r}"
  proof (rule linorder_inj_onI)
    fix i j assume "i < j" "i \<in> {..<r}" "j \<in> {..<r}"
    then show "spreadOffset r i \<noteq> spreadOffset r j"
      using spreadOffset_less [of i j r] assms by simp
  qed (rule linear)
  then show ?thesis by (simp add: extraSlots_def card_image)
qed

lemma distribute_spreadTable:
  assumes "r \<le> 32"
  shows "distribute r 0 (replicate DecimalDistnWidth (of_nat base)) =
           map of_nat (spreadTable base r)"
proof -
  have "distribute r 0 (replicate 32 (of_nat base :: 16 word)) =
      map (\<lambda>k. replicate 32 (of_nat base) ! k + (if k \<in> spreadOffset r ` {0..<r} then 1 else 0))
        [0..<32]"
    using assms by (intro distribute_entries) simp_all
  also have "\<dots> = map (\<lambda>k. of_nat (base + (if k \<in> extraSlots r then 1 else 0))) [0..<32]"
    by (rule map_cong [OF refl]) (simp add: extraSlots_def atLeast0LessThan)
  also have "\<dots> = map of_nat (map (\<lambda>k. base + (if k \<in> extraSlots r then 1 else 0)) [0..<32])"
    by (simp only: map_map comp_def)
  finally show ?thesis by (simp only: spreadTable_def DecimalDistnWidth_def)
qed

lemma sum_spreadTable:
  assumes "r \<le> 32"
  shows "sum_list (spreadTable base r) = 32 * base + r"
proof -
  let ?f = "\<lambda>k. base + (if k \<in> extraSlots r then 1 else 0 :: nat)"
  have sub: "extraSlots r \<subseteq> {..<32}" using extraSlots_bound [OF assms(1)] by auto
  then have int: "{..<32} \<inter> extraSlots r = extraSlots r" by auto
  have "sum_list (spreadTable base r) = sum_list (map ?f [0..<32])"
    unfolding spreadTable_def DecimalDistnWidth_def ..
  also have "\<dots> = sum ?f {0..<32}" by (simp only: interv_sum_list_conv_sum_set_nat set_upt)
  also have "\<dots> = 32 * base + card ({..<32} \<inter> extraSlots r)"
    by (simp add: sum.distrib atLeast0LessThan sum.If_cases)
  finally show ?thesis by (simp only: int card_extraSlots [OF assms(1)])
qed

lemma length_spreadTable: "length (spreadTable base r) = 32"
  by (simp add: spreadTable_def DecimalDistnWidth_def)

lemma spreadTable_nth:
  "k < 32 \<Longrightarrow> spreadTable base r ! k = base + (if k \<in> extraSlots r then 1 else 0)"
  by (simp add: spreadTable_def DecimalDistnWidth_def)

lemma spreadTable_entries:
  assumes "p \<in> set (spreadTable base r)"
  shows "base \<le> p" and "p \<le> base + 1"
  using assms unfolding spreadTable_def by auto

lemma spreadTable_0: "spreadTable base 0 = replicate 32 base"
  by (simp add: spreadTable_def DecimalDistnWidth_def extraSlots_def map_replicate_const)

lemma unat_of_nat_16: "n < 65536 \<Longrightarrow> unat (of_nat n :: 16 word) = n"
  by (simp add: unsigned_of_nat take_bit_nat_eq_self)

lemma unat_spreadTable:
  assumes "base + 1 < 65536"
  shows "map unat (map of_nat (spreadTable base r) :: 16 word list) = spreadTable base r"
proof -
  have "unat (of_nat p :: 16 word) = p" if "p \<in> set (spreadTable base r)" for p
    using spreadTable_entries(2) [OF that] assms by (intro unat_of_nat_16) simp
  then have "map (\<lambda>p. unat (of_nat p :: 16 word)) (spreadTable base r) = map (\<lambda>p. p) (spreadTable base r)"
    by (intro map_cong [OF refl])
  then show ?thesis by (simp add: comp_def)
qed

lemma idealSum_split:
  assumes "0 < b"
  shows "idealSum b = 32 * int (timerCountRate div b) +
     \<lfloor>32 * (of_nat (timerCountRate mod b) / of_nat b) + 1 / 2 :: rat\<rfloor>"
proof -
  define q m where "q = timerCountRate div b" and "m = timerCountRate mod b"
  define B :: rat where "B = of_nat b"
  have B: "0 < B" using assms by (simp add: B_def)
  have "timerCountRate = q * b + m" by (simp add: q_def m_def)
  then have "(of_nat timerCountRate :: rat) = of_nat (q * b + m)" by (rule arg_cong)
  then have "(of_nat timerCountRate :: rat) = of_nat q * B + of_nat m"
    by (simp only: B_def of_nat_add of_nat_mult)
  then have "32 * (of_nat timerCountRate :: rat) / B = 32 * of_nat q + 32 * (of_nat m / B)"
    using B by (simp add: field_simps)
  then have "32 * (of_nat timerCountRate :: rat) / B + 1 / 2 =
      of_int (32 * int q) + (32 * (of_nat m / B) + 1 / 2)" by simp
  then have "\<lfloor>32 * (of_nat timerCountRate :: rat) / B + 1 / 2\<rfloor> =
      32 * int q + \<lfloor>32 * (of_nat m / B) + 1 / 2\<rfloor>"
    by (simp only: floor_add_int [symmetric] add.commute [of "of_int (32 * int q)"])
  then show ?thesis
    by (simp only: idealSum_def specRound_def DecimalDistnWidth_def of_nat_mult of_nat_numeral
        q_def m_def B_def)
qed

lemma clampPeriod_bounds: "128 \<le> clampPeriod p" "clampPeriod p \<le> 65535"
  by (simp_all add: clampPeriod_def)

lemma calculateRate_words:
  assumes lo: "0 < unat (bVal s a)" and hi: "unat (bVal s a) < 2 ^ 24"
  shows "calculateRate atmega162 a s =
    Some (s\<lparr>timerOVF := (timerOVF s)(a := map of_nat
      (spreadTable (clampPeriod (timerCountRate div unat (bVal s a)) - (if atmega162 then 1 else 0))
        (extraClocks (timerCountRate mod unat (bVal s a)) (unat (bVal s a)))))\<rparr>)"
    and "extraClocks (timerCountRate mod unat (bVal s a)) (unat (bVal s a)) \<le> 32"
proof -
  define b where "b = unat (bVal s a)"
  define q where "q = timerCountRate div b"
  define r where "r = extraClocks (timerCountRate mod b) b"
  have b: "0 < b" "b < 2 ^ 24" using lo hi by (simp_all add: b_def)
  have "q \<le> timerCountRate" unfolding q_def by (rule div_le_dividend)
  then have q: "q < 65536 * 65536" by (simp add: timerCountRate_def)
  then have "q div 65536 < 65536" by simp
  then have "q div 65536 mod 65536 = q div 65536" by simp
  moreover have "q div 65536 \<noteq> 0 \<longleftrightarrow> 65535 < q" by (simp add: div_eq_0_iff) arith
  ultimately have c: "(if q div 2 ^ 16 mod 2 ^ 16 \<noteq> 0 then 65535 else if q < 128 then 128 else q)
      = clampPeriod q"
    by (simp add: clampPeriod_def)
  have "timerCountRate mod b < b" using b(1) by simp
  then have r: "r \<le> 32"
    unfolding r_def using b(1,2) by (intro extraClocks_bounds(1))
  then show "extraClocks (timerCountRate mod unat (bVal s a)) (unat (bVal s a)) \<le> 32"
    by (simp only: r_def b_def)
  have d: "distribute r 0 (replicate DecimalDistnWidth (of_nat base)) =
      map of_nat (spreadTable base r)" for base
    using r by (rule distribute_spreadTable)
  show "calculateRate atmega162 a s =
    Some (s\<lparr>timerOVF := (timerOVF s)(a := map of_nat
      (spreadTable (clampPeriod (timerCountRate div unat (bVal s a)) - (if atmega162 then 1 else 0))
        (extraClocks (timerCountRate mod unat (bVal s a)) (unat (bVal s a)))))\<rparr>)"
    unfolding calculateRate_def Let_def b_def [symmetric] q_def [symmetric] c r_def [symmetric]
    using b(1) by (simp add: d)
qed

lemma rateTable_words:
  assumes lo: "0 < unat (bVal s a)" and hi: "unat (bVal s a) < 2 ^ 24"
  shows "rateTable atmega162 a s = map of_nat
      (spreadTable (clampPeriod (timerCountRate div unat (bVal s a)) - (if atmega162 then 1 else 0))
        (extraClocks (timerCountRate mod unat (bVal s a)) (unat (bVal s a))))"
  unfolding rateTable_def calculateRate_words(1) [OF lo hi] by simp

lemma period_unclamped:
  assumes "123 \<le> b" and "b \<le> 62500"
  shows "128 \<le> timerCountRate div b" and "timerCountRate div b \<le> 65040"
    and "clampPeriod (timerCountRate div b) = timerCountRate div b"
proof -
  have b: "0 < b" using assms by simp
  have "128 * b \<le> timerCountRate" using assms(2) by (simp add: timerCountRate_def)
  then show q1: "128 \<le> timerCountRate div b"
    using b by (simp only: less_eq_div_iff_mult_less_eq)
  have "timerCountRate div b \<le> timerCountRate div 123"
    using assms(1) by (intro div_le_mono2) simp_all
  then show q2: "timerCountRate div b \<le> 65040"
    by (simp add: timerCountRate_def)
  from q1 q2 show "clampPeriod (timerCountRate div b) = timerCountRate div b"
    by (simp add: clampPeriod_def)
qed

lemma period_below_limit:
  assumes "123 \<le> b"
  shows "clampPeriod (timerCountRate div b) \<le> 65040"
proof -
  have "timerCountRate div b \<le> timerCountRate div 123"
    using assms by (intro div_le_mono2) simp_all
  then have "timerCountRate div b \<le> 65040" by (simp add: timerCountRate_def)
  then show ?thesis by (simp add: clampPeriod_def)
qed

lemma extraClocks_0: "0 < d \<Longrightarrow> d < 2 ^ 24 \<Longrightarrow> extraClocks 0 d = 0"
proof -
  assume d: "0 < d" "d < 2 ^ 24"
  have z: "float32 0 = 0" using float32_of_nat [of 0] by simp
  have w: "float32 (of_nat DecimalDistnWidth) = 32"
    using float32_of_nat [of 32] by (simp add: DecimalDistnWidth_def)
  show ?thesis
    unfolding extraClocks_def Let_def by (simp add: z w float32_half float32_of_nat d)
qed

lemma extraClocks_half: "extraClocks 512 1024 = 16"
proof -
  have a: "float32 (of_nat 512) = 512" "float32 (of_nat 1024) = 1024"
    using float32_of_nat [of 512] float32_of_nat [of 1024] by simp_all
  have w: "float32 (of_nat DecimalDistnWidth) = 32"
    using float32_of_nat [of 32] by (simp add: DecimalDistnWidth_def)
  have s: "float32 16 = 16" using float32_of_nat [of 16] by simp
  have h: "float32 (33 / 2) = 33 / 2" by (rule float32_exact [where k = 6]) simp_all
  have f: "\<lfloor>33 / 2 :: rat\<rfloor> = 16" by (rule floor_unique) simp_all
  show ?thesis
    unfolding extraClocks_def Let_def a by (simp add: w float32_half s h f)
qed

lemma spreadOffset_16: "spreadOffset 16 i = 2 * i"
proof -
  have "(of_nat (32 * i) :: rat) / of_nat 16 = of_int (int (2 * i))" by simp
  then have "\<lceil>(of_nat (32 * i) :: rat) / of_nat 16\<rceil> = int (2 * i)"
    by (simp only: ceiling_of_int)
  then show ?thesis by (simp only: spreadOffset_def DecimalDistnWidth_def nat_int)
qed

lemma halfClock_slots: "0 \<in> extraSlots 16" "1 \<notin> extraSlots 16"
proof -
  have "spreadOffset 16 0 \<in> extraSlots 16" unfolding extraSlots_def by (rule imageI) simp
  then show "0 \<in> extraSlots 16" by (simp add: spreadOffset_16)
  show "1 \<notin> extraSlots 16" by (auto simp: extraSlots_def spreadOffset_16)
qed

lemma idealSum_1024: "idealSum 1024 = 250000"
proof -
  have "\<lfloor>500001 / 2 :: rat\<rfloor> = 250000" by (rule floor_unique) simp_all
  then show ?thesis
    by (simp add: idealSum_def specRound_def DecimalDistnWidth_def timerCountRate_def)
qed

lemma idealSum_100: "idealSum 100 = 2560000"
proof -
  have "\<lfloor>5120001 / 2 :: rat\<rfloor> = 2560000" by (rule floor_unique) simp_all
  then show ?thesis
    by (simp add: idealSum_def specRound_def DecimalDistnWidth_def timerCountRate_def)
qed

lemma checkEEPROM_bVal: "checkEEPROM m (s\<lparr>bVal := f\<rparr>) = checkEEPROM m s"
  by (simp add: checkEEPROM_def)

lemma checkEEPROM_exampleState: "checkEEPROM 50 exampleState"
  by (simp add: checkEEPROM_def exampleState_def A498x_def DRV8834_def)

text \<open>
  Claim C2, as the code has it. For a divisor \<open>bVal\<close> from 1 to \<open>2 ^ 24 - 1\<close>,
  \<open>calculateRate\<close> returns and leaves a table of 32 periods; \<open>extraClocks\<close> computes
  \<open>r \<le> 32\<close> extra clocks, and every slot that is not one of their slots
  \<open>ceiling (32 * i / r)\<close>, \<open>i < r\<close>, holds the base period: \<open>8000000 div bVal\<close> clamped to
  65535 from above and to 128 from below (less one on the ATmega162). When \<open>bVal\<close> is at
  least 123, the periods are, as numbers, the table of the specification, base period
  and one clock more in the slots of the extra clocks, and every one of them (with the
  one of the ATmega162 added back) lies in \<open>[128, 65535]\<close>. When \<open>bVal\<close> is from 123 to
  62500, the divisors whose ideal period is within the limits, nothing is clamped and
  the sum of the periods (with that one added back 32 times) is within 1 of
  \<open>round (32 * 8000000 / bVal)\<close>.
\<close>

theorem calculateRate_table:
  assumes lo: "0 < unat (bVal s a)" and hi: "unat (bVal s a) < 2 ^ 24"
  shows "let b = unat (bVal s a);
             off = (if atmega162 then 1 else 0);
             r = extraClocks (timerCountRate mod b) b;
             tbl = rateTable atmega162 a s
         in calculateRate atmega162 a s = Some (s\<lparr>timerOVF := (timerOVF s)(a := tbl)\<rparr>) \<and>
            length tbl = 32 \<and> r \<le> 32 \<and>
            (\<forall>k<32. k \<notin> extraSlots r \<longrightarrow>
               unat (tbl ! k) + off = clampPeriod (timerCountRate div b)) \<and>
            (123 \<le> b \<longrightarrow>
               map unat tbl = spreadTable (clampPeriod (timerCountRate div b) - off) r \<and>
               (\<forall>p \<in> set tbl. 128 \<le> unat p + off \<and> unat p + off \<le> 65535)) \<and>
            (123 \<le> b \<and> b \<le> 62500 \<longrightarrow>
               clampPeriod (timerCountRate div b) = timerCountRate div b \<and>
               \<bar>int (sum_list (map unat tbl)) + 32 * int off - idealSum b\<bar> \<le> 1)"
proof -
  define b where "b = unat (bVal s a)"
  define off :: nat where "off = (if atmega162 then 1 else 0)"
  define r where "r = extraClocks (timerCountRate mod b) b"
  define c where "c = clampPeriod (timerCountRate div b)"
  define tbl where "tbl = rateTable atmega162 a s"
  have b: "0 < b" "b < 2 ^ 24" using lo hi by (simp_all add: b_def)
  have o: "off \<le> 1" by (simp add: off_def)
  have cb: "128 \<le> c" "c \<le> 65535" unfolding c_def by (rule clampPeriod_bounds)+
  have tw: "tbl = map of_nat (spreadTable (c - off) r)"
    unfolding tbl_def c_def r_def off_def b_def by (rule rateTable_words [OF lo hi])
  have run: "calculateRate atmega162 a s = Some (s\<lparr>timerOVF := (timerOVF s)(a := tbl)\<rparr>)"
    unfolding tw c_def r_def off_def b_def by (rule calculateRate_words(1) [OF lo hi])
  have r: "r \<le> 32" unfolding r_def b_def by (rule calculateRate_words(2) [OF lo hi])
  have len: "length tbl = 32" unfolding tw by (simp add: length_spreadTable)
  have base: "unat (tbl ! k) + off = c" if "k < 32" "k \<notin> extraSlots r" for k
  proof -
    have "tbl ! k = of_nat (c - off)"
      unfolding tw using that by (simp add: length_spreadTable spreadTable_nth)
    moreover have "c - off < 65536" using cb by simp
    ultimately have "unat (tbl ! k) = c - off" by (simp only: unat_of_nat_16)
    with cb o show ?thesis by simp
  qed
  have tab: "map unat tbl = spreadTable (c - off) r \<and>
      (\<forall>p \<in> set tbl. 128 \<le> unat p + off \<and> unat p + off \<le> 65535)"
    if inr: "123 \<le> b"
  proof -
    have c: "c \<le> 65040" unfolding c_def using inr by (rule period_below_limit)
    then have lim: "c - off + 1 < 65536" by simp
    have m: "map unat tbl = spreadTable (c - off) r"
      unfolding tw using lim by (rule unat_spreadTable)
    have "128 \<le> unat p + off \<and> unat p + off \<le> 65535" if "p \<in> set tbl" for p
    proof -
      from that have "unat p \<in> set (map unat tbl)" by simp
      then have "unat p \<in> set (spreadTable (c - off) r)" by (simp only: m)
      from spreadTable_entries [OF this] cb c o show ?thesis by linarith
    qed
    with m show ?thesis by blast
  qed
  have sm: "clampPeriod (timerCountRate div b) = timerCountRate div b \<and>
      \<bar>int (sum_list (map unat tbl)) + 32 * int off - idealSum b\<bar> \<le> 1"
    if inr: "123 \<le> b" "b \<le> 62500"
  proof -
    define q where "q = timerCountRate div b"
    have q: "128 \<le> q" and cq: "c = q"
      unfolding q_def c_def using period_unclamped [OF inr] by blast+
    from tab [OF inr(1)] have m: "map unat tbl = spreadTable (q - off) r" by (simp only: cq)
    have "sum_list (map unat tbl) = 32 * (q - off) + r"
      unfolding m using r by (rule sum_spreadTable)
    then have "int (sum_list (map unat tbl)) + 32 * int off = 32 * int q + int r"
      using q o by linarith
    moreover have "idealSum b = 32 * int q +
        \<lfloor>32 * (of_nat (timerCountRate mod b) / of_nat b) + 1 / 2 :: rat\<rfloor>"
      unfolding q_def using b(1) by (rule idealSum_split)
    moreover have "\<bar>int r - \<lfloor>32 * (of_nat (timerCountRate mod b) / of_nat b) + 1 / 2 :: rat\<rfloor>\<bar> \<le> 1"
      unfolding r_def using b by (intro extraClocks_bounds(2)) simp_all
    ultimately have "\<bar>int (sum_list (map unat tbl)) + 32 * int off - idealSum b\<bar> \<le> 1"
      by linarith
    with cq show ?thesis unfolding c_def q_def by blast
  qed
  from run len r base tab sm show ?thesis
    unfolding Let_def tbl_def c_def r_def off_def b_def by blast
qed

theorem calculateRate_table_witness:
  "0 < unat (bVal halfClockState RA) \<and> unat (bVal halfClockState RA) < 2 ^ 24 \<and>
   123 \<le> unat (bVal halfClockState RA) \<and> unat (bVal halfClockState RA) \<le> 62500 \<and>
   calculateRate False RA halfClockState =
     Some (halfClockState\<lparr>timerOVF :=
       (timerOVF halfClockState)(RA := rateTable False RA halfClockState)\<rparr>) \<and>
   length (rateTable False RA halfClockState) = 32 \<and>
   (1 :: nat) < 32 \<and> 1 \<notin> extraSlots 16 \<and> unat (rateTable False RA halfClockState ! 1) = 7812 \<and>
   map unat (rateTable False RA halfClockState) = spreadTable 7812 16 \<and>
   spreadTable 7812 16 ! 0 = 7813 \<and>
   rateTable False RA halfClockState ! 0 \<in> set (rateTable False RA halfClockState) \<and>
   128 \<le> unat (rateTable False RA halfClockState ! 0) \<and>
   unat (rateTable False RA halfClockState ! 0) \<le> 65535 \<and>
   \<bar>int (sum_list (map unat (rateTable False RA halfClockState))) - idealSum 1024\<bar> \<le> 1"
proof -
  let ?t = "rateTable False RA halfClockState"
  have b: "unat (bVal halfClockState RA) = 1024"
    by (simp add: halfClockState_def exampleState_def)
  have lo: "0 < unat (bVal halfClockState RA)" and hi: "unat (bVal halfClockState RA) < 2 ^ 24"
    by (simp_all add: b)
  have q: "timerCountRate div 1024 = 7812" "timerCountRate mod 1024 = 512"
    by (simp_all add: timerCountRate_def)
  have c: "clampPeriod 7812 = 7812" by (simp add: clampPeriod_def)
  have s1: "Suc 0 \<notin> extraSlots 16" using halfClock_slots(2) by simp
  have n: "spreadTable 7812 16 ! 0 = 7813"
    by (simp add: spreadTable_nth halfClock_slots(1))
  note t = calculateRate_table [OF lo hi, of False, unfolded Let_def b q c extraClocks_half]
  from t have run: "calculateRate False RA halfClockState =
      Some (halfClockState\<lparr>timerOVF := (timerOVF halfClockState)(RA := ?t)\<rparr>)"
    and len: "length ?t = 32" by blast+
  from t have "\<forall>k<32. k \<notin> extraSlots 16 \<longrightarrow> unat (?t ! k) + (if False then 1 else 0) = 7812"
    by blast
  then have e1: "unat (?t ! 1) = 7812" using s1 by simp
  from t have "123 \<le> (1024 :: nat) \<longrightarrow>
      map unat ?t = spreadTable (7812 - (if False then 1 else 0)) 16 \<and>
      (\<forall>p \<in> set ?t. 128 \<le> unat p + (if False then 1 else 0) \<and>
         unat p + (if False then 1 else 0) \<le> 65535)" by blast
  then have m: "map unat ?t = spreadTable 7812 16"
    and e: "\<forall>p \<in> set ?t. 128 \<le> unat p \<and> unat p \<le> 65535" by simp_all
  from t have "123 \<le> (1024 :: nat) \<and> (1024 :: nat) \<le> 62500 \<longrightarrow>
      7812 = (7812 :: nat) \<and>
      \<bar>int (sum_list (map unat ?t)) + 32 * int (if False then 1 else 0) - idealSum 1024\<bar> \<le> 1"
    by blast
  then have u: "\<bar>int (sum_list (map unat ?t)) - idealSum 1024\<bar> \<le> 1" by simp
  have mem: "?t ! 0 \<in> set ?t" by (rule nth_mem) (simp add: len)
  with e have r0: "128 \<le> unat (?t ! 0) \<and> unat (?t ! 0) \<le> 65535" by blast
  show ?thesis
    using run len e1 m n mem r0 u s1 by (simp add: b)
qed

text \<open>
  A divisor of 100 passes the validation of the stored configuration, which does not
  look at \<open>bVal\<close>. Its ideal period, 80000 clocks, is clamped to 65535: the 32 periods
  add up to 2097120, and \<open>round (32 * 8000000 / 100)\<close> is 2560000.
\<close>

theorem calculateRate_clamped_sum_counterexample:
  "checkEEPROM 50 lowDivisorState \<and>
   calculateRate False RA lowDivisorState =
     Some (lowDivisorState\<lparr>timerOVF := (timerOVF lowDivisorState)(RA := replicate 32 65535)\<rparr>) \<and>
   \<not> \<bar>int (sum_list (map unat (replicate 32 (65535 :: 16 word)))) -
        idealSum (unat (bVal lowDivisorState RA))\<bar> \<le> 1"
proof -
  have b: "unat (bVal lowDivisorState RA) = 100"
    by (simp add: lowDivisorState_def exampleState_def)
  have v: "checkEEPROM 50 lowDivisorState"
    unfolding lowDivisorState_def checkEEPROM_bVal by (rule checkEEPROM_exampleState)
  have q: "timerCountRate div 100 = 80000" "timerCountRate mod 100 = 0"
    by (simp_all add: timerCountRate_def)
  have c: "clampPeriod 80000 = 65535" by (simp add: clampPeriod_def)
  have r: "extraClocks 0 100 = 0" by (rule extraClocks_0) simp_all
  have "calculateRate False RA lowDivisorState =
      Some (lowDivisorState\<lparr>timerOVF := (timerOVF lowDivisorState)(RA := map of_nat
        (spreadTable (clampPeriod (timerCountRate div 100) - (if False then 1 else 0))
          (extraClocks (timerCountRate mod 100) 100)))\<rparr>)"
    using calculateRate_words(1) [of lowDivisorState RA False] unfolding b by simp
  then have t: "calculateRate False RA lowDivisorState =
      Some (lowDivisorState\<lparr>timerOVF := (timerOVF lowDivisorState)(RA := replicate 32 65535)\<rparr>)"
    unfolding q c r by (simp add: spreadTable_0)
  have s: "sum_list (map unat (replicate 32 (65535 :: 16 word))) = 2097120"
    by (simp add: sum_list_replicate)
  show ?thesis using v t unfolding b s idealSum_100 by simp
qed

text \<open>
  Not part of the table above: below a divisor of 123 the base period is the limit
  65535, and the one clock added to it in the slots of the extra clocks does not fit the
  16-bit entry. On the ATmega1280 and 2560, whenever there is an extra clock its first
  slot, slot 0, holds 0 instead of a period; so it does at the divisor 120.
\<close>

lemma extraSlots_first: "0 < r \<Longrightarrow> 0 \<in> extraSlots r"
proof -
  assume "0 < r"
  then have "spreadOffset r 0 \<in> extraSlots r" unfolding extraSlots_def by (intro imageI) simp
  then show ?thesis by (simp add: spreadOffset_def)
qed

lemma calculateRate_wraps:
  assumes lo: "0 < unat (bVal s a)" and hi: "unat (bVal s a) \<le> 122"
    and r: "0 < extraClocks (timerCountRate mod unat (bVal s a)) (unat (bVal s a))"
  shows "rateTable False a s ! 0 = 0"
proof -
  define b where "b = unat (bVal s a)"
  have b: "0 < b" "b \<le> 122" using lo hi by (simp_all add: b_def)
  have "timerCountRate div 122 \<le> timerCountRate div b"
    using b by (intro div_le_mono2) simp_all
  then have "65535 < timerCountRate div b" by (simp add: timerCountRate_def)
  then have c: "clampPeriod (timerCountRate div b) = 65535" by (simp add: clampPeriod_def)
  have h: "unat (bVal s a) < 2 ^ 24" using hi by simp
  have "rateTable False a s ! 0 = of_nat (65535 + 1)"
    unfolding rateTable_words [OF lo h] b_def [symmetric] c
    using extraSlots_first [OF r] by (simp add: b_def length_spreadTable spreadTable_nth)
  then show ?thesis by simp
qed

lemma wrapDivisor_entry: "rateTable False RA wrapDivisorState ! 0 = 0"
proof -
  have b: "unat (bVal wrapDivisorState RA) = 120"
    by (simp add: wrapDivisorState_def exampleState_def)
  have q: "timerCountRate mod 120 = 80" by (simp add: timerCountRate_def)
  have f: "\<lfloor>32 * (of_nat 80 / of_nat 120) + 1 / 2 :: rat\<rfloor> = 21"
    by (rule floor_unique) simp_all
  have "\<bar>int (extraClocks 80 120) - \<lfloor>32 * (of_nat 80 / of_nat 120) + 1 / 2 :: rat\<rfloor>\<bar> \<le> 1"
    by (rule extraClocks_bounds(2)) simp_all
  then have "0 < extraClocks 80 120" unfolding f by linarith
  then show ?thesis
    by (intro calculateRate_wraps) (simp_all add: b q)
qed

end
